(* ===== verification/Prelude.thy ===== *)
theory Prelude
  imports Main "HOL-Library.Word" "HOL-Library.Finite_Map"
begin

text \<open>
  What every component shares: bytes and Go strings, the result type of a fallible Go
  function, signed 64-bit conversion, decimal printing, and the collections of facts the
  component proofs are run with.

  A Go \<open>[]byte\<close> is a \<open>byte list\<close>; a Go \<open>string\<close>, an immutable byte sequence, is an
  Isabelle \<open>string\<close>, whose characters are exactly the 256 byte values.  A call that
  returns \<open>(v, err)\<close> returns \<open>Inr v\<close> or \<open>Inl err\<close>; a run-time panic is an error value
  of its own.
\<close>

unbundle bit_operations_syntax

section \<open>Collections\<close>

named_theorems codec_simps \<open>laws of the byte codecs\<close>
named_theorems result_iff \<open>when a fallible operation returns Inr\<close>
named_theorems fs_simps \<open>effects of the file system operations\<close>

section \<open>Bytes and strings\<close>

type_synonym byte = "8 word"
type_synonym bytes = "byte list"
type_synonym i64 = "64 word"

definition bytes_of :: "string \<Rightarrow> bytes" where
  "bytes_of s = map (\<lambda>c. word_of_nat (of_char c)) s"

definition string_of :: "bytes \<Rightarrow> string" where
  "string_of b = map (\<lambda>x. char_of (unat x)) b"

lemma unat_byte_of_char [simp]: "unat (word_of_nat (of_char c) :: byte) = of_char c"
  by (simp add: unat_of_nat take_bit_eq_mod)

lemma byte_of_char_of [simp]: "word_of_nat (unat x mod 256) = (x :: byte)"
  using unsigned_less [of x, where ?'a = nat] by simp

lemma string_of_bytes_of [simp]: "string_of (bytes_of s) = s"
  by (simp add: string_of_def bytes_of_def comp_def)

lemma bytes_of_string_of [simp]: "bytes_of (string_of b) = b"
  by (simp add: string_of_def bytes_of_def comp_def)

lemma length_bytes_of [simp]: "length (bytes_of s) = length s"
  by (simp add: bytes_of_def)

lemma length_string_of [simp]: "length (string_of b) = length b"
  by (simp add: string_of_def)

lemma bytes_of_Nil_iff [simp]: "bytes_of s = [] \<longleftrightarrow> s = []"
  by (simp add: bytes_of_def)

lemma string_of_Nil_iff [simp]: "string_of b = [] \<longleftrightarrow> b = []"
  by (simp add: string_of_def)

lemma bytes_of_append [simp]: "bytes_of (s @ t) = bytes_of s @ bytes_of t"
  by (simp add: bytes_of_def)

lemma bytes_of_inject [simp]: "bytes_of s = bytes_of t \<longleftrightarrow> s = t"
  by (metis string_of_bytes_of)

section \<open>Integers\<close>

text \<open>
  \<open>int64(n)\<close> and \<open>int(n)\<close> on the supported 64-bit platforms: the value of the low 64
  bits read as two's complement.
\<close>

definition to_i64 :: "int \<Rightarrow> int" where
  "to_i64 n = sint (word_of_int n :: i64)"

lemma to_i64_id: "- (2 ^ 63) \<le> n \<Longrightarrow> n < 2 ^ 63 \<Longrightarrow> to_i64 n = n"
  by (simp add: to_i64_def sint_sbintrunc' signed_take_bit_int_eq_self)

section \<open>Decimal printing\<close>

text \<open>\<open>fmt.Sprintf\<close> with \<open>%d\<close> on a non-negative number: its decimal digits, no leading zero.\<close>

definition digit_char :: "nat \<Rightarrow> char" where
  "digit_char d = char_of (48 + d)"

fun itoa :: "nat \<Rightarrow> string" where
  "itoa n = (if n < 10 then [digit_char n] else itoa (n div 10) @ [digit_char (n mod 10)])"

declare itoa.simps [simp del]

lemma digit_char_inject: "d < 10 \<Longrightarrow> e < 10 \<Longrightarrow> digit_char d = digit_char e \<longleftrightarrow> d = e"
  by (simp add: digit_char_def char_of_eq_iff take_bit_nat_def)

lemma itoa_not_Nil [simp]: "itoa n \<noteq> []"
  by (subst itoa.simps) simp

lemma itoa_inject: "itoa m = itoa n \<Longrightarrow> m = n"
proof (induction m arbitrary: n rule: itoa.induct)
  case (1 m)
  show ?case
  proof (cases "m < 10")
    case True
    then have "itoa n = [digit_char m]"
      using "1.prems" by (simp add: itoa.simps [of m])
    then have "n < 10" and "digit_char n = digit_char m"
      by (auto simp: itoa.simps [of n] split: if_splits)
    with True show ?thesis
      by (simp add: digit_char_inject)
  next
    case False
    then have m: "itoa m = itoa (m div 10) @ [digit_char (m mod 10)]"
      by (subst itoa.simps) simp
    have n10: "\<not> n < 10"
    proof
      assume "n < 10"
      then have "itoa n = [digit_char n]"
        by (subst itoa.simps) simp
      with "1.prems" m show False by simp
    qed
    then have n: "itoa n = itoa (n div 10) @ [digit_char (n mod 10)]"
      by (subst itoa.simps) simp
    from "1.prems" m n have "itoa (m div 10) = itoa (n div 10)"
      and d: "digit_char (m mod 10) = digit_char (n mod 10)"
      by auto
    then have "m div 10 = n div 10"
      using "1.IH" [OF False] by blast
    moreover from d have "m mod 10 = n mod 10"
      by (simp add: digit_char_inject)
    ultimately show ?thesis
      by (metis mult_div_mod_eq)
  qed
qed

section \<open>Lists\<close>

lemma take_append_length [simp]: "length xs = n \<Longrightarrow> take n (xs @ ys) = xs"
  by simp

lemma drop_append_length [simp]: "length xs = n \<Longrightarrow> drop n (xs @ ys) = ys"
  by simp

end
