(* ===== verification/Wire.thy ===== *)
theory Wire
  imports Prelude
begin

text \<open>
  The fixed-width integers of the two binary formats: \<open>binary.BigEndian.PutUint32\<close>,
  \<open>Uint32\<close>, \<open>PutUint64\<close> and \<open>Uint64\<close> of Go's \<open>encoding/binary\<close>, as the message header
  and the mailbox payload use them.  Their contract is the locale \<open>fixed_width\<close>; the
  two widths are its interpretations.
\<close>

section \<open>Big-endian integers\<close>

definition put32 :: "32 word \<Rightarrow> bytes" where
  "put32 w = [ucast (drop_bit 24 w), ucast (drop_bit 16 w), ucast (drop_bit 8 w), ucast w]"

definition get32 :: "bytes \<Rightarrow> 32 word" where
  "get32 b = push_bit 24 (ucast (b ! 0)) OR push_bit 16 (ucast (b ! 1))
     OR push_bit 8 (ucast (b ! 2)) OR ucast (b ! 3)"

definition put64 :: "64 word \<Rightarrow> bytes" where
  "put64 w = put32 (ucast (drop_bit 32 w)) @ put32 (ucast w)"

definition get64 :: "bytes \<Rightarrow> 64 word" where
  "get64 b = push_bit 32 (ucast (get32 (take 4 b))) OR ucast (get32 (drop 4 b))"

lemma length_put32 [simp]: "length (put32 w) = 4"
  by (simp add: put32_def)

lemma length_put64 [simp]: "length (put64 w) = 8"
  by (simp add: put64_def)

lemma bit_byte_high [simp]: "8 \<le> n \<Longrightarrow> \<not> bit (b :: byte) n"
  using bit_imp_le_length [of b n] by auto

lemma bit_u32_high [simp]: "32 \<le> n \<Longrightarrow> \<not> bit (w :: 32 word) n"
  using bit_imp_le_length [of w n] by auto

lemma get32_put32: "get32 (put32 w) = w"
proof (rule bit_word_eqI)
  fix n assume "n < LENGTH(32)"
  then have "n < 8 \<or> (8 \<le> n \<and> n < 16) \<or> (16 \<le> n \<and> n < 24) \<or> (24 \<le> n \<and> n < 32)"
    by auto
  then show "bit (get32 (put32 w)) n \<longleftrightarrow> bit w n"
    by (elim disjE) (auto simp: get32_def put32_def bit_simps)
qed

lemma length4_cases: "length bs = 4 \<Longrightarrow> \<exists>a b c d. bs = [a, b, c, d]"
  by (auto simp: numeral_eq_Suc length_Suc_conv)

lemma put32_get32:
  assumes "length bs = 4"
  shows "put32 (get32 bs) = bs"
proof -
  obtain a b c d where "bs = [a, b, c, d]"
    using length4_cases [OF assms] by blast
  then show ?thesis
    by (auto simp: get32_def put32_def bit_simps intro!: bit_word_eqI)
qed

lemma get64_put64: "get64 (put64 w) = w"
proof (rule bit_word_eqI)
  fix n assume "n < LENGTH(64)"
  then show "bit (get64 (put64 w)) n \<longleftrightarrow> bit w n"
    by (cases "n < 32") (auto simp: get64_def put64_def get32_put32 bit_simps)
qed

lemma put64_get64:
  assumes "length bs = 8"
  shows "put64 (get64 bs) = bs"
proof -
  have hi: "(ucast (drop_bit 32 (get64 bs)) :: 32 word) = get32 (take 4 bs)"
    by (auto simp: get64_def bit_simps intro!: bit_word_eqI)
  have lo: "(ucast (get64 bs) :: 32 word) = get32 (drop 4 bs)"
    by (auto simp: get64_def bit_simps intro!: bit_word_eqI)
  from assms show ?thesis
    by (simp add: put64_def hi lo put32_get32)
qed

section \<open>The contract of a fixed-width field\<close>

locale fixed_width =
  fixes enc :: "'a \<Rightarrow> bytes" and dec :: "bytes \<Rightarrow> 'a" and width :: nat
  assumes length_enc: "length (enc x) = width"
    and dec_enc: "dec (enc x) = x"
    and enc_dec: "length bs = width \<Longrightarrow> enc (dec bs) = bs"
begin

lemma read_field: "dec (take width (enc x @ rest)) = x"
  by (simp add: length_enc dec_enc)

lemma skip_field: "drop width (enc x @ rest) = rest"
  by (simp add: length_enc)

lemma unread_field: "width \<le> length bs \<Longrightarrow> enc (dec (take width bs)) @ drop width bs = bs"
  by (simp add: enc_dec)

lemma enc_inject: "enc x @ r = enc y @ s \<longleftrightarrow> x = y \<and> r = s"
  by (metis read_field skip_field)

end

interpretation u32: fixed_width put32 get32 4
  by unfold_locales (simp_all add: get32_put32 put32_get32)

interpretation u64: fixed_width put64 get64 8
  by unfold_locales (simp_all add: get64_put64 put64_get64)

lemmas field_laws [codec_simps] =
  u32.read_field u32.skip_field u64.read_field u64.skip_field get32_put32 get64_put64

end
