(* ===== verification/Protocol.thy ===== *)
theory Protocol
  imports Wire
begin

text \<open>
  \<open>internal/transfer/protocol.go\<close>: the message frame exchanged by the two ends, one type
  byte, a big-endian 32-bit payload length and the payload, with its constructors.  JSON
  payloads (metadata, resume request) go through Go's \<open>encoding/json\<close>, which is a pair of
  functions given as arguments (\<open>marshal\<close>, \<open>unmarshal\<close>); marshalling may fail.
\<close>

section \<open>Data\<close>

definition MsgTypeMetadata :: byte where "MsgTypeMetadata = 0x01"
definition MsgTypeReady :: byte where "MsgTypeReady = 0x02"
definition MsgTypeComplete :: byte where "MsgTypeComplete = 0x03"
definition MsgTypeError :: byte where "MsgTypeError = 0x04"
definition MsgTypeChunk :: byte where "MsgTypeChunk = 0x10"
definition MsgTypeProgress :: byte where "MsgTypeProgress = 0x11"
definition MsgTypeVersion :: byte where "MsgTypeVersion = 0x20"
definition MsgTypeSDPOffer :: byte where "MsgTypeSDPOffer = 0x30"
definition MsgTypeSDPAnswer :: byte where "MsgTypeSDPAnswer = 0x31"
definition MsgTypeICECandidate :: byte where "MsgTypeICECandidate = 0x32"
definition MsgTypeP2PReady :: byte where "MsgTypeP2PReady = 0x33"
definition MsgTypeP2PFail :: byte where "MsgTypeP2PFail = 0x34"
definition MsgTypePeerJoin :: byte where "MsgTypePeerJoin = 0x35"
definition MsgTypeSessionEnd :: byte where "MsgTypeSessionEnd = 0x36"
definition MsgTypeResumeRequest :: byte where "MsgTypeResumeRequest = 0x37"

definition ProtocolVersion :: byte where "ProtocolVersion = 4"

lemmas msg_type_defs =
  MsgTypeMetadata_def MsgTypeReady_def MsgTypeComplete_def MsgTypeError_def MsgTypeChunk_def
  MsgTypeProgress_def MsgTypeVersion_def MsgTypeSDPOffer_def MsgTypeSDPAnswer_def
  MsgTypeICECandidate_def MsgTypeP2PReady_def MsgTypeP2PFail_def MsgTypePeerJoin_def
  MsgTypeSessionEnd_def MsgTypeResumeRequest_def

record metadata =
  md_filename :: string
  md_size :: int
  md_chunks :: int
  md_resume_offset :: int

record resume_request =
  rr_filename :: string
  rr_offset :: int
  rr_prefix_hash :: string

record message =
  mtype :: byte
  payload :: bytes

text \<open>
  The errors of \<open>DecodeMessage\<close>.  \<open>SlicePanic\<close> is not an error return: it is the run-time
  panic of the slice expression \<open>data[5 : 5+payloadLen]\<close> with an upper bound below 5.
\<close>

datatype decode_error = MessageTooShort | IncompleteMessage | SlicePanic

section \<open>Encoding and decoding\<close>

definition encode_message :: "message \<Rightarrow> bytes" where
  "encode_message m = mtype m # put32 (word_of_nat (length (payload m))) @ payload m"

text \<open>
  \<open>5+payloadLen\<close> is computed in \<open>uint32\<close>, so it wraps; \<open>int(...)\<close> then reads the wrapped
  value.
\<close>

definition decode_message :: "bytes \<Rightarrow> decode_error + message" where
  "decode_message data =
     (if length data < 5 then Inl MessageTooShort
      else let msgType = data ! 0;
               payloadLen = get32 (take 4 (drop 1 data));
               upper = unat (5 + payloadLen)
           in if length data < upper then Inl IncompleteMessage
              else if upper < 5 then Inl SlicePanic
              else Inr \<lparr>mtype = msgType, payload = take (upper - 5) (drop 5 data)\<rparr>)"

section \<open>Constructors\<close>

definition new_metadata_message_with_resume ::
  "(metadata \<Rightarrow> bytes option) \<Rightarrow> string \<Rightarrow> int \<Rightarrow> int \<Rightarrow> int \<Rightarrow> message option" where
  "new_metadata_message_with_resume marshal filename sz chunks resumeOffset =
     (let meta = \<lparr>md_filename = filename, md_size = sz, md_chunks = chunks,
                  md_resume_offset = resumeOffset\<rparr>
      in case marshal meta of None \<Rightarrow> None
         | Some p \<Rightarrow> Some \<lparr>mtype = MsgTypeMetadata, payload = p\<rparr>)"

definition new_metadata_message ::
  "(metadata \<Rightarrow> bytes option) \<Rightarrow> string \<Rightarrow> int \<Rightarrow> int \<Rightarrow> message option" where
  "new_metadata_message marshal filename sz chunks =
     new_metadata_message_with_resume marshal filename sz chunks 0"

definition new_chunk_message :: "bytes \<Rightarrow> message" where
  "new_chunk_message d = \<lparr>mtype = MsgTypeChunk, payload = d\<rparr>"

definition new_ready_message :: message where
  "new_ready_message = \<lparr>mtype = MsgTypeReady, payload = []\<rparr>"

definition new_complete_message :: message where
  "new_complete_message = \<lparr>mtype = MsgTypeComplete, payload = []\<rparr>"

definition new_error_message :: "string \<Rightarrow> message" where
  "new_error_message s = \<lparr>mtype = MsgTypeError, payload = bytes_of s\<rparr>"

definition new_version_message :: message where
  "new_version_message = \<lparr>mtype = MsgTypeVersion, payload = [ProtocolVersion]\<rparr>"

definition new_sdp_offer_message :: "string \<Rightarrow> message" where
  "new_sdp_offer_message sdp = \<lparr>mtype = MsgTypeSDPOffer, payload = bytes_of sdp\<rparr>"

definition new_sdp_answer_message :: "string \<Rightarrow> message" where
  "new_sdp_answer_message sdp = \<lparr>mtype = MsgTypeSDPAnswer, payload = bytes_of sdp\<rparr>"

definition new_ice_candidate_message :: "bytes \<Rightarrow> message" where
  "new_ice_candidate_message c = \<lparr>mtype = MsgTypeICECandidate, payload = c\<rparr>"

definition new_p2p_ready_message :: message where
  "new_p2p_ready_message = \<lparr>mtype = MsgTypeP2PReady, payload = []\<rparr>"

definition new_p2p_fail_message :: "string \<Rightarrow> message" where
  "new_p2p_fail_message reason = \<lparr>mtype = MsgTypeP2PFail, payload = bytes_of reason\<rparr>"

definition new_peer_join_message :: message where
  "new_peer_join_message = \<lparr>mtype = MsgTypePeerJoin, payload = [ProtocolVersion]\<rparr>"

definition new_session_end_message :: message where
  "new_session_end_message = \<lparr>mtype = MsgTypeSessionEnd, payload = []\<rparr>"

definition new_resume_request_message ::
  "(resume_request \<Rightarrow> bytes option) \<Rightarrow> string \<Rightarrow> int \<Rightarrow> string \<Rightarrow> message option" where
  "new_resume_request_message marshal filename offset prefixHash =
     (let req = \<lparr>rr_filename = filename, rr_offset = offset, rr_prefix_hash = prefixHash\<rparr>
      in case marshal req of None \<Rightarrow> None
         | Some p \<Rightarrow> Some \<lparr>mtype = MsgTypeResumeRequest, payload = p\<rparr>)"

definition parse_resume_request ::
  "(bytes \<Rightarrow> resume_request option) \<Rightarrow> bytes \<Rightarrow> resume_request option" where
  "parse_resume_request unmarshal p = unmarshal p"

definition parse_metadata :: "(bytes \<Rightarrow> metadata option) \<Rightarrow> bytes \<Rightarrow> metadata option" where
  "parse_metadata unmarshal p = unmarshal p"

lemmas message_constructors =
  new_chunk_message_def new_ready_message_def new_complete_message_def new_error_message_def
  new_version_message_def new_sdp_offer_message_def new_sdp_answer_message_def
  new_ice_candidate_message_def new_p2p_ready_message_def new_p2p_fail_message_def
  new_peer_join_message_def new_session_end_message_def

section \<open>Laws of the frame\<close>

definition frameable :: "message \<Rightarrow> bool" where
  "frameable m \<longleftrightarrow> length (payload m) + 5 < 2 ^ 32"

lemma length_encode_message [simp]: "length (encode_message m) = 5 + length (payload m)"
  by (simp add: encode_message_def)

lemma header_of_encode:
  "encode_message m ! 0 = mtype m"
  "get32 (take 4 (drop 1 (encode_message m @ rest))) = word_of_nat (length (payload m))"
  "drop 5 (encode_message m @ rest) = payload m @ rest"
proof -
  show "encode_message m ! 0 = mtype m"
    by (simp add: encode_message_def)
  show "get32 (take 4 (drop 1 (encode_message m @ rest))) = word_of_nat (length (payload m))"
    by (simp add: encode_message_def get32_put32)
  have "drop 5 (encode_message m @ rest) =
      drop 4 (put32 (word_of_nat (length (payload m))) @ payload m @ rest)"
    by (simp add: encode_message_def numeral_eq_Suc)
  then show "drop 5 (encode_message m @ rest) = payload m @ rest"
    by (simp only: u32.skip_field)
qed

lemma unat_upper:
  assumes "frameable m"
  shows "unat (5 + word_of_nat (length (payload m)) :: 32 word) = 5 + length (payload m)"
proof -
  have "5 + word_of_nat (length (payload m)) = (word_of_nat (5 + length (payload m)) :: 32 word)"
    by simp
  also have "unat \<dots> = 5 + length (payload m)"
    using assms by (simp only: frameable_def unat_of_nat) (simp add: take_bit_nat_eq_self)
  finally show ?thesis .
qed

lemma decode_encode_rest:
  assumes "frameable m"
  shows "decode_message (encode_message m @ rest) = Inr m"
proof -
  have "(encode_message m @ rest) ! 0 = mtype m"
    by (simp add: encode_message_def)
  then show ?thesis
    using unat_upper [OF assms] header_of_encode(2,3) [of m rest]
    by (simp add: decode_message_def Let_def)
qed

text \<open>A message whose length field overflows the \<open>uint32\<close> sum panics the decoder.\<close>

lemma decode_panic_iff:
  "decode_message data = Inl SlicePanic \<longleftrightarrow>
     5 \<le> length data \<and> 2 ^ 32 - 5 \<le> unat (get32 (take 4 (drop 1 data)))"
proof -
  let ?p = "get32 (take 4 (drop 1 data))"
  have b: "unat ?p < 2 ^ 32"
    using unsigned_less [of ?p, where ?'a = nat] by simp
  have s: "unat (5 + ?p) = (5 + unat ?p) mod 2 ^ 32"
    by (simp add: unat_word_ariths)
  have "unat (5 + ?p) < 5 \<longleftrightarrow> 2 ^ 32 - 5 \<le> unat ?p"
  proof (cases "2 ^ 32 - 5 \<le> unat ?p")
    case True
    with b have "(5 + unat ?p) mod 2 ^ 32 = unat ?p + 5 - 2 ^ 32"
      by (subst mod_if) simp
    with s b True show ?thesis by auto
  next
    case False
    then have "(5 + unat ?p) mod 2 ^ 32 = 5 + unat ?p" by simp
    with s False show ?thesis by simp
  qed
  then show ?thesis
    by (auto simp: decode_message_def Let_def)
qed

text \<open>What a successful decode read: the encoding of its result is a prefix of the input.\<close>

lemma decode_message_prefix:
  assumes "decode_message data = Inr m"
  shows "\<exists>rest. data = encode_message m @ rest" and "frameable m"
proof -
  let ?p = "get32 (take 4 (drop 1 data))" and ?u = "unat (5 + get32 (take 4 (drop 1 data)))"
  from assms have len: "5 \<le> length data" "?u \<le> length data" "5 \<le> ?u"
    and m: "m = \<lparr>mtype = data ! 0, payload = take (?u - 5) (drop 5 data)\<rparr>"
    by (auto simp: decode_message_def Let_def split: if_splits)
  have u32: "?u < 2 ^ 32"
    using unsigned_less [of "5 + ?p", where ?'a = nat] by simp
  have pl: "length (payload m) = ?u - 5"
    using len by (simp add: m)
  have "(word_of_nat (?u - 5) :: 32 word) = ?p"
    using len(3) by (simp add: of_nat_diff)
  then have "put32 (word_of_nat (length (payload m))) = take 4 (drop 1 data)"
    using len(1) by (simp add: pl u32.enc_dec)
  then have "encode_message m = data ! 0 # take 4 (drop 1 data) @ take (?u - 5) (drop 5 data)"
    by (simp add: encode_message_def m)
  also have "\<dots> = take ?u data"
  proof -
    have "take ?u data = take 1 data @ take 4 (drop 1 data) @ take (?u - 5) (drop 5 data)"
      using take_add [of 1 "?u - 1" data] take_add [of 4 "?u - 5" "drop 1 data"] len(3)
      by (simp add: add.commute)
    moreover have "take 1 data = [data ! 0]"
      using len(1) by (cases data) auto
    ultimately show ?thesis by simp
  qed
  finally have "data = encode_message m @ drop ?u data"
    by simp
  then show "\<exists>rest. data = encode_message m @ rest" ..
  from pl len(3) u32 show "frameable m"
    by (simp add: frameable_def)
qed

section \<open>The contract of a frame format\<close>

locale framing =
  fixes enc :: "'m \<Rightarrow> bytes" and dec :: "bytes \<Rightarrow> 'e + 'm" and ok :: "'m \<Rightarrow> bool"
  assumes dec_enc: "ok m \<Longrightarrow> dec (enc m) = Inr m"
begin

lemma enc_inj_ok: "ok m \<Longrightarrow> ok n \<Longrightarrow> enc m = enc n \<Longrightarrow> m = n"
  by (metis dec_enc sum.inject(2))

lemma dec_stream: "\<forall>m \<in> set ms. ok m \<Longrightarrow> map dec (map enc ms) = map Inr ms"
  by (induction ms) (simp_all add: dec_enc)

end

interpretation frame: framing encode_message decode_message frameable
proof unfold_locales
  fix m assume "frameable m"
  then show "decode_message (encode_message m) = Inr m"
    using decode_encode_rest [of m "[]"] by simp
qed

lemma frameable_small:
  assumes "length (payload m) \<le> 65536"
  shows "frameable m"
proof -
  from assms have "length (payload m) + 5 \<le> 65541" by simp
  also have "(65541 :: nat) < 2 ^ 32" by simp
  finally show ?thesis by (simp only: frameable_def)
qed

section \<open>Properties\<close>

text \<open>
  C13: \<open>DecodeMessage\<close> is the exact inverse of \<open>EncodeMessage\<close> on the wire: it returns a message
  if and only if the input starts with the encoding of that message, whose payload is short
  enough for the 32-bit length sum.  So every message survives a round trip, whatever bytes
  follow it, and no two inputs decode to the same message except by their trailing bytes.
\<close>

theorem decode_message_iff:
  "(decode_message data = Inr m) =
     ((\<exists>rest. data = encode_message m @ rest) \<and> length (payload m) + 5 < 2 ^ 32)"
  using decode_encode_rest decode_message_prefix by (auto simp only: frameable_def)

text \<open>
  C17: The failures of \<open>DecodeMessage\<close> on every input: too short is fewer than five bytes;
  incomplete is a length field that asks for more than there is; and the slice panic, which no
  caller recovers, is exactly a length field within five of \<open>2^32\<close>, whose sum wraps below
  the slice's lower bound.
\<close>

theorem decode_message_failures:
  "(decode_message data = Inl MessageTooShort) = (length data < 5) \<and>
   (decode_message data = Inl IncompleteMessage) =
     (5 \<le> length data \<and> unat (get32 (take 4 (drop 1 data))) < 2 ^ 32 - 5 \<and>
      length data < 5 + unat (get32 (take 4 (drop 1 data)))) \<and>
   (decode_message data = Inl SlicePanic) =
     (5 \<le> length data \<and> 2 ^ 32 - 5 \<le> unat (get32 (take 4 (drop 1 data))))"
proof -
  let ?p = "get32 (take 4 (drop 1 data))"
  have "(decode_message data = Inl IncompleteMessage) =
     (5 \<le> length data \<and> unat ?p < 2 ^ 32 - 5 \<and> length data < 5 + unat ?p)"
  proof (cases "unat ?p < 2 ^ 32 - 5")
    case True
    then show ?thesis
      by (simp add: decode_message_def Let_def unat_word_ariths)
  next
    case False
    then have "\<not> length data < 5 \<Longrightarrow> decode_message data = Inl SlicePanic"
      by (simp only: decode_panic_iff) simp
    with False show ?thesis
      by (cases "length data < 5") (simp_all add: decode_message_def)
  qed
  moreover have "(decode_message data = Inl MessageTooShort) = (length data < 5)"
    by (simp add: decode_message_def Let_def)
  ultimately show ?thesis
    using decode_panic_iff by blast
qed

end
