(* ===== verification/Crypto.thy ===== *)
theory Crypto
  imports Prelude
begin

text \<open>
  \<open>internal/crypto/crypto.go\<close>: NaCl secretbox with a random nonce in front.
  \<open>secretbox.Seal\<close> and \<open>secretbox.Open\<close> (golang.org/x/crypto) are the arguments
  \<open>seal\<close> and \<open>opn\<close>; what their documentation promises is \<open>secretbox_ok\<close>.  The random
  source is an argument too: \<open>Some b\<close> for the bytes \<open>io.ReadFull(rand.Reader, ...)\<close>
  filled in, \<open>None\<close> when it failed.
\<close>

section \<open>Definitions\<close>

definition KeySize :: nat where "KeySize = 32"
definition NonceSize :: nat where "NonceSize = 24"

datatype crypto_error = InvalidKeySize | RandFailed | CiphertextTooShort | DecryptionFailed

type_synonym sealer = "bytes \<Rightarrow> bytes \<Rightarrow> bytes \<Rightarrow> bytes"
type_synonym opener = "bytes \<Rightarrow> bytes \<Rightarrow> bytes \<Rightarrow> bytes option"

definition generate_key :: "bytes option \<Rightarrow> crypto_error + bytes" where
  "generate_key rnd = (case rnd of None \<Rightarrow> Inl RandFailed | Some k \<Rightarrow> Inr k)"

definition generate_nonce :: "bytes option \<Rightarrow> crypto_error + bytes" where
  "generate_nonce rnd = (case rnd of None \<Rightarrow> Inl RandFailed | Some n \<Rightarrow> Inr n)"

definition encrypt :: "sealer \<Rightarrow> bytes option \<Rightarrow> bytes \<Rightarrow> bytes \<Rightarrow> crypto_error + bytes" where
  "encrypt seal rnd plaintext key =
     (if length key \<noteq> KeySize then Inl InvalidKeySize
      else case generate_nonce rnd of
        Inl e \<Rightarrow> Inl e
      | Inr nonce \<Rightarrow> Inr (nonce @ seal plaintext nonce key))"

definition decrypt :: "opener \<Rightarrow> bytes \<Rightarrow> bytes \<Rightarrow> crypto_error + bytes" where
  "decrypt opn ciphertext key =
     (if length key \<noteq> KeySize then Inl InvalidKeySize
      else if length ciphertext < NonceSize then Inl CiphertextTooShort
      else case opn (drop NonceSize ciphertext) (take NonceSize ciphertext) key of
        None \<Rightarrow> Inl DecryptionFailed
      | Some plaintext \<Rightarrow> Inr plaintext)"

definition encrypt_chunk :: "sealer \<Rightarrow> bytes option \<Rightarrow> bytes \<Rightarrow> bytes \<Rightarrow> crypto_error + bytes" where
  "encrypt_chunk seal rnd chunk key = encrypt seal rnd chunk key"

definition decrypt_chunk :: "opener \<Rightarrow> bytes \<Rightarrow> bytes \<Rightarrow> crypto_error + bytes" where
  "decrypt_chunk opn encryptedChunk key = decrypt opn encryptedChunk key"

section \<open>What secretbox documents\<close>

text \<open>
  Opening a box with the nonce and the key it was sealed with gives the message back, and a
  box is 16 bytes (the Poly1305 tag) longer than its message.
\<close>

definition secretbox_ok :: "sealer \<Rightarrow> opener \<Rightarrow> bool" where
  "secretbox_ok seal opn \<longleftrightarrow>
     (\<forall>m n k. length n = NonceSize \<longrightarrow> length k = KeySize \<longrightarrow>
        opn (seal m n k) n k = Some m \<and> length (seal m n k) = length m + 16)"

text \<open>A concrete pair of functions with these laws, for the witnesses: the tag is the last
  16 bytes of the key, and the message is left as it is.\<close>

definition tag_seal :: sealer where
  "tag_seal m n k = m @ drop 16 k"

definition tag_open :: opener where
  "tag_open c n k =
     (if length c < 16 then None
      else if drop (length c - 16) c = drop 16 k then Some (take (length c - 16) c) else None)"

lemma secretbox_ok_tag: "secretbox_ok tag_seal tag_open"
  by (simp add: secretbox_ok_def tag_seal_def tag_open_def KeySize_def)

lemma secretbox_okD:
  assumes "secretbox_ok seal opn" and "length n = NonceSize" and "length k = KeySize"
  shows "opn (seal m n k) n k = Some m" and "length (seal m n k) = length m + 16"
  using assms by (simp_all add: secretbox_ok_def)

section \<open>Laws\<close>

lemma encrypt_Inr [result_iff]:
  "encrypt seal rnd p k = Inr c \<longleftrightarrow>
     length k = KeySize \<and> (\<exists>n. rnd = Some n \<and> c = n @ seal p n k)"
  by (auto simp: encrypt_def generate_nonce_def split: option.splits)

lemma decrypt_Inr [result_iff]:
  "decrypt opn c k = Inr p \<longleftrightarrow>
     length k = KeySize \<and> NonceSize \<le> length c \<and>
     opn (drop NonceSize c) (take NonceSize c) k = Some p"
  by (auto simp: decrypt_def split: option.splits)

lemma decrypt_encrypt:
  assumes "secretbox_ok seal opn" and "length n = NonceSize"
    and "encrypt seal (Some n) p k = Inr c"
  shows "decrypt opn c k = Inr p"
  using assms by (auto simp: result_iff secretbox_okD)

lemma length_encrypt:
  assumes "secretbox_ok seal opn" and "length n = NonceSize"
    and "encrypt seal (Some n) p k = Inr c"
  shows "length c = length p + 40"
  using assms by (auto simp: result_iff secretbox_okD NonceSize_def)

section \<open>Properties\<close>

text \<open>
  C14: What \<open>EncryptChunk\<close> returns for a key and a fresh 24-byte nonce, \<open>DecryptChunk\<close> with
  the same key turns back into the chunk, and it is 40 bytes longer (nonce and tag); a key of
  another size makes both fail, and a failing random source makes the encryption fail.
\<close>

theorem chunk_roundtrip:
  assumes "secretbox_ok seal opn" and "length n = NonceSize"
  shows "if length key = KeySize
     then (\<exists>c. encrypt_chunk seal (Some n) chunk key = Inr c \<and> length c = length chunk + 40 \<and>
             decrypt_chunk opn c key = Inr chunk) \<and>
          encrypt_chunk seal None chunk key = Inl RandFailed
     else encrypt_chunk seal (Some n) chunk key = Inl InvalidKeySize \<and>
          encrypt_chunk seal None chunk key = Inl InvalidKeySize \<and>
          decrypt_chunk opn c' key = Inl InvalidKeySize"
proof (cases "length key = KeySize")
  case True
  then obtain c where c: "encrypt seal (Some n) chunk key = Inr c"
    by (auto simp: encrypt_def generate_nonce_def)
  with decrypt_encrypt [OF assms this] length_encrypt [OF assms this] True show ?thesis
    by (simp add: encrypt_chunk_def decrypt_chunk_def) (simp add: encrypt_def generate_nonce_def)
next
  case False
  then show ?thesis
    by (simp add: encrypt_chunk_def decrypt_chunk_def encrypt_def decrypt_def)
qed

theorem chunk_roundtrip_witness:
  "let key = replicate 32 7; n = replicate 24 9; c = n @ [1, 2, 3] @ replicate 16 7 in
   encrypt_chunk tag_seal (Some n) [1, 2, 3] key = Inr c \<and>
   decrypt_chunk tag_open c key = Inr [1, 2, 3]"
proof -
  let ?key = "replicate 32 7 :: bytes" and ?n = "replicate 24 9 :: bytes"
  have "\<exists>c. encrypt_chunk tag_seal (Some ?n) [1, 2, 3] ?key = Inr c \<and> length c = 43 \<and>
          decrypt_chunk tag_open c ?key = Inr [1, 2, 3]"
    using chunk_roundtrip [OF secretbox_ok_tag, of ?n ?key "[1, 2, 3]" "[]"]
    by (simp add: NonceSize_def KeySize_def)
  then show ?thesis
    by (auto simp: Let_def encrypt_chunk_def result_iff tag_seal_def)
qed

end
