(* ===== verification/Link.thy ===== *)
theory Link
  imports Protocol Crypto
begin

text \<open>
  One end of an encrypted connection: \<open>writeSignalMsg\<close>, \<open>readSignalMsg\<close>
  (\<open>internal/transfer/signaling.go\<close>), \<open>Sender.writeEncrypted\<close> and the two message readers
  of the receiver.  Code outside the repository is the record \<open>libs\<close>: secretbox, the JSON
  codecs and gorilla's two predicates on close errors.  A link draws its nonces and the
  fate of each write from two sequences; the frames that got through are \<open>lk_sent\<close>.
\<close>

section \<open>Definitions\<close>

datatype read_error =
    ReadEOF
  | CloseError nat
  | NetClosed
  | ReadTimeout
  | P2PReadTimeout
  | NetError
  | DecryptErr crypto_error
  | DecodeErr decode_error

record libs =
  lib_seal :: sealer
  lib_open :: opener
  lib_marshal_meta :: "metadata \<Rightarrow> bytes option"
  lib_unmarshal_meta :: "bytes \<Rightarrow> metadata option"
  lib_marshal_resume :: "resume_request \<Rightarrow> bytes option"
  lib_unmarshal_resume :: "bytes \<Rightarrow> resume_request option"
  lib_unexpected_close :: "read_error \<Rightarrow> nat list \<Rightarrow> bool"
  lib_close_error :: "read_error \<Rightarrow> nat list \<Rightarrow> bool"

record link =
  lk_rand :: "nat \<Rightarrow> bytes option"
  lk_drawn :: nat
  lk_up :: "nat \<Rightarrow> bool"
  lk_tries :: nat
  lk_sent :: "bytes list"

datatype send_error = SendCrypto crypto_error | LinkDown

definition link_write :: "bytes \<Rightarrow> link \<Rightarrow> (send_error + unit) \<times> link" where
  "link_write d l =
     (let l1 = l\<lparr>lk_tries := Suc (lk_tries l)\<rparr>
      in if lk_up l (lk_tries l) then (Inr (), l1\<lparr>lk_sent := lk_sent l @ [d]\<rparr>)
         else (Inl LinkDown, l1))"

definition write_signal_msg :: "libs \<Rightarrow> bytes \<Rightarrow> message \<Rightarrow> link \<Rightarrow> (send_error + unit) \<times> link" where
  "write_signal_msg L key msg l =
     (let rnd = lk_rand l (lk_drawn l);
          l1 = l\<lparr>lk_drawn := Suc (lk_drawn l)\<rparr>
      in case encrypt_chunk (lib_seal L) rnd (encode_message msg) key of
           Inl e \<Rightarrow> (Inl (SendCrypto e), l1)
         | Inr encrypted \<Rightarrow> link_write encrypted l1)"

text \<open>The same on the wire the sender negotiated: the peer's data channel or the WebSocket.\<close>

definition write_encrypted :: "libs \<Rightarrow> bytes \<Rightarrow> message \<Rightarrow> link \<Rightarrow> (send_error + unit) \<times> link" where
  "write_encrypted L key msg l =
     (let rnd = lk_rand l (lk_drawn l);
          l1 = l\<lparr>lk_drawn := Suc (lk_drawn l)\<rparr>
      in case encrypt_chunk (lib_seal L) rnd (encode_message msg) key of
           Inl e \<Rightarrow> (Inl (SendCrypto e), l1)
         | Inr enc \<Rightarrow> link_write enc l1)"

text \<open>What arrives on a connection: a binary frame, or a read error.\<close>

datatype incoming = Frame bytes | Fail read_error

definition read_signal_msg :: "libs \<Rightarrow> bytes \<Rightarrow> incoming \<Rightarrow> read_error + message" where
  "read_signal_msg L key i =
     (case i of
        Fail e \<Rightarrow> Inl e
      | Frame raw \<Rightarrow>
          (case decrypt_chunk (lib_open L) raw key of
             Inl e \<Rightarrow> Inl (DecryptErr e)
           | Inr decrypted \<Rightarrow>
               (case decode_message decrypted of Inl e \<Rightarrow> Inl (DecodeErr e) | Inr m \<Rightarrow> Inr m)))"

text \<open>
  The readers, as the sequence of results they return; when nothing more arrives the read
  ends with the reader's own time-out.
\<close>

type_synonym reads = "(read_error + message) list"

definition ws_reader :: "libs \<Rightarrow> bytes \<Rightarrow> incoming list \<Rightarrow> reads" where
  "ws_reader L key ins = map (read_signal_msg L key) ins @ [Inl ReadTimeout]"

definition peer_reader :: "libs \<Rightarrow> bytes \<Rightarrow> bytes list \<Rightarrow> bool \<Rightarrow> reads" where
  "peer_reader L key datas closed =
     map (\<lambda>d. read_signal_msg L key (Frame d)) datas @
     [if closed then Inl ReadEOF else Inl P2PReadTimeout]"

definition is_session_end_read_err :: "libs \<Rightarrow> read_error \<Rightarrow> bool" where
  "is_session_end_read_err L e =
     (if e = ReadEOF then True
      else if lib_unexpected_close L e [1000, 1001, 1006] then True
      else if lib_close_error L e [1000, 1001, 1005, 1006] then True
      else if e = NetClosed then True
      else False)"

section \<open>Laws\<close>

text \<open>gorilla's predicates, as documented: the error is a close frame's, and its code is
  not, or is, one of the listed ones.\<close>

definition close_predicates_ok :: "libs \<Rightarrow> bool" where
  "close_predicates_ok L \<longleftrightarrow>
     (\<forall>e cs. lib_unexpected_close L e cs = (case e of CloseError c \<Rightarrow> c \<notin> set cs | _ \<Rightarrow> False)) \<and>
     (\<forall>e cs. lib_close_error L e cs = (case e of CloseError c \<Rightarrow> c \<in> set cs | _ \<Rightarrow> False))"

definition nonces_ok :: "link \<Rightarrow> bool" where
  "nonces_ok l \<longleftrightarrow> (\<forall>i. \<exists>n. lk_rand l i = Some n \<and> length n = NonceSize)"

definition link_up :: "link \<Rightarrow> bool" where
  "link_up l \<longleftrightarrow> nonces_ok l \<and> (\<forall>i. lk_up l i)"

text \<open>\<open>opens_to\<close>: the frames that a link carried, read back as these messages.\<close>

definition opens_to :: "libs \<Rightarrow> bytes \<Rightarrow> bytes list \<Rightarrow> message list \<Rightarrow> bool" where
  "opens_to L key frames ms \<longleftrightarrow> map (\<lambda>d. read_signal_msg L key (Frame d)) frames = map Inr ms"

lemma opens_to_append:
  "opens_to L key f1 m1 \<Longrightarrow> opens_to L key f2 m2 \<Longrightarrow> opens_to L key (f1 @ f2) (m1 @ m2)"
  by (simp add: opens_to_def)

lemma write_signal_msg_eq: "write_signal_msg = write_encrypted"
  by (intro ext) (simp add: write_signal_msg_def write_encrypted_def)

lemma read_written:
  assumes "secretbox_ok (lib_seal L) (lib_open L)" and "length n = NonceSize"
    and "encrypt_chunk (lib_seal L) (Some n) (encode_message m) key = Inr d" and "frameable m"
  shows "read_signal_msg L key (Frame d) = Inr m"
proof -
  have "decrypt (lib_open L) d key = Inr (encode_message m)"
    using decrypt_encrypt [OF assms(1,2)] assms(3) by (simp add: encrypt_chunk_def)
  then show ?thesis
    using frame.dec_enc [OF assms(4)] by (simp add: read_signal_msg_def decrypt_chunk_def)
qed

text \<open>A write that returns no error put exactly one frame on the wire, which opens to the
  message; a write that fails put none.\<close>

lemma write_encrypted_Inr:
  assumes "write_encrypted L key m l = (Inr (), l')"
    and "secretbox_ok (lib_seal L) (lib_open L)" and "nonces_ok l" and "frameable m"
  shows "\<exists>d. lk_sent l' = lk_sent l @ [d] \<and> opens_to L key [d] [m]"
proof -
  obtain n where n: "lk_rand l (lk_drawn l) = Some n" "length n = NonceSize"
    using assms(3) by (auto simp: nonces_ok_def)
  from assms(1) n(1) obtain d where
      "encrypt_chunk (lib_seal L) (Some n) (encode_message m) key = Inr d"
    and "lk_sent l' = lk_sent l @ [d]"
    by (auto simp: write_encrypted_def link_write_def Let_def split: sum.splits if_splits)
  with read_written [OF assms(2) n(2) _ assms(4)] show ?thesis
    by (auto simp: opens_to_def)
qed

lemma write_encrypted_frame:
  assumes "write_encrypted L key m l = (r, l')"
  shows "lk_rand l' = lk_rand l" and "lk_up l' = lk_up l"
    and "r \<noteq> Inr () \<Longrightarrow> lk_sent l' = lk_sent l"
  using assms
  by (auto simp: write_encrypted_def link_write_def Let_def split: sum.splits if_splits)

lemma write_encrypted_up:
  assumes "link_up l" and "length key = KeySize"
  shows "\<exists>l'. write_encrypted L key m l = (Inr (), l') \<and> link_up l'"
proof -
  obtain n where n: "lk_rand l (lk_drawn l) = Some n" and "lk_up l (lk_tries l)"
    using assms(1) by (auto simp: nonces_ok_def link_up_def)
  then show ?thesis
    using assms
    by (auto simp: write_encrypted_def link_write_def Let_def encrypt_chunk_def encrypt_def
        generate_nonce_def link_up_def nonces_ok_def)
qed

lemma session_end_iff:
  assumes "close_predicates_ok L"
  shows "is_session_end_read_err L e \<longleftrightarrow> e = ReadEOF \<or> e = NetClosed \<or> (\<exists>c. e = CloseError c)"
  using assms by (cases e) (auto simp: is_session_end_read_err_def close_predicates_ok_def)

section \<open>Sample parameters for the witnesses\<close>

definition sample_libs :: "(metadata \<Rightarrow> bytes option) \<Rightarrow> (bytes \<Rightarrow> metadata option) \<Rightarrow> libs" where
  "sample_libs mar unm =
     \<lparr>lib_seal = tag_seal, lib_open = tag_open, lib_marshal_meta = mar, lib_unmarshal_meta = unm,
      lib_marshal_resume = (\<lambda>_. Some []), lib_unmarshal_resume = (\<lambda>_. None),
      lib_unexpected_close = (\<lambda>e cs. case e of CloseError c \<Rightarrow> c \<notin> set cs | _ \<Rightarrow> False),
      lib_close_error = (\<lambda>e cs. case e of CloseError c \<Rightarrow> c \<in> set cs | _ \<Rightarrow> False)\<rparr>"

definition sample_link :: link where
  "sample_link =
     \<lparr>lk_rand = (\<lambda>_. Some (replicate 24 9)), lk_drawn = 0, lk_up = (\<lambda>_. True), lk_tries = 0,
      lk_sent = []\<rparr>"

definition sample_key :: bytes where "sample_key = replicate 32 7"

lemma sample_link_up [simp]: "link_up sample_link"
  by (simp add: link_up_def nonces_ok_def sample_link_def NonceSize_def)

lemma sample_key_size [simp]: "length sample_key = KeySize"
  by (simp add: sample_key_def KeySize_def)

lemma sample_libs_ok [simp]: "secretbox_ok (lib_seal (sample_libs a b)) (lib_open (sample_libs a b))"
    "close_predicates_ok (sample_libs a b)"
    "lib_marshal_meta (sample_libs a b) = a" "lib_unmarshal_meta (sample_libs a b) = b"
  by (simp_all add: sample_libs_def secretbox_ok_tag close_predicates_ok_def)

lemma sample_write: "\<exists>l. write_signal_msg L sample_key m sample_link = (Inr (), l)"
  using write_encrypted_up [OF sample_link_up sample_key_size, of L m]
  by (auto simp: write_signal_msg_eq)

end
