(* ===== verification/GoPath.thy ===== *)
theory GoPath
  imports Prelude
begin

text \<open>
  What the program uses of Go's \<open>path/filepath\<close> on Unix: \<open>Base\<close>, \<open>Clean\<close>, \<open>Join\<close> of
  two elements and \<open>Ext\<close>, after their documentation: a path is the list of its elements
  between slashes, \<open>Clean\<close> drops empty and \<open>.\<close> elements and resolves inner \<open>..\<close>.
\<close>

section \<open>Definitions\<close>

type_synonym path = string

definition sep :: char where "sep = CHR ''/''"

fun split_sep :: "string \<Rightarrow> string list" where
  "split_sep [] = [[]]"
| "split_sep (c # cs) =
     (if c = CHR ''/'' then [] # split_sep cs
      else case split_sep cs of [] \<Rightarrow> [[c]] | e # es \<Rightarrow> (c # e) # es)"

fun join_sep :: "string list \<Rightarrow> string" where
  "join_sep [] = []"
| "join_sep [e] = e"
| "join_sep (e # es) = e @ CHR ''/'' # join_sep es"

text \<open>One element of the path against the elements kept so far, last one first.\<close>

definition clean_step :: "bool \<Rightarrow> string list \<Rightarrow> string \<Rightarrow> string list" where
  "clean_step rooted out e =
     (if e = [] \<or> e = ''.'' then out
      else if e = ''..'' then
        (case out of
           [] \<Rightarrow> if rooted then [] else [''..'']
         | t # ts \<Rightarrow> if t = ''..'' then ''..'' # out else ts)
      else e # out)"

definition clean_elems :: "bool \<Rightarrow> string list \<Rightarrow> string list" where
  "clean_elems rooted es = rev (foldl (clean_step rooted) [] es)"

definition rooted :: "path \<Rightarrow> bool" where
  "rooted p \<longleftrightarrow> (case p of [] \<Rightarrow> False | c # _ \<Rightarrow> c = CHR ''/'')"

definition render :: "bool \<Rightarrow> string list \<Rightarrow> path" where
  "render r es = (if r then CHR ''/'' # join_sep es else if es = [] then ''.'' else join_sep es)"

definition clean :: "path \<Rightarrow> path" where
  "clean p = render (rooted p) (clean_elems (rooted p) (split_sep p))"

definition join :: "path \<Rightarrow> path \<Rightarrow> path" where
  "join a b = (if a \<noteq> [] then clean (a @ CHR ''/'' # b) else if b \<noteq> [] then clean b else [])"

definition base_name :: "path \<Rightarrow> string" where
  "base_name p =
     (if p = [] then ''.''
      else let q = rev (dropWhile (\<lambda>c. c = CHR ''/'') (rev p))
           in if q = [] then ''/'' else last (split_sep q))"

definition ext :: "path \<Rightarrow> string" where
  "ext p =
     (let s = takeWhile (\<lambda>c. c \<noteq> CHR ''/'' \<and> c \<noteq> CHR ''.'') (rev p)
      in case drop (length s) (rev p) of
           [] \<Rightarrow> []
         | c # _ \<Rightarrow> if c = CHR ''.'' then CHR ''.'' # rev s else [])"

section \<open>Elements\<close>

lemma split_sep_not_Nil [simp]: "split_sep s \<noteq> []"
  by (induction s) (auto split: list.splits)

lemma split_sep_plain: "CHR ''/'' \<notin> set s \<Longrightarrow> split_sep s = [s]"
  by (induction s) auto

lemma split_sep_append:
  "split_sep (a @ CHR ''/'' # b) = split_sep a @ split_sep b"
  by (induction a) (auto split: list.splits)

lemma join_sep_snoc: "es \<noteq> [] \<Longrightarrow> join_sep (es @ [e]) = join_sep es @ CHR ''/'' # e"
  by (induction es rule: join_sep.induct) auto

definition plain_name :: "string \<Rightarrow> bool" where
  "plain_name n \<longleftrightarrow> n \<noteq> [] \<and> n \<noteq> ''.'' \<and> n \<noteq> ''..'' \<and> CHR ''/'' \<notin> set n"

lemma clean_elems_snoc:
  "plain_name n \<Longrightarrow> clean_elems r (es @ [n]) = clean_elems r es @ [n]"
  by (simp add: clean_elems_def clean_step_def plain_name_def)

lemma rooted_append: "a \<noteq> [] \<Longrightarrow> rooted (a @ b) = rooted a"
  by (cases a) (auto simp: rooted_def)

lemma clean_plain: "plain_name n \<Longrightarrow> clean n = n"
  by (cases n) (auto simp: clean_def split_sep_plain rooted_def render_def
      clean_elems_def clean_step_def plain_name_def)

definition proper_elem :: "string \<Rightarrow> bool" where
  "proper_elem e \<longleftrightarrow> e \<noteq> [] \<and> e \<noteq> ''.'' \<and> CHR ''/'' \<notin> set e"

lemma split_sep_no_sep: "e \<in> set (split_sep s) \<Longrightarrow> CHR ''/'' \<notin> set e"
  by (induction s arbitrary: e) (auto split: list.splits if_splits)

lemma clean_step_proper:
  "list_all proper_elem out \<Longrightarrow> CHR ''/'' \<notin> set e \<Longrightarrow> list_all proper_elem (clean_step r out e)"
  by (auto simp: clean_step_def proper_elem_def split: list.splits)

lemma clean_fold_proper:
  "list_all proper_elem out \<Longrightarrow> \<forall>e \<in> set es. CHR ''/'' \<notin> set e \<Longrightarrow>
     list_all proper_elem (foldl (clean_step r) out es)"
  by (induction es arbitrary: out) (simp_all add: clean_step_proper)

lemma clean_elems_proper: "\<forall>e \<in> set (clean_elems r (split_sep p)). proper_elem e"
  using clean_fold_proper [of "[]" "split_sep p" r] split_sep_no_sep
  by (simp add: clean_elems_def list_all_iff)

lemma join_sep_proper:
  assumes "es \<noteq> []" and "\<forall>e \<in> set es. proper_elem e"
  shows "join_sep es \<noteq> ''.'' \<and> join_sep es \<noteq> ''/'' \<and> join_sep es \<noteq> []"
proof -
  obtain e fs where es: "es = e # fs"
    using assms(1) by (cases es) auto
  then have e: "e \<noteq> []" "e \<noteq> ''.''" "e \<noteq> ''/''"
    using assms(2) by (auto simp: proper_elem_def)
  show ?thesis
  proof (cases fs)
    case Nil
    with e es show ?thesis by simp
  next
    case (Cons f gs)
    then have "join_sep es = e @ CHR ''/'' # join_sep fs"
      by (simp add: es)
    then have "length (join_sep es) \<ge> 2"
      using e(1) by (cases e) auto
    then show ?thesis by auto
  qed
qed

text \<open>A plain name joined to a directory is that entry of the cleaned directory.\<close>

lemma join_plain:
  assumes "plain_name n" and "d \<noteq> []"
  shows "join d n =
     (if clean d = ''.'' then n
      else if clean d = ''/'' then CHR ''/'' # n
      else clean d @ CHR ''/'' # n)"
proof -
  let ?es = "clean_elems (rooted d) (split_sep d)"
  have n: "split_sep n = [n]" "n \<noteq> []"
    using assms(1) by (auto simp: plain_name_def split_sep_plain)
  then have j: "join d n = render (rooted d) (?es @ [n])"
    using assms by (simp add: join_def clean_def split_sep_append rooted_append clean_elems_snoc)
  have c: "clean d = render (rooted d) ?es"
    by (simp add: clean_def)
  have hd_es: "join_sep ?es \<noteq> ''.'' \<and> join_sep ?es \<noteq> ''/'' \<and> join_sep ?es \<noteq> []" if "?es \<noteq> []"
    using that by (rule join_sep_proper) (rule clean_elems_proper)
  show ?thesis
    using j c hd_es
    by (cases "?es = []"; cases "rooted d") (auto simp: render_def join_sep_snoc)
qed

lemma join_empty_dir: "plain_name n \<Longrightarrow> join [] n = n"
  by (auto simp: join_def clean_plain plain_name_def)

lemma base_name_snoc:
  assumes "plain_name n"
  shows "base_name (d @ CHR ''/'' # n) = n" and "base_name n = n"
proof -
  have l: "rev n \<noteq> []" "hd (rev n) \<noteq> CHR ''/''"
    using assms by (auto simp: plain_name_def hd_rev) (metis last_in_set)
  have dw: "dropWhile (\<lambda>c. c = CHR ''/'') (rev n @ xs) = rev n @ xs" for xs
    using l by (cases "rev n") auto
  have n: "n \<noteq> []" "split_sep n = [n]"
    using assms by (auto simp: plain_name_def split_sep_plain)
  show "base_name (d @ CHR ''/'' # n) = n"
    using dw [of "CHR ''/'' # rev d"] n
    by (simp add: base_name_def Let_def split_sep_append)
  show "base_name n = n"
    using dw [of "[]"] n by (simp add: base_name_def Let_def)
qed

lemma base_name_join: "plain_name n \<Longrightarrow> base_name (join d n) = n"
proof (cases "d = []")
  case False
  assume n: "plain_name n"
  show ?thesis
    using base_name_snoc [OF n] base_name_snoc(1) [OF n, of "[]"]
    by (simp add: join_plain [OF n False])
qed (simp add: join_empty_dir base_name_snoc)

lemma ext_suffix: "\<exists>b. p = b @ ext p"
proof -
  let ?s = "takeWhile (\<lambda>c. c \<noteq> CHR ''/'' \<and> c \<noteq> CHR ''.'') (rev p)"
  have "rev p = ?s @ drop (length ?s) (rev p)"
    by (simp add: dropWhile_eq_drop [symmetric])
  then have p: "p = rev (drop (length ?s) (rev p)) @ rev ?s"
    by (metis rev_append rev_rev_ident)
  show ?thesis
  proof (cases "drop (length ?s) (rev p)")
    case Nil
    then show ?thesis by (auto simp: ext_def Let_def)
  next
    case (Cons c cs)
    with p have "p = rev cs @ [c] @ rev ?s" by simp
    with Cons show ?thesis by (auto simp: ext_def Let_def)
  qed
qed

lemma ext_no_sep: "CHR ''/'' \<notin> set (ext p)"
  by (auto simp: ext_def Let_def split: list.splits if_splits dest: set_takeWhileD)

end
