(* ===== verification/FileSys.thy ===== *)
theory FileSys
  imports GoPath
begin

text \<open>
  The operating system calls of package \<open>os\<close> that the program makes, on a state of regular
  files and directories.  A call that can fail takes its outcome from a script of faults,
  one entry per call: \<open>None\<close> is no fault, \<open>Some n\<close> is an I/O error (permissions, a full
  disk, a missing parent directory), for a write after \<open>n\<close> bytes were written.  The empty
  script has no faults.  \<open>os.Stat\<close> answers from the state.
\<close>

section \<open>Definitions\<close>

record filesys =
  fs_files :: "(path, bytes) fmap"
  fs_dirs :: "path fset"
  fs_faults :: "nat option list"

datatype os_error = NotExist | IsDirectory | IOError

definition next_fault :: "filesys \<Rightarrow> nat option \<times> filesys" where
  "next_fault fs =
     (case fs_faults fs of [] \<Rightarrow> (None, fs) | f # rest \<Rightarrow> (f, fs\<lparr>fs_faults := rest\<rparr>))"

definition fs_exists :: "filesys \<Rightarrow> path \<Rightarrow> bool" where
  "fs_exists fs p \<longleftrightarrow> p |\<in>| fmdom (fs_files fs) \<or> p |\<in>| fs_dirs fs"

definition os_create :: "path \<Rightarrow> filesys \<Rightarrow> (os_error + unit) \<times> filesys" where
  "os_create p fs0 =
     (case next_fault fs0 of
        (Some _, fs) \<Rightarrow> (Inl IOError, fs)
      | (None, fs) \<Rightarrow>
          if p |\<in>| fs_dirs fs then (Inl IsDirectory, fs)
          else (Inr (), fs\<lparr>fs_files := fmupd p [] (fs_files fs)\<rparr>))"

text \<open>\<open>os.OpenFile\<close> with \<open>O_WRONLY|O_APPEND\<close>: the file has to be there.\<close>

definition os_open_append :: "path \<Rightarrow> filesys \<Rightarrow> (os_error + unit) \<times> filesys" where
  "os_open_append p fs0 =
     (case next_fault fs0 of
        (Some _, fs) \<Rightarrow> (Inl IOError, fs)
      | (None, fs) \<Rightarrow>
          if p |\<in>| fs_dirs fs then (Inl IsDirectory, fs)
          else case fmlookup (fs_files fs) p of
            None \<Rightarrow> (Inl NotExist, fs)
          | Some _ \<Rightarrow> (Inr (), fs))"

text \<open>A write at the end of the open file \<open>p\<close>; it returns the bytes written and the error.\<close>

definition os_append :: "path \<Rightarrow> bytes \<Rightarrow> filesys \<Rightarrow> (int \<times> os_error option) \<times> filesys" where
  "os_append p d fs0 =
     (let put = (\<lambda>b fs. case fmlookup (fs_files fs) p of
                   None \<Rightarrow> fs
                 | Some old \<Rightarrow> fs\<lparr>fs_files := fmupd p (old @ b) (fs_files fs)\<rparr>)
      in case next_fault fs0 of
           (Some n, fs) \<Rightarrow> ((int (length (take n d)), Some IOError), put (take n d) fs)
         | (None, fs) \<Rightarrow> ((int (length d), None), put d fs))"

definition os_remove :: "path \<Rightarrow> filesys \<Rightarrow> (os_error + unit) \<times> filesys" where
  "os_remove p fs0 =
     (case next_fault fs0 of
        (Some _, fs) \<Rightarrow> (Inl IOError, fs)
      | (None, fs) \<Rightarrow>
          if p |\<in>| fmdom (fs_files fs) then (Inr (), fs\<lparr>fs_files := fmdrop p (fs_files fs)\<rparr>)
          else (Inl (if p |\<in>| fs_dirs fs then IsDirectory else NotExist), fs))"

definition os_rename :: "path \<Rightarrow> path \<Rightarrow> filesys \<Rightarrow> (os_error + unit) \<times> filesys" where
  "os_rename a b fs0 =
     (case next_fault fs0 of
        (Some _, fs) \<Rightarrow> (Inl IOError, fs)
      | (None, fs) \<Rightarrow>
          case (if a = [] then None else fmlookup (fs_files fs) a) of
            None \<Rightarrow> (Inl NotExist, fs)
          | Some c \<Rightarrow>
              if b |\<in>| fs_dirs fs then (Inl IsDirectory, fs)
              else (Inr (), fs\<lparr>fs_files := fmupd b c (fmdrop a (fs_files fs))\<rparr>))"

definition os_truncate :: "path \<Rightarrow> int \<Rightarrow> filesys \<Rightarrow> (os_error + unit) \<times> filesys" where
  "os_truncate p n fs0 =
     (case next_fault fs0 of
        (Some _, fs) \<Rightarrow> (Inl IOError, fs)
      | (None, fs) \<Rightarrow>
          case fmlookup (fs_files fs) p of
            None \<Rightarrow> (Inl NotExist, fs)
          | Some c \<Rightarrow>
              (Inr (), fs\<lparr>fs_files := fmupd p
                  (take (nat n) c @ replicate (nat n - length c) 0) (fs_files fs)\<rparr>))"

definition os_read_file :: "path \<Rightarrow> filesys \<Rightarrow> (os_error + bytes) \<times> filesys" where
  "os_read_file p fs0 =
     (case next_fault fs0 of
        (Some _, fs) \<Rightarrow> (Inl IOError, fs)
      | (None, fs) \<Rightarrow>
          case fmlookup (fs_files fs) p of
            None \<Rightarrow> (Inl (if p |\<in>| fs_dirs fs then IsDirectory else NotExist), fs)
          | Some c \<Rightarrow> (Inr c, fs))"

text \<open>
  \<open>os.Open\<close> for reading: the content of a file, or \<open>None\<close> for a directory, which can be
  opened but not read; and \<open>Stat\<close> of what is open, where the size of a directory is up to the
  operating system (\<open>ds\<close>).
\<close>

definition os_open :: "path \<Rightarrow> filesys \<Rightarrow> (os_error + bytes option) \<times> filesys" where
  "os_open p fs0 =
     (case next_fault fs0 of
        (Some _, fs) \<Rightarrow> (Inl IOError, fs)
      | (None, fs) \<Rightarrow>
          case fmlookup (fs_files fs) p of
            Some c \<Rightarrow> (Inr (Some c), fs)
          | None \<Rightarrow> if p |\<in>| fs_dirs fs then (Inr None, fs) else (Inl NotExist, fs))"

definition os_stat_size :: "int \<Rightarrow> bytes option \<Rightarrow> filesys \<Rightarrow> (os_error + int) \<times> filesys" where
  "os_stat_size ds src fs0 =
     (case next_fault fs0 of
        (Some _, fs) \<Rightarrow> (Inl IOError, fs)
      | (None, fs) \<Rightarrow> (Inr (case src of None \<Rightarrow> ds | Some c \<Rightarrow> int (length c)), fs))"

definition os_seek :: "filesys \<Rightarrow> (os_error + unit) \<times> filesys" where
  "os_seek fs0 =
     (case next_fault fs0 of (Some _, fs) \<Rightarrow> (Inl IOError, fs) | (None, fs) \<Rightarrow> (Inr (), fs))"

text \<open>
  One \<open>File.Read\<close> into a buffer of \<open>k\<close> bytes, at the position where \<open>src\<close> is what is left.
  A read may return fewer bytes than there are: the list of limits says how many (the empty
  list sets none); it returns at least one byte before the end of the file.
\<close>

datatype read_end = MoreData | AtEOF | ReadErr os_error

definition os_read ::
  "bytes option \<Rightarrow> nat \<Rightarrow> nat list \<Rightarrow> filesys \<Rightarrow> (bytes \<times> read_end) \<times> nat list \<times> filesys" where
  "os_read src k limits fs0 =
     (case next_fault fs0 of
        (Some n, fs) \<Rightarrow>
          ((case src of None \<Rightarrow> [] | Some r \<Rightarrow> take (min n k) r, ReadErr IOError), limits, fs)
      | (None, fs) \<Rightarrow>
          (case src of
             None \<Rightarrow> (([], ReadErr IsDirectory), limits, fs)
           | Some [] \<Rightarrow> (([], AtEOF), limits, fs)
           | Some r \<Rightarrow>
               (case limits of
                  [] \<Rightarrow> ((take k r, MoreData), [], fs)
                | x # xs \<Rightarrow> ((take (min k (max 1 x)) r, MoreData), xs, fs))))"

text \<open>\<open>os.WriteFile\<close>: create or truncate, then write everything.\<close>

definition os_write_file :: "path \<Rightarrow> bytes \<Rightarrow> filesys \<Rightarrow> (os_error + unit) \<times> filesys" where
  "os_write_file p d fs =
     (case os_create p fs of
        (Inl e, fs1) \<Rightarrow> (Inl e, fs1)
      | (Inr _, fs1) \<Rightarrow>
          (case os_append p d fs1 of
             ((_, Some e), fs2) \<Rightarrow> (Inl e, fs2)
           | ((_, None), fs2) \<Rightarrow> (Inr (), fs2)))"

section \<open>Effects without faults\<close>

lemma next_fault_none [fs_simps]: "fs_faults fs = [] \<Longrightarrow> next_fault fs = (None, fs)"
  by (simp add: next_fault_def)

lemma next_fault_frame:
  "next_fault fs = (f, fs') \<Longrightarrow> fs_files fs' = fs_files fs \<and> fs_dirs fs' = fs_dirs fs"
  by (auto simp: next_fault_def split: list.splits)

lemma os_create_ok [fs_simps]:
  "fs_faults fs = [] \<Longrightarrow> p |\<notin>| fs_dirs fs \<Longrightarrow>
     os_create p fs = (Inr (), fs\<lparr>fs_files := fmupd p [] (fs_files fs)\<rparr>)"
  by (simp add: os_create_def next_fault_none)

lemma os_open_append_ok [fs_simps]:
  "fs_faults fs = [] \<Longrightarrow> p |\<notin>| fs_dirs fs \<Longrightarrow> fmlookup (fs_files fs) p = Some c \<Longrightarrow>
     os_open_append p fs = (Inr (), fs)"
  by (simp add: os_open_append_def next_fault_none)

lemma os_append_ok [fs_simps]:
  "fs_faults fs = [] \<Longrightarrow> fmlookup (fs_files fs) p = Some old \<Longrightarrow>
     os_append p d fs =
       ((int (length d), None), fs\<lparr>fs_files := fmupd p (old @ d) (fs_files fs)\<rparr>)"
  by (simp add: os_append_def next_fault_none)

lemma os_rename_ok [fs_simps]:
  "fs_faults fs = [] \<Longrightarrow> a \<noteq> [] \<Longrightarrow> fmlookup (fs_files fs) a = Some c \<Longrightarrow>
     b |\<notin>| fs_dirs fs \<Longrightarrow>
     os_rename a b fs = (Inr (), fs\<lparr>fs_files := fmupd b c (fmdrop a (fs_files fs))\<rparr>)"
  by (simp add: os_rename_def next_fault_none)

lemma os_remove_snd [fs_simps]:
  "fs_faults fs = [] \<Longrightarrow> snd (os_remove p fs) = fs\<lparr>fs_files := fmdrop p (fs_files fs)\<rparr>"
  by (simp add: os_remove_def next_fault_none fmdrop_idle)

lemma os_write_file_ok [fs_simps]:
  "fs_faults fs = [] \<Longrightarrow> p |\<notin>| fs_dirs fs \<Longrightarrow>
     os_write_file p d fs = (Inr (), fs\<lparr>fs_files := fmupd p d (fmupd p [] (fs_files fs))\<rparr>)"
  by (simp add: os_write_file_def os_create_ok os_append_def next_fault_none)

lemma take_prefix_ex: "\<exists>t. r = take n r @ t"
  by (metis append_take_drop_id)

lemma os_read_more:
  assumes "os_read src k limits fs = ((d, MoreData), ls, fs')" and "0 < k"
  shows "\<exists>t. src = Some (d @ t) \<and> d \<noteq> [] \<and> length d \<le> k"
proof -
  from assms obtain r n where "src = Some r" "r \<noteq> []" "d = take n r" "0 < n" "n \<le> k"
    by (auto simp: os_read_def split: prod.splits option.splits list.splits)
  then show ?thesis
    using take_prefix_ex [of r n] by auto
qed

lemma os_read_cases:
  assumes "os_read src k limits fs = ((d, e), ls, fs')" and "0 < k"
  shows "src = None \<and> d = [] \<and> (\<exists>x. e = ReadErr x) \<or>
     (\<exists>t. src = Some (d @ t) \<and> length d \<le> k \<and>
        (case e of MoreData \<Rightarrow> d \<noteq> [] \<and> (limits = [] \<longrightarrow> d = take k (d @ t) \<and> ls = [])
         | AtEOF \<Rightarrow> d = [] \<and> t = [] | ReadErr _ \<Rightarrow> True))"
proof (cases e)
  case MoreData
  with os_read_more [of src k limits fs d ls fs'] assms obtain t where
      t: "src = Some (d @ t)" "d \<noteq> []" "length d \<le> k"
    by blast
  moreover have "limits = [] \<Longrightarrow> d = take k (d @ t) \<and> ls = []"
  proof -
    assume "limits = []"
    with assms(1) MoreData obtain r where "src = Some r" "d = take k r" "ls = []"
      by (auto simp: os_read_def split: prod.splits option.splits list.splits)
    with t(1) show "d = take k (d @ t) \<and> ls = []" by simp
  qed
  ultimately show ?thesis using MoreData by auto
next
  case AtEOF
  then show ?thesis
    using assms by (auto simp: os_read_def split: prod.splits option.splits list.splits)
next
  case (ReadErr x)
  show ?thesis
  proof (cases src)
    case None
    then show ?thesis
      using assms(1) ReadErr by (auto simp: os_read_def split: prod.splits option.splits)
  next
    case (Some r)
    then obtain n where "d = take (min n k) r"
      using assms(1) ReadErr by (auto simp: os_read_def split: prod.splits option.splits list.splits)
    with Some ReadErr take_prefix_ex [of r "min n k"] show ?thesis by auto
  qed
qed

lemma os_read_eof: "os_read src k limits fs = ((d, AtEOF), ls, fs') \<Longrightarrow> src = Some [] \<and> d = []"
  by (auto simp: os_read_def split: prod.splits option.splits list.splits)

section \<open>Which files a call can change, with any faults\<close>

definition same_except :: "path set \<Rightarrow> filesys \<Rightarrow> filesys \<Rightarrow> bool" where
  "same_except P fs fs' \<longleftrightarrow>
     fs_dirs fs' = fs_dirs fs \<and>
     (\<forall>p. p \<notin> P \<longrightarrow> fmlookup (fs_files fs') p = fmlookup (fs_files fs) p)"

lemma same_except_refl [intro]: "same_except P fs fs"
  by (simp add: same_except_def)

lemma same_except_trans:
  "same_except P a b \<Longrightarrow> same_except Q b c \<Longrightarrow> P \<union> Q \<subseteq> R \<Longrightarrow> same_except R a c"
  unfolding same_except_def by (metis Un_iff subset_iff)

lemma same_except_same: "same_except P a b \<Longrightarrow> same_except P b c \<Longrightarrow> same_except P a c"
  by (rule same_except_trans) auto

lemma same_except_next_fault: "next_fault fs = (f, fs') \<Longrightarrow> same_except {} fs fs'"
  using next_fault_frame by (fastforce simp: same_except_def)

lemma os_create_same: "same_except {p} fs (snd (os_create p fs))"
  by (auto simp: os_create_def same_except_def split: prod.splits option.splits
      dest: next_fault_frame)

lemma os_open_append_same: "same_except {} fs (snd (os_open_append p fs))"
  by (auto simp: os_open_append_def same_except_def split: prod.splits option.splits
      dest: next_fault_frame)

lemma os_append_same: "same_except {p} fs (snd (os_append p d fs))"
  by (auto simp: os_append_def Let_def same_except_def split: prod.splits option.splits
      dest: next_fault_frame)

lemma os_remove_same: "same_except {p} fs (snd (os_remove p fs))"
  by (auto simp: os_remove_def same_except_def split: prod.splits option.splits
      dest: next_fault_frame)

lemma os_rename_same: "same_except {a, b} fs (snd (os_rename a b fs))"
  by (auto simp: os_rename_def same_except_def split: prod.splits option.splits
      dest: next_fault_frame)

lemma os_truncate_same: "same_except {p} fs (snd (os_truncate p n fs))"
  by (auto simp: os_truncate_def same_except_def split: prod.splits option.splits
      dest: next_fault_frame)

lemma os_write_file_same: "same_except {p} fs (snd (os_write_file p d fs))"
proof -
  have "same_except {p} fs (snd (os_create p fs))" by (rule os_create_same)
  moreover have "same_except {p} fs1 (snd (os_append p d fs1))" for fs1
    by (rule os_append_same)
  ultimately show ?thesis
    using same_except_trans [of "{p}" fs _ "{p}" _ "{p}"]
    by (fastforce simp: os_write_file_def split: prod.splits sum.splits option.splits)
qed

lemmas fs_frames =
  os_create_same os_open_append_same os_append_same os_remove_same os_rename_same
  os_truncate_same os_write_file_same

end
