(* ===== verification/Naming.thy ===== *)
theory Naming
  imports FileSys
begin

text \<open>
  The names a received file is saved under: \<open>SafeFilename\<close> and \<open>uniquePath\<close> of
  \<open>internal/transfer/receiver.go\<close> and \<open>mailboxUniqueSavePath\<close> of
  \<open>cmd/drop/download.go\<close>.  The numbering loops have no bound in the code, so the search
  is a \<open>partial_function (option)\<close>, whose None is a loop that never ends; that it ends is
  proved.  Both searches meet one contract, the locale \<open>fresh_namer\<close>.
\<close>

section \<open>Definitions\<close>

datatype name_error =
    EmptyFilename
  | NullByte
  | PathSeparator string
  | InvalidName string

definition safe_filename :: "string \<Rightarrow> name_error + string" where
  "safe_filename raw =
     (if raw = [] then Inl EmptyFilename
      else if char_of (0 :: nat) \<in> set raw then Inl NullByte
      else if CHR ''/'' \<in> set raw \<or> char_of (92 :: nat) \<in> set raw then Inl (PathSeparator raw)
      else if raw = ''.'' \<or> raw = ''..'' then Inl (InvalidName raw)
      else if clean raw \<noteq> raw then Inl (InvalidName raw)
      else Inr raw)"

partial_function (option) find_free :: "(nat \<Rightarrow> bool) \<Rightarrow> nat \<Rightarrow> nat option" where
  "find_free taken i = (if taken i then find_free taken (Suc i) else Some i)"

definition numbered :: "string \<Rightarrow> nat \<Rightarrow> string \<Rightarrow> string" where
  "numbered base i e = base @ ''('' @ itoa i @ '')'' @ e"

definition unique_path :: "filesys \<Rightarrow> path \<Rightarrow> path option" where
  "unique_path fs path =
     (if \<not> fs_exists fs path then Some path
      else let e = ext path;
               base = take (length path - length e) path
           in map_option (\<lambda>i. numbered base i e) (find_free (\<lambda>i. fs_exists fs (numbered base i e)) 1))"

definition trim_suffix :: "string \<Rightarrow> string \<Rightarrow> string" where
  "trim_suffix s suf =
     (if length suf \<le> length s \<and> drop (length s - length suf) s = suf
      then take (length s - length suf) s else s)"

definition mailbox_unique_save_path :: "filesys \<Rightarrow> path \<Rightarrow> string \<Rightarrow> path option" where
  "mailbox_unique_save_path fs destDir safeFilename =
     (let p = join destDir safeFilename
      in if \<not> fs_exists fs p then Some p
         else let e = ext safeFilename;
                  base = trim_suffix safeFilename e
              in map_option (\<lambda>i. join destDir (numbered base i e))
                   (find_free (\<lambda>i. fs_exists fs (join destDir (numbered base i e))) 1))"

section \<open>The search\<close>

lemma find_free_Some:
  assumes "i \<le> k" and "\<forall>j. i \<le> j \<and> j < k \<longrightarrow> taken j" and "\<not> taken k"
  shows "find_free taken i = Some k"
  using assms
proof (induction "k - i" arbitrary: i)
  case 0
  then show ?case by (subst find_free.simps) simp
next
  case (Suc n)
  then have "taken i" by auto
  moreover have "find_free taken (Suc i) = Some k"
    using Suc by (intro Suc.hyps(1)) auto
  ultimately show ?case by (subst find_free.simps) simp
qed

lemma find_free_finds:
  assumes "finite {j. taken j}"
  shows "\<exists>k. find_free taken i = Some k \<and> i \<le> k \<and> \<not> taken k \<and> (\<forall>j. i \<le> j \<and> j < k \<longrightarrow> taken j)"
proof -
  have "\<exists>k. i \<le> k \<and> \<not> taken k"
  proof (rule ccontr)
    assume "\<not> ?thesis"
    then have "{i..} \<subseteq> {j. taken j}" by auto
    with assms show False
      using infinite_Ici finite_subset by blast
  qed
  then obtain k where k: "i \<le> k \<and> \<not> taken k" and "\<forall>j < k. \<not> (i \<le> j \<and> \<not> taken j)"
    using exists_least_iff [of "\<lambda>k. i \<le> k \<and> \<not> taken k"] by blast
  then have min: "\<forall>j. i \<le> j \<and> j < k \<longrightarrow> taken j" by blast
  with k have "find_free taken i = Some k"
    by (intro find_free_Some) auto
  with k min show ?thesis by blast
qed

lemma finite_exists: "finite {p. fs_exists fs p}"
proof -
  have "{p. fs_exists fs p} = fset (fmdom (fs_files fs)) \<union> fset (fs_dirs fs)"
    by (auto simp: fs_exists_def)
  then show ?thesis by simp
qed

lemma numbered_inject: "numbered b i e = numbered b j e \<Longrightarrow> i = j"
  by (auto simp: numbered_def dest: itoa_inject)

lemma finite_taken:
  assumes "inj f"
  shows "finite {i :: nat. fs_exists fs (f i)}"
  using finite_vimageI [OF finite_exists assms] by (simp add: vimage_def)

lemma find_free_exists:
  assumes "inj f"
  shows "\<exists>k. find_free (\<lambda>i. fs_exists fs (f i)) 1 = Some k \<and> \<not> fs_exists fs (f k)"
  using find_free_finds [OF finite_taken [OF assms, of fs], of 1] by blast

lemma inj_numbered: "inj (\<lambda>i. numbered b i e)"
  by (rule injI) (rule numbered_inject)

section \<open>Safe names\<close>

lemma safe_filename_Inr [result_iff]:
  "safe_filename raw = Inr s \<longleftrightarrow>
     s = raw \<and> plain_name raw \<and> char_of (0 :: nat) \<notin> set raw \<and> char_of (92 :: nat) \<notin> set raw"
  using clean_plain [of raw]
  by (auto simp: safe_filename_def plain_name_def split: if_splits)

lemma trim_suffix_append: "trim_suffix (b @ e) e = b"
  by (simp add: trim_suffix_def)

lemma trim_ext: "trim_suffix s (ext s) @ ext s = s"
  using ext_suffix [of s] trim_suffix_append by metis

lemma itoa_digits: "c \<in> set (itoa n) \<Longrightarrow> \<exists>d < 10. c = digit_char d"
proof (induction n rule: itoa.induct)
  case (1 n)
  show ?case
  proof (cases "n < 10")
    case True
    then show ?thesis using "1.prems" by (auto simp: itoa.simps [of n])
  next
    case False
    have "\<exists>d < 10. digit_char (n mod 10) = digit_char d"
      by (intro exI [of _ "n mod 10"]) simp
    with False "1.IH" "1.prems" show ?thesis
      by (auto simp: itoa.simps [of n])
  qed
qed

lemma itoa_no_sep: "CHR ''/'' \<notin> set (itoa n)"
proof
  assume "CHR ''/'' \<in> set (itoa n)"
  then obtain d where "d < 10" "CHR ''/'' = digit_char d"
    using itoa_digits by blast
  then have "of_char (digit_char d) = (of_char CHR ''/'' :: nat)" by simp
  with \<open>d < 10\<close> show False
    by (simp add: digit_char_def)
qed

lemma plain_numbered:
  assumes "plain_name s"
  shows "plain_name (numbered (trim_suffix s (ext s)) i (ext s))"
proof -
  let ?n = "numbered (trim_suffix s (ext s)) i (ext s)"
  have "set (trim_suffix s (ext s)) \<subseteq> set s"
    by (auto simp: trim_suffix_def dest: in_set_takeD)
  then have "CHR ''/'' \<notin> set ?n"
    using assms ext_no_sep [of s] itoa_no_sep [of i]
    by (auto simp: numbered_def plain_name_def)
  moreover have "CHR ''('' \<in> set ?n"
    by (simp add: numbered_def)
  ultimately show ?thesis
    by (auto simp: plain_name_def)
qed

lemma join_plain_inject:
  assumes "plain_name m" and "plain_name n" and "join d m = join d n"
  shows "m = n"
  using assms base_name_join by metis

section \<open>The contract of a choice of name\<close>

locale fresh_namer =
  fixes target :: "'k \<Rightarrow> path" and ok :: "'k \<Rightarrow> bool"
    and pick :: "filesys \<Rightarrow> 'k \<Rightarrow> path option"
  assumes pick_total: "ok k \<Longrightarrow> \<exists>q. pick fs k = Some q"
    and pick_fresh: "ok k \<Longrightarrow> pick fs k = Some q \<Longrightarrow> \<not> fs_exists fs q"
    and pick_keep: "\<not> fs_exists fs (target k) \<Longrightarrow> pick fs k = Some (target k)"
begin

text \<open>Writing at a picked name leaves every existing file as it was.\<close>

lemma pick_preserves:
  assumes "ok k" and "pick fs k = Some q" and "same_except {q} fs fs'"
    and "fs_exists fs p"
  shows "fmlookup (fs_files fs') p = fmlookup (fs_files fs) p"
  using pick_fresh [OF assms(1,2)] assms(3,4) by (auto simp: same_except_def)

lemma pick_not_dir: "ok k \<Longrightarrow> pick fs k = Some q \<Longrightarrow> q |\<notin>| fs_dirs fs"
  using pick_fresh by (auto simp: fs_exists_def)

end

lemma unique_path_finds:
  "\<exists>q. unique_path fs p = Some q \<and> \<not> fs_exists fs q"
  using find_free_exists [OF inj_numbered [of "take (length p - length (ext p)) p" "ext p"], of fs]
  by (auto simp: unique_path_def Let_def)

lemma mailbox_unique_finds:
  assumes "plain_name n"
  shows "\<exists>q. mailbox_unique_save_path fs d n = Some q \<and> \<not> fs_exists fs q"
proof -
  let ?f = "\<lambda>i. join d (numbered (trim_suffix n (ext n)) i (ext n))"
  have "inj ?f"
    by (rule injI)
      (metis join_plain_inject plain_numbered [OF assms] numbered_inject)
  from find_free_exists [OF this, of fs] show ?thesis
    by (auto simp: mailbox_unique_save_path_def Let_def)
qed

interpretation receiver_name: fresh_namer "\<lambda>p. p" "\<lambda>_. True" unique_path
proof unfold_locales
  show "\<exists>q. unique_path fs k = Some q" for fs k
    using unique_path_finds by blast
  show "\<not> fs_exists fs q" if "unique_path fs k = Some q" for fs k q
    using unique_path_finds [of fs k] that by auto
  show "unique_path fs k = Some k" if "\<not> fs_exists fs k" for fs k
    using that by (simp add: unique_path_def)
qed

interpretation mailbox_name: fresh_namer "\<lambda>(d, n). join d n" "\<lambda>(d, n). plain_name n"
  "\<lambda>fs (d, n). mailbox_unique_save_path fs d n"
proof unfold_locales
  fix fs :: filesys and k :: "path \<times> string" and q
  obtain d n where k: "k = (d, n)" by (cases k)
  show "\<exists>q. (case k of (d, n) \<Rightarrow> mailbox_unique_save_path fs d n) = Some q"
    if "case k of (d, n) \<Rightarrow> plain_name n"
    using that mailbox_unique_finds [of n fs d] by (auto simp: k)
  show "\<not> fs_exists fs q" if "case k of (d, n) \<Rightarrow> plain_name n"
    and "(case k of (d, n) \<Rightarrow> mailbox_unique_save_path fs d n) = Some q"
    using that mailbox_unique_finds [of n fs d] by (auto simp: k)
  show "(case k of (d, n) \<Rightarrow> mailbox_unique_save_path fs d n) = Some (case k of (d, n) \<Rightarrow> join d n)"
    if "\<not> fs_exists fs (case k of (d, n) \<Rightarrow> join d n)"
    using that by (simp add: k mailbox_unique_save_path_def Let_def)
qed

section \<open>Where a received file lands\<close>

lemma ext_after_sep: "CHR ''/'' \<notin> set n \<Longrightarrow> ext (x @ CHR ''/'' # n) = ext n"
proof -
  let ?P = "\<lambda>c. c \<noteq> CHR ''/'' \<and> c \<noteq> CHR ''.''"
  assume n: "CHR ''/'' \<notin> set n"
  show ?thesis
  proof (cases "CHR ''.'' \<in> set n")
    case True
    then have e: "\<exists>c \<in> set (rev n). \<not> ?P c" by auto
    then have t: "takeWhile ?P (rev n @ CHR ''/'' # rev x) = takeWhile ?P (rev n)"
      by (auto intro: takeWhile_append1)
    have "drop (length (takeWhile ?P (rev n))) (rev n) \<noteq> []"
      using e by (simp add: dropWhile_eq_drop [symmetric])
    then show ?thesis
      using length_takeWhile_le [of ?P "rev n"]
      by (cases "drop (length (takeWhile ?P (rev n))) (rev n)")
        (simp_all add: ext_def t Let_def)
  next
    case False
    then have tw: "takeWhile ?P (rev n) = rev n"
      using n by (simp only: takeWhile_eq_all_conv) auto
    moreover have "takeWhile ?P (rev n @ CHR ''/'' # rev x) = rev n"
      using n False by (subst takeWhile_append2) auto
    ultimately show ?thesis
      by (simp add: ext_def tw del: takeWhile_eq_all_conv)
  qed
qed

lemma join_split:
  assumes "plain_name n"
  shows "\<exists>x. (\<forall>m. plain_name m \<longrightarrow> join d m = x @ m) \<and> ext (join d n) = ext n"
proof (cases "d = [] \<or> clean d = ''.''")
  case True
  then have "\<forall>m. plain_name m \<longrightarrow> join d m = [] @ m"
    using join_plain join_empty_dir by (metis append_Nil)
  then show ?thesis
    using assms by (intro exI [of _ "[]"]) simp
next
  case False
  then obtain x where x: "\<forall>m. plain_name m \<longrightarrow> join d m = x @ CHR ''/'' # m"
    using join_plain by (metis append_Nil)
  then have "ext (join d n) = ext n"
    using assms ext_after_sep [of n x] by (simp add: plain_name_def)
  with x show ?thesis
    by (intro exI [of _ "x @ ''/''"]) simp
qed

lemma unique_path_in_dir:
  assumes "plain_name n" and "unique_path fs (join d n) = Some q"
  shows "\<exists>m. plain_name m \<and> q = join d m"
proof (cases "fs_exists fs (join d n)")
  case False
  with assms show ?thesis by (auto simp: unique_path_def)
next
  case True
  obtain x where x: "\<And>m. plain_name m \<Longrightarrow> join d m = x @ m" and e: "ext (join d n) = ext n"
    using join_split [OF assms(1), of d] by blast
  obtain b where b: "n = b @ ext n"
    using ext_suffix by blast
  have base: "take (length (join d n) - length (ext n)) (join d n) = x @ b"
  proof -
    have "join d n = (x @ b) @ ext n"
      using x [OF assms(1)] b by simp
    then show ?thesis by simp
  qed
  have tb: "trim_suffix n (ext n) = b"
    by (metis b trim_suffix_append)
  from True assms(2) base e obtain i where "q = numbered (x @ b) i (ext n)"
    by (auto simp: unique_path_def Let_def)
  also have "\<dots> = x @ numbered b i (ext n)"
    by (simp add: numbered_def)
  finally show ?thesis
    using x plain_numbered [OF assms(1), of i] tb by metis
qed

lemma mailbox_path_in_dir:
  assumes "plain_name n" and "mailbox_unique_save_path fs d n = Some q"
  shows "\<exists>m. plain_name m \<and> q = join d m"
  using assms plain_numbered [OF assms(1)]
  by (auto simp: mailbox_unique_save_path_def Let_def split: if_splits)

text \<open>
  A sender cannot choose where its file lands.  Whatever name it announces, if
  \<open>SafeFilename\<close> lets it through, then the path that \<open>uniquePath\<close> picks under the
  destination is a direct entry of that (cleaned) directory, and it names nothing that
  exists.
\<close>

lemma receive_path_confined:
  assumes "safe_filename raw = Inr n" and "d \<noteq> []" and "unique_path fs (join d n) = Some q"
  shows "\<not> fs_exists fs q \<and>
     (\<exists>m. plain_name m \<and> base_name q = m \<and>
        q = (if clean d = ''.'' then m
             else if clean d = ''/'' then CHR ''/'' # m
             else clean d @ CHR ''/'' # m))"
proof -
  from assms(1) have n: "plain_name n" by (simp add: result_iff)
  from unique_path_in_dir [OF n assms(3)] obtain m where m: "plain_name m" "q = join d m"
    by blast
  moreover have "\<not> fs_exists fs q"
    using receiver_name.pick_fresh [OF _ assms(3)] by simp
  ultimately show ?thesis
    using join_plain [OF m(1) assms(2)] base_name_join [OF m(1), of d] by metis
qed

lemma receive_path_confined_witness:
  "\<not> fs_exists \<lparr>fs_files = fmempty, fs_dirs = {||}, fs_faults = []\<rparr> ''d/a.txt'' \<and>
   (\<exists>m. plain_name m \<and> base_name ''d/a.txt'' = m \<and>
      ''d/a.txt'' = (if clean ''d'' = ''.'' then m
             else if clean ''d'' = ''/'' then CHR ''/'' # m
             else clean ''d'' @ CHR ''/'' # m))"
proof (rule receive_path_confined)
  show "safe_filename ''a.txt'' = Inr ''a.txt''"
    by (simp add: result_iff plain_name_def char_of_eq_iff)
  show "unique_path \<lparr>fs_files = fmempty, fs_dirs = {||}, fs_faults = []\<rparr> (join ''d'' ''a.txt'')
      = Some ''d/a.txt''"
    by (simp add: unique_path_def fs_exists_def join_def clean_def rooted_def render_def
        clean_elems_def clean_step_def)
qed simp

text \<open>
  \<open>SafeFilename\<close> accepts exactly the non-empty names other than \<open>.\<close> and \<open>..\<close> that hold
  no slash, backslash or zero byte, and returns them unchanged.  The comparison with
  \<open>filepath.Clean\<close> rejects nothing more: names such as \<open>". "\<close> and \<open>" .."\<close> pass.
\<close>

lemma safe_filename_accepts:
  "(safe_filename raw = Inr s) =
     (s = raw \<and> raw \<notin> {[], ''.'', ''..''} \<and>
      {char_of (0 :: nat), CHR ''/'', char_of (92 :: nat)} \<inter> set raw = {})
   \<and> safe_filename ''. '' = Inr ''. '' \<and> safe_filename '' ..'' = Inr '' ..''"
proof -
  have "(safe_filename raw = Inr s) =
     (s = raw \<and> raw \<notin> {[], ''.'', ''..''} \<and>
      {char_of (0 :: nat), CHR ''/'', char_of (92 :: nat)} \<inter> set raw = {})" for raw s
    by (auto simp: result_iff plain_name_def)
  then show ?thesis
    by (simp add: char_of_eq_iff)
qed


end
