(* ===== verification/Receiver.thy ===== *)
theory Receiver
  imports Link Naming
begin

text \<open>
  One received file: \<open>reHandshake\<close> and \<open>recvFile\<close> of \<open>internal/transfer/receiver.go\<close>.
  The closure \<open>handle\<close> works on variables of \<open>recvFile\<close>, which are the record
  \<open>recv_state\<close>; the disk, the connection it answers on and the progress calls are
  \<open>recv_world\<close>.  The reads are the sequence of results that the \<open>msgReader\<close> returns.
\<close>

section \<open>Definitions\<close>

record receiver =
  rc_key :: bytes
  rc_resume :: "resume_request option"

record recv_state =
  rf_metadata :: metadata
  rf_file :: "path option"
  rf_received :: int
  rf_dest :: path
  rf_part :: path

record recv_world =
  rw_fs :: filesys
  rw_link :: link
  rw_progress :: "(int \<times> int) list"

datatype recv_error =
    ReadMessage read_error
  | ParseMetadata
  | UnsafeFilename name_error
  | NameSearchDiverges
  | ReopenPartial os_error
  | CreateFile os_error
  | ChunkBeforeMetadata
  | WriteChunk os_error
  | FinalizeFile os_error
  | SenderError bytes
  | SessionEndBeforeFile
  | VersionMismatch byte
  | ReadyNotSent send_error
  | SenderRestarted
  | ClosedBeforeAnyFile
  | UnexpectedAfterFile byte
  | UnexpectedBetweenBatches byte
  | ReadFirstMessage read_error
  | UnexpectedFirst byte
  | NegotiationFailed
  | DestinationMissing
  | DestinationNotDirectory
  | NotASingleFile nat
  | BatchCallback

definition version_ok :: "message \<Rightarrow> bool" where
  "version_ok m \<longleftrightarrow> \<not> (length (payload m) = 0 \<or> payload m ! 0 \<noteq> ProtocolVersion)"

definition version_got :: "message \<Rightarrow> byte" where
  "version_got m = (if length (payload m) > 0 then payload m ! 0 else 0)"

definition re_handshake ::
  "libs \<Rightarrow> receiver \<Rightarrow> message \<Rightarrow> recv_world \<Rightarrow> (recv_error + unit) \<times> recv_world" where
  "re_handshake L r msg w =
     (if \<not> version_ok msg then (Inl (VersionMismatch (version_got msg)), w)
      else case write_signal_msg L (rc_key r) new_ready_message (rw_link w) of
        (Inl e, l) \<Rightarrow> (Inl (ReadyNotSent e), w\<lparr>rw_link := l\<rparr>)
      | (Inr _, l) \<Rightarrow> (Inr (), w\<lparr>rw_link := l\<rparr>))"

definition no_metadata :: metadata where
  "no_metadata = \<lparr>md_filename = [], md_size = 0, md_chunks = 0, md_resume_offset = 0\<rparr>"

definition recv_init :: recv_state where
  "recv_init = \<lparr>rf_metadata = no_metadata, rf_file = None, rf_received = 0, rf_dest = [], rf_part = []\<rparr>"

text \<open>The result of \<open>handle\<close>: an error, or \<open>Some path\<close> when the file is done.\<close>

type_synonym handled = "(recv_error + path option) \<times> recv_state \<times> recv_world"

definition progress_call :: "recv_state \<Rightarrow> recv_world \<Rightarrow> recv_world" where
  "progress_call st w =
     w\<lparr>rw_progress := rw_progress w @ [(rf_received st, md_size (rf_metadata st))]\<rparr>"

definition handle_metadata ::
  "libs \<Rightarrow> receiver \<Rightarrow> path \<Rightarrow> message \<Rightarrow> recv_state \<Rightarrow> recv_world \<Rightarrow> handled" where
  "handle_metadata L r destDir msg st w =
     (case parse_metadata (lib_unmarshal_meta L) (payload msg) of
        None \<Rightarrow> (Inl ParseMetadata, st, w)
      | Some meta \<Rightarrow>
     (case safe_filename (md_filename meta) of
        Inl e \<Rightarrow> (Inl (UnsafeFilename e), st, w)
      | Inr safeName \<Rightarrow>
     (case unique_path (rw_fs w) (join destDir safeName) of
        None \<Rightarrow> (Inl NameSearchDiverges, st, w)
      | Some destPath \<Rightarrow>
          let partPath = destPath @ ''.part'';
              st1 = st\<lparr>rf_metadata := meta, rf_dest := destPath, rf_part := partPath\<rparr>;
              resuming = (md_resume_offset meta > 0 \<and>
                 (case rc_resume r of None \<Rightarrow> False
                  | Some q \<Rightarrow> rr_filename q = safeName \<and> rr_offset q = md_resume_offset meta))
          in if resuming then
               (case os_open_append partPath (rw_fs w) of
                  (Inl e, fs) \<Rightarrow> (Inl (ReopenPartial e), st1, w\<lparr>rw_fs := fs\<rparr>)
                | (Inr _, fs) \<Rightarrow>
                    let st2 = st1\<lparr>rf_file := Some partPath, rf_received := md_resume_offset meta\<rparr>
                    in (Inr None, st2, progress_call st2 (w\<lparr>rw_fs := fs\<rparr>)))
             else
               (case os_create partPath (snd (os_remove partPath (rw_fs w))) of
                  (Inl e, fs) \<Rightarrow> (Inl (CreateFile e), st1, w\<lparr>rw_fs := fs\<rparr>)
                | (Inr _, fs) \<Rightarrow>
                    let st2 = st1\<lparr>rf_file := Some partPath, rf_received := 0\<rparr>
                    in (Inr None, st2, progress_call st2 (w\<lparr>rw_fs := fs\<rparr>))))))"

definition handle_chunk :: "message \<Rightarrow> recv_state \<Rightarrow> recv_world \<Rightarrow> handled" where
  "handle_chunk msg st w =
     (case rf_file st of
        None \<Rightarrow> (Inl ChunkBeforeMetadata, st, w)
      | Some f \<Rightarrow>
          (case os_append f (payload msg) (rw_fs w) of
             ((_, Some e), fs) \<Rightarrow> (Inl (WriteChunk e), st, w\<lparr>rw_fs := fs\<rparr>)
           | ((n, None), fs) \<Rightarrow>
               let st1 = st\<lparr>rf_received := rf_received st + n\<rparr>
               in (Inr None, st1, progress_call st1 (w\<lparr>rw_fs := fs\<rparr>))))"

definition handle_complete :: "recv_state \<Rightarrow> recv_world \<Rightarrow> handled" where
  "handle_complete st w =
     (let st1 = st\<lparr>rf_file := None\<rparr>
      in case os_rename (rf_part st) (rf_dest st) (rw_fs w) of
           (Inl e, fs) \<Rightarrow> (Inl (FinalizeFile e), st1, w\<lparr>rw_fs := fs\<rparr>)
         | (Inr _, fs) \<Rightarrow> (Inr (Some (rf_dest st)), st1, w\<lparr>rw_fs := fs\<rparr>))"

definition handle_version ::
  "libs \<Rightarrow> receiver \<Rightarrow> message \<Rightarrow> recv_state \<Rightarrow> recv_world \<Rightarrow> handled" where
  "handle_version L r msg st w =
     (let w1 = (case rf_file st of None \<Rightarrow> w
                | Some _ \<Rightarrow> w\<lparr>rw_fs := snd (os_remove (rf_part st) (rw_fs w))\<rparr>);
          st1 = st\<lparr>rf_file := None\<rparr>
      in case re_handshake L r msg w1 of
           (Inl e, w2) \<Rightarrow> (Inl e, st1, w2)
         | (Inr _, w2) \<Rightarrow> (Inl SenderRestarted, st1, w2))"

definition handle_msg ::
  "libs \<Rightarrow> receiver \<Rightarrow> path \<Rightarrow> message \<Rightarrow> recv_state \<Rightarrow> recv_world \<Rightarrow> handled" where
  "handle_msg L r destDir msg st w =
     (if mtype msg = MsgTypeMetadata then handle_metadata L r destDir msg st w
      else if mtype msg = MsgTypeChunk then handle_chunk msg st w
      else if mtype msg = MsgTypeComplete then handle_complete st w
      else if mtype msg = MsgTypeError then (Inl (SenderError (payload msg)), st, w)
      else if mtype msg = MsgTypeSessionEnd then (Inl SessionEndBeforeFile, st, w)
      else if mtype msg = MsgTypeVersion then handle_version L r msg st w
      else (Inr None, st, w))"

text \<open>The loop after the primed message.  It returns what is left of the reads.\<close>

fun recv_loop ::
  "libs \<Rightarrow> receiver \<Rightarrow> path \<Rightarrow> reads \<Rightarrow> recv_state \<Rightarrow> recv_world \<Rightarrow>
     (recv_error + path) \<times> reads \<times> recv_world" where
  "recv_loop L r destDir [] st w = (Inl (ReadMessage ReadTimeout), [], w)"
| "recv_loop L r destDir (Inl e # rest) st w = (Inl (ReadMessage e), rest, w)"
| "recv_loop L r destDir (Inr msg # rest) st w =
     (case handle_msg L r destDir msg st w of
        (Inl e, _, w1) \<Rightarrow> (Inl e, rest, w1)
      | (Inr (Some p), _, w1) \<Rightarrow> (Inr p, rest, w1)
      | (Inr None, st1, w1) \<Rightarrow> recv_loop L r destDir rest st1 w1)"

definition recv_file ::
  "libs \<Rightarrow> receiver \<Rightarrow> path \<Rightarrow> message option \<Rightarrow> reads \<Rightarrow> recv_world \<Rightarrow>
     (recv_error + path) \<times> reads \<times> recv_world" where
  "recv_file L r destDir primed rds w =
     (case primed of
        None \<Rightarrow> recv_loop L r destDir rds recv_init w
      | Some msg \<Rightarrow>
          (case handle_msg L r destDir msg recv_init w of
             (Inl e, _, w1) \<Rightarrow> (Inl e, rds, w1)
           | (Inr (Some p), _, w1) \<Rightarrow> (Inr p, rds, w1)
           | (Inr None, st1, w1) \<Rightarrow> recv_loop L r destDir rds st1 w1))"

section \<open>What a received file can touch\<close>

text \<open>\<open>part_of d p\<close>: a part file of a plain name directly in the directory \<open>d\<close>.\<close>

definition part_of :: "path \<Rightarrow> path \<Rightarrow> bool" where
  "part_of d p \<longleftrightarrow> (\<exists>m. plain_name m \<and> p = join d m @ ''.part'')"

text \<open>Only part files of \<open>d\<close> changed.\<close>

definition parts_only :: "path \<Rightarrow> filesys \<Rightarrow> filesys \<Rightarrow> bool" where
  "parts_only d fs fs' \<longleftrightarrow> same_except {p. part_of d p} fs fs'"

definition grows :: "filesys \<Rightarrow> filesys \<Rightarrow> bool" where
  "grows fs fs' \<longleftrightarrow> (\<forall>p. fs_exists fs p \<longrightarrow> fs_exists fs' p)"

lemma parts_only_refl [intro, simp]: "parts_only d fs fs"
  by (auto simp: parts_only_def)

lemma parts_only_trans: "parts_only d a b \<Longrightarrow> parts_only d b c \<Longrightarrow> parts_only d a c"
  unfolding parts_only_def by (rule same_except_trans) auto

lemma same_except_parts: "same_except P fs fs' \<Longrightarrow> \<forall>p \<in> P. part_of d p \<Longrightarrow> parts_only d fs fs'"
  by (auto simp: same_except_def parts_only_def)

lemma grows_refl [simp]: "grows fs fs"
  by (simp add: grows_def)

lemma grows_trans: "grows a b \<Longrightarrow> grows b c \<Longrightarrow> grows a c"
  by (simp add: grows_def)

lemma same_except_exists: "same_except P fs fs' \<Longrightarrow> p \<notin> P \<Longrightarrow> fs_exists fs' p = fs_exists fs p"
  by (auto simp: same_except_def fs_exists_def fmlookup_dom_iff)

lemma same_except_grows: "same_except {p} fs fs' \<Longrightarrow> fs_exists fs' p \<Longrightarrow> grows fs fs'"
  unfolding grows_def by (metis same_except_exists singletonD)

text \<open>
  The invariant of \<open>recvFile\<close>'s variables: an open file is the part file, and the destination
  chosen for it is a free plain name in the directory.
\<close>

definition recv_inv :: "path \<Rightarrow> recv_state \<Rightarrow> filesys \<Rightarrow> bool" where
  "recv_inv d st fs \<longleftrightarrow>
     (case rf_file st of None \<Rightarrow> True | Some f \<Rightarrow> f = rf_part st) \<and>
     (rf_part st = [] \<and> rf_file st = None \<or>
      part_of d (rf_part st) \<and> rf_part st = rf_dest st @ ''.part'' \<and> \<not> fs_exists fs (rf_dest st))"

lemma recv_inv_init: "recv_inv d recv_init fs"
  by (simp add: recv_inv_def recv_init_def)

lemma re_handshake_fs: "re_handshake L r msg w = (res, w') \<Longrightarrow> rw_fs w' = rw_fs w"
  by (auto simp: re_handshake_def split: if_splits prod.splits sum.splits)

lemma os_rename_failed: "os_rename a b fs = (Inl e, fs') \<Longrightarrow> same_except {} fs fs'"
  by (auto simp: os_rename_def same_except_def split: prod.splits option.splits if_splits
      dest: next_fault_frame)

lemma os_rename_done:
  "os_rename a b fs = (Inr u, fs') \<Longrightarrow>
     a \<noteq> [] \<and> fmlookup (fs_files fs) a \<noteq> None \<and> same_except {a, b} fs fs' \<and>
     fmlookup (fs_files fs') b = fmlookup (fs_files fs) a"
  using os_rename_same [of a b fs]
  by (auto simp: os_rename_def split: prod.splits option.splits if_splits dest: next_fault_frame)

lemma os_create_exists: "os_create p fs = (Inr u, fs') \<Longrightarrow> fs_exists fs' p"
  by (auto simp: os_create_def fs_exists_def split: prod.splits option.splits if_splits)

lemma grows_upd:
  "fs_files fs' = fmupd p b (fs_files fs) \<Longrightarrow> fs_dirs fs' = fs_dirs fs \<Longrightarrow> grows fs fs'"
  by (auto simp: grows_def fs_exists_def)

lemma os_append_grows: "os_append p d fs = (x, fs') \<Longrightarrow> grows fs fs'"
proof -
  assume a: "os_append p d fs = (x, fs')"
  obtain f fs1 where n: "next_fault fs = (f, fs1)"
    by (cases "next_fault fs")
  then have f: "fs_files fs1 = fs_files fs" "fs_dirs fs1 = fs_dirs fs"
    by (auto dest: next_fault_frame)
  then have "grows fs fs1"
    by (simp add: grows_def fs_exists_def)
  moreover have "grows fs (fs1\<lparr>fs_files := fmupd p b (fs_files fs1)\<rparr>)" for b
    by (rule grows_upd) (simp_all add: f)
  ultimately show ?thesis
    using a n by (cases f; cases "fmlookup (fs_files fs1) p") (auto simp: os_append_def)
qed

lemma remove_create_same: "same_except {p} fs (snd (os_create p (snd (os_remove p fs))))"
  by (rule same_except_trans [OF os_remove_same os_create_same]) simp

text \<open>The effect of one message: what it may change, and the invariant when the loop goes on.\<close>

definition effect_ok :: "path \<Rightarrow> filesys \<Rightarrow> handled \<Rightarrow> bool" where
  "effect_ok d fs h =
     (case h of
        (Inl _, _, w') \<Rightarrow> parts_only d fs (rw_fs w')
      | (Inr None, st', w') \<Rightarrow>
          parts_only d fs (rw_fs w') \<and> grows fs (rw_fs w') \<and> recv_inv d st' (rw_fs w')
      | (Inr (Some p), _, w') \<Rightarrow>
          same_except ({q. part_of d q} \<union> {p}) fs (rw_fs w') \<and> \<not> fs_exists fs p \<and>
          part_of d (p @ ''.part'') \<and> fmlookup (fs_files (rw_fs w')) p \<noteq> None)"

lemma rw_fs_progress [simp]: "rw_fs (progress_call st w) = rw_fs w"
  by (simp add: progress_call_def)

lemma effect_ok_error [simp]: "effect_ok d (rw_fs w) (Inl e, st, w)"
  by (simp add: effect_ok_def)

lemma handle_metadata_effect: "effect_ok d (rw_fs w) (handle_metadata L r d msg st w)"
proof (cases "\<exists>meta n dest. parse_metadata (lib_unmarshal_meta L) (payload msg) = Some meta \<and>
    safe_filename (md_filename meta) = Inr n \<and> unique_path (rw_fs w) (join d n) = Some dest")
  case False
  then show ?thesis
    by (auto simp: handle_metadata_def split: option.splits sum.splits)
next
  case True
  then obtain meta n dest where m: "parse_metadata (lib_unmarshal_meta L) (payload msg) = Some meta"
      "safe_filename (md_filename meta) = Inr n" "unique_path (rw_fs w) (join d n) = Some dest"
    by blast
  let ?part = "dest @ ''.part''"
  have fresh: "\<not> fs_exists (rw_fs w) dest"
    using receiver_name.pick_fresh m(3) by simp
  have part: "part_of d ?part"
    using unique_path_in_dir [OF _ m(3)] m(2) by (auto simp: part_of_def result_iff)
  have opn: "same_except {?part} (rw_fs w) fs \<and> grows (rw_fs w) fs"
    if "os_open_append ?part (rw_fs w) = (x, fs)" for x fs
    using os_open_append_same [where fs = "rw_fs w" and p = ?part] that same_except_exists [of "{}" "rw_fs w" fs]
    by (auto simp: same_except_def grows_def)
  have crt: "same_except {?part} (rw_fs w) fs"
    if "os_create ?part (snd (os_remove ?part (rw_fs w))) = (x, fs)" for x fs
    using remove_create_same [of ?part "rw_fs w"] that by simp
  have only: "parts_only d (rw_fs w) fs" if "same_except {?part} (rw_fs w) fs" for fs
    using that by (rule same_except_parts) (simp add: part)
  have inv: "recv_inv d st2 fs"
    if "same_except {?part} (rw_fs w) fs" "rf_file st2 = Some ?part" "rf_dest st2 = dest"
      "rf_part st2 = ?part" for st2 fs
    using that fresh part same_except_exists [OF that(1), of dest] by (simp add: recv_inv_def)
  show ?thesis
    by (auto simp: handle_metadata_def m effect_ok_def Let_def split: prod.splits sum.splits
        intro!: inv only dest: opn crt os_create_exists intro: same_except_grows)
qed

lemma handle_chunk_effect:
  assumes inv: "recv_inv d st (rw_fs w)"
  shows "effect_ok d (rw_fs w) (handle_chunk msg st w)"
proof (cases "rf_file st")
  case (Some f)
  with inv have f: "f = rf_part st" "part_of d f" "f = rf_dest st @ ''.part''"
      "\<not> fs_exists (rw_fs w) (rf_dest st)"
    by (auto simp: recv_inv_def)
  obtain n err fs where a: "os_append f (payload msg) (rw_fs w) = ((n, err), fs)"
    by (metis surj_pair)
  then have s: "same_except {f} (rw_fs w) fs"
    using os_append_same [of f "rw_fs w" "payload msg"] by simp
  have p: "parts_only d (rw_fs w) fs"
    using s by (rule same_except_parts) (use f(2) in simp)
  have "rf_dest st \<notin> {f}"
    by (subst f(3)) simp
  then have "\<not> fs_exists fs (rf_dest st)"
    using same_except_exists [OF s] f(4) by blast
  then have "recv_inv d (st\<lparr>rf_received := rf_received st + n\<rparr>) fs"
    using f Some by (simp add: recv_inv_def)
  with p a os_append_grows [OF a] show ?thesis
    by (cases err) (simp_all add: handle_chunk_def Some effect_ok_def Let_def)
qed (simp add: handle_chunk_def)

lemma handle_complete_effect:
  assumes inv: "recv_inv d st (rw_fs w)"
  shows "effect_ok d (rw_fs w) (handle_complete st w)"
proof -
  obtain res fs where r: "os_rename (rf_part st) (rf_dest st) (rw_fs w) = (res, fs)"
    by (cases "os_rename (rf_part st) (rf_dest st) (rw_fs w)")
  show ?thesis
  proof (cases res)
    case (Inl e)
    with r have "parts_only d (rw_fs w) fs"
      by (auto dest!: os_rename_failed intro: same_except_parts)
    with r Inl show ?thesis by (simp add: handle_complete_def effect_ok_def)
  next
    case (Inr u)
    with r have x: "rf_part st \<noteq> []" "fmlookup (fs_files (rw_fs w)) (rf_part st) \<noteq> None"
        "same_except {rf_part st, rf_dest st} (rw_fs w) fs"
        "fmlookup (fs_files fs) (rf_dest st) = fmlookup (fs_files (rw_fs w)) (rf_part st)"
      by (auto dest!: os_rename_done)
    with inv have i: "rf_part st = rf_dest st @ ''.part''" "part_of d (rf_part st)"
        "\<not> fs_exists (rw_fs w) (rf_dest st)"
      by (auto simp: recv_inv_def)
    have "same_except ({q. part_of d q} \<union> {rf_dest st}) (rw_fs w) fs"
      unfolding same_except_def
    proof (intro conjI allI impI)
      show "fs_dirs fs = fs_dirs (rw_fs w)"
        using x(3) by (simp add: same_except_def)
      fix p assume "p \<notin> {q. part_of d q} \<union> {rf_dest st}"
      with i(2) have "p \<notin> {rf_part st, rf_dest st}" by auto
      with x(3) show "fmlookup (fs_files fs) p = fmlookup (fs_files (rw_fs w)) p"
        by (simp add: same_except_def)
    qed
    with r Inr x i show ?thesis
      by (simp add: handle_complete_def effect_ok_def)
  qed
qed

lemma handle_version_effect:
  assumes inv: "recv_inv d st (rw_fs w)"
  shows "effect_ok d (rw_fs w) (handle_version L r msg st w)"
proof -
  define w1 where "w1 = (case rf_file st of None \<Rightarrow> w
                | Some _ \<Rightarrow> w\<lparr>rw_fs := snd (os_remove (rf_part st) (rw_fs w))\<rparr>)"
  have p: "parts_only d (rw_fs w) (rw_fs w1)"
  proof (cases "rf_file st")
    case (Some f)
    with inv have "part_of d (rf_part st)"
      by (auto simp: recv_inv_def)
    then show ?thesis
      by (simp add: w1_def Some same_except_parts [OF os_remove_same])
  qed (simp add: w1_def)
  obtain res w2 where h: "re_handshake L r msg w1 = (res, w2)"
    by (cases "re_handshake L r msg w1")
  then have "rw_fs w2 = rw_fs w1"
    by (rule re_handshake_fs)
  with p show ?thesis
    by (cases res) (simp_all add: handle_version_def effect_ok_def h flip: w1_def)
qed

lemma handle_msg_effect:
  assumes "recv_inv d st (rw_fs w)"
  shows "effect_ok d (rw_fs w) (handle_msg L r d msg st w)"
proof -
  have skip: "effect_ok d (rw_fs w) (Inr None, st, w)"
    using assms by (simp add: effect_ok_def)
  show ?thesis
    using handle_metadata_effect [of d w L r msg st] handle_chunk_effect [OF assms, of msg]
      handle_complete_effect [OF assms] handle_version_effect [OF assms, of L r msg] skip
    by (simp add: handle_msg_def)
qed

definition outcome_ok :: "path \<Rightarrow> filesys \<Rightarrow> (recv_error + path) \<times> reads \<times> recv_world \<Rightarrow> bool" where
  "outcome_ok d fs x =
     (case x of
        (Inl _, _, w') \<Rightarrow> parts_only d fs (rw_fs w')
      | (Inr p, _, w') \<Rightarrow>
          same_except ({q. part_of d q} \<union> {p}) fs (rw_fs w') \<and> \<not> fs_exists fs p \<and>
          part_of d (p @ ''.part'') \<and> fmlookup (fs_files (rw_fs w')) p \<noteq> None)"

lemma outcome_ok_trans: "parts_only d a b \<Longrightarrow> grows a b \<Longrightarrow> outcome_ok d b x \<Longrightarrow> outcome_ok d a x"
  by (auto simp: outcome_ok_def grows_def parts_only_def split: sum.splits prod.splits
      intro: same_except_trans)

lemma recv_loop_outcome:
  "recv_inv d st (rw_fs w) \<Longrightarrow> outcome_ok d (rw_fs w) (recv_loop L r d rds st w)"
proof (induction L r d rds st w rule: recv_loop.induct)
  case (3 L r d msg rest st w)
  have e: "effect_ok d (rw_fs w) (handle_msg L r d msg st w)"
    using "3.prems" by (rule handle_msg_effect)
  obtain res st1 w1 where h: "handle_msg L r d msg st w = (res, st1, w1)"
    by (cases "handle_msg L r d msg st w") auto
  consider (err) x where "res = Inl x" | (fin) p where "res = Inr (Some p)" | (more) "res = Inr None"
    by (metis not_Some_eq sum.exhaust)
  then show ?case
  proof cases
    case more
    with e h have "parts_only d (rw_fs w) (rw_fs w1)" "grows (rw_fs w) (rw_fs w1)"
        "recv_inv d st1 (rw_fs w1)"
      by (auto simp: effect_ok_def)
    with "3.IH" h more show ?thesis
      by (auto intro: outcome_ok_trans)
  qed (use e h in \<open>auto simp: effect_ok_def outcome_ok_def\<close>)
qed (auto simp: outcome_ok_def)

lemma recv_file_loop:
  "recv_file L r d (Some msg) rds w = recv_loop L r d (Inr msg # rds) recv_init w"
  by (simp add: recv_file_def split: prod.splits sum.splits option.splits)

lemma recv_file_outcome: "outcome_ok d (rw_fs w) (recv_file L r d primed rds w)"
proof (cases primed)
  case None
  then show ?thesis
    by (simp add: recv_file_def recv_loop_outcome recv_inv_init)
next
  case (Some msg)
  then show ?thesis
    by (simp add: recv_file_loop recv_loop_outcome recv_inv_init del: recv_loop.simps)
qed

section \<open>Delivery without faults\<close>

lemma os_remove_quiet:
  "fs_faults fs = [] \<Longrightarrow> p |\<notin>| fs_dirs fs \<Longrightarrow>
     snd (os_remove p fs) = fs\<lparr>fs_files := fmdrop p (fs_files fs)\<rparr>"
  by (auto simp: os_remove_def next_fault_none fmdrop_idle)

lemma fmdrop_updated [simp]: "fmdrop p (fmupd p x m) = fmdrop p m"
  by (rule fmap_ext) simp

lemma fmdrop_twice [simp]: "fmdrop p (fmdrop p m) = fmdrop p m"
  by (rule fmap_ext) simp

text \<open>The progress calls of a run of chunks.\<close>

fun chunk_progress :: "int \<Rightarrow> int \<Rightarrow> bytes list \<Rightarrow> (int \<times> int) list" where
  "chunk_progress at sz [] = []"
| "chunk_progress at sz (c # cs) =
     (at + int (length c), sz) # chunk_progress (at + int (length c)) sz cs"

definition file_reads :: "bytes list \<Rightarrow> reads \<Rightarrow> reads" where
  "file_reads cs rest = map (\<lambda>c. Inr (new_chunk_message c)) cs @ Inr new_complete_message # rest"

lemma recv_chunks:
  assumes "fs_faults (rw_fs w) = []" and "rf_file st = Some (rf_part st)" and "rf_part st \<noteq> []"
    and "rf_dest st |\<notin>| fs_dirs (rw_fs w)"
    and "fmlookup (fs_files (rw_fs w)) (rf_part st) = Some old"
  shows "recv_loop L r d (file_reads cs rest) st w =
     (Inr (rf_dest st), rest,
      w\<lparr>rw_fs := (rw_fs w)\<lparr>fs_files :=
             fmupd (rf_dest st) (old @ concat cs) (fmdrop (rf_part st) (fs_files (rw_fs w)))\<rparr>,
        rw_progress := rw_progress w @ chunk_progress (rf_received st) (md_size (rf_metadata st)) cs\<rparr>)"
  using assms
proof (induction cs arbitrary: st w old)
  case Nil
  then show ?case
    by (simp add: file_reads_def handle_msg_def msg_type_defs message_constructors
        handle_complete_def os_rename_def next_fault_none)
next
  case (Cons c cs)
  let ?st = "st\<lparr>rf_received := rf_received st + int (length c)\<rparr>"
  let ?w = "progress_call ?st (w\<lparr>rw_fs := (rw_fs w)\<lparr>fs_files := fmupd (rf_part st) (old @ c) (fs_files (rw_fs w))\<rparr>\<rparr>)"
  have "handle_msg L r d (new_chunk_message c) st w = (Inr None, ?st, ?w)"
    using Cons.prems
    by (simp add: handle_msg_def msg_type_defs message_constructors handle_chunk_def os_append_ok Let_def)
  then have "recv_loop L r d (file_reads (c # cs) rest) st w = recv_loop L r d (file_reads cs rest) ?st ?w"
    by (simp add: file_reads_def)
  also have "\<dots> = (Inr (rf_dest ?st), rest,
      ?w\<lparr>rw_fs := (rw_fs ?w)\<lparr>fs_files :=
             fmupd (rf_dest ?st) ((old @ c) @ concat cs) (fmdrop (rf_part ?st) (fs_files (rw_fs ?w)))\<rparr>,
        rw_progress := rw_progress ?w @ chunk_progress (rf_received ?st) (md_size (rf_metadata ?st)) cs\<rparr>)"
    by (rule Cons.IH) (use Cons.prems in simp_all)
  finally show ?case
    by (simp add: progress_call_def)
qed

text \<open>The world after a file was delivered from the part content \<open>old\<close>.\<close>

definition delivered :: "path \<Rightarrow> bytes \<Rightarrow> bytes list \<Rightarrow> int \<Rightarrow> recv_world \<Rightarrow> recv_world" where
  "delivered dest old cs sz w =
     w\<lparr>rw_fs := (rw_fs w)\<lparr>fs_files :=
           fmupd dest (old @ concat cs) (fmdrop (dest @ ''.part'') (fs_files (rw_fs w)))\<rparr>,
       rw_progress := rw_progress w @ (int (length old), sz) # chunk_progress (int (length old)) sz cs\<rparr>"

definition wants_resume :: "receiver \<Rightarrow> string \<Rightarrow> metadata \<Rightarrow> bool" where
  "wants_resume r n meta \<longleftrightarrow> md_resume_offset meta > 0 \<and>
     (case rc_resume r of None \<Rightarrow> False
      | Some q \<Rightarrow> rr_filename q = n \<and> rr_offset q = md_resume_offset meta)"

lemma recv_loop_delivers:
  assumes "fs_faults (rw_fs w) = []" and m: "lib_unmarshal_meta L p = Some meta"
    and n: "safe_filename (md_filename meta) = Inr n"
    and u: "unique_path (rw_fs w) (join d n) = Some dest"
    and part: "dest @ ''.part'' |\<notin>| fs_dirs (rw_fs w)"
    and old: "if wants_resume r n meta
       then fmlookup (fs_files (rw_fs w)) (dest @ ''.part'') = Some old \<and>
            int (length old) = md_resume_offset meta
       else old = []"
  shows "recv_loop L r d (Inr \<lparr>mtype = MsgTypeMetadata, payload = p\<rparr> # file_reads cs rest) recv_init w =
     (Inr dest, rest, delivered dest old cs (md_size meta) w)"
proof -
  let ?part = "dest @ ''.part''"
  have fresh: "dest |\<notin>| fs_dirs (rw_fs w)" "dest |\<notin>| fmdom (fs_files (rw_fs w))"
    using receiver_name.pick_fresh [OF _ u] by (auto simp: fs_exists_def)
  let ?st = "recv_init\<lparr>rf_metadata := meta, rf_dest := dest, rf_part := ?part,
      rf_file := Some ?part, rf_received := int (length old)\<rparr>"
  define fs1 where "fs1 = (if wants_resume r n meta then rw_fs w
      else (rw_fs w)\<lparr>fs_files := fmupd ?part [] (fmdrop ?part (fs_files (rw_fs w)))\<rparr>)"
  let ?w = "progress_call ?st (w\<lparr>rw_fs := fs1\<rparr>)"
  have "handle_msg L r d \<lparr>mtype = MsgTypeMetadata, payload = p\<rparr> recv_init w = (Inr None, ?st, ?w)"
  proof (cases "wants_resume r n meta")
    case True
    with old have o: "fmlookup (fs_files (rw_fs w)) ?part = Some old"
        "int (length old) = md_resume_offset meta"
      by auto
    from True have r: "0 < md_resume_offset meta"
        "case rc_resume r of None \<Rightarrow> False
         | Some q \<Rightarrow> rr_filename q = n \<and> rr_offset q = md_resume_offset meta"
      by (auto simp: wants_resume_def)
    show ?thesis
      using os_open_append_ok [OF assms(1) part o(1)] r o(2) True
      by (simp add: handle_msg_def handle_metadata_def parse_metadata_def m n u fs1_def Let_def)
  next
    case False
    then have r: "\<not> (0 < md_resume_offset meta \<and> (case rc_resume r of None \<Rightarrow> False
         | Some q \<Rightarrow> rr_filename q = n \<and> rr_offset q = md_resume_offset meta))"
      by (simp add: wants_resume_def)
    have c: "os_create ?part (snd (os_remove ?part (rw_fs w))) = (Inr (), fs1)"
      using False assms(1) part by (simp add: fs1_def os_remove_quiet os_create_ok)
    from False old have "old = []" by simp
    then show ?thesis
      using r c False
      by (simp only: handle_msg_def handle_metadata_def parse_metadata_def m n u message.simps
          option.case sum.case Let_def if_False prod.case simp_thms if_True
          refl) simp
  qed
  then have "recv_loop L r d (Inr \<lparr>mtype = MsgTypeMetadata, payload = p\<rparr> # file_reads cs rest) recv_init w =
      recv_loop L r d (file_reads cs rest) ?st ?w"
    by simp
  also have "\<dots> = (Inr (rf_dest ?st), rest,
      ?w\<lparr>rw_fs := (rw_fs ?w)\<lparr>fs_files :=
             fmupd (rf_dest ?st) (old @ concat cs) (fmdrop (rf_part ?st) (fs_files (rw_fs ?w)))\<rparr>,
        rw_progress := rw_progress ?w @ chunk_progress (rf_received ?st) (md_size (rf_metadata ?st)) cs\<rparr>)"
    by (rule recv_chunks) (use assms(1) fresh old in \<open>auto simp: fs1_def split: if_splits\<close>)
  finally show ?thesis
    by (simp add: delivered_def progress_call_def fs1_def)
qed

section \<open>Sample values for the witnesses\<close>

definition sample_receiver :: receiver where
  "sample_receiver = \<lparr>rc_key = sample_key, rc_resume = None\<rparr>"

definition sample_world :: "filesys \<Rightarrow> recv_world" where
  "sample_world fs = \<lparr>rw_fs = fs, rw_link = sample_link, rw_progress = []\<rparr>"

definition empty_disk :: filesys where
  "empty_disk = \<lparr>fs_files = fmempty, fs_dirs = {|''d''|}, fs_faults = []\<rparr>"

lemma sample_world_fs [simp]: "rw_fs (sample_world fs) = fs" "fs_faults empty_disk = []"
  by (simp_all add: sample_world_def empty_disk_def)

lemma sample_name: "safe_filename ''a.txt'' = Inr ''a.txt''" "base_name ''a.txt'' = ''a.txt''"
    "join ''d'' ''a.txt'' = ''d/a.txt''"
proof -
  show "safe_filename ''a.txt'' = Inr ''a.txt''"
    by (simp add: result_iff plain_name_def char_of_eq_iff)
  then show "base_name ''a.txt'' = ''a.txt''"
    by (simp add: base_name_def)
  show "join ''d'' ''a.txt'' = ''d/a.txt''"
    by (simp add: join_def clean_def rooted_def render_def clean_elems_def clean_step_def)
qed

lemma sample_dest: "unique_path empty_disk ''d/a.txt'' = Some ''d/a.txt''"
  by (simp add: unique_path_def fs_exists_def empty_disk_def)

section \<open>Properties\<close>

text \<open>
  C10: \<open>recvFile\<close> on any input, with any faults of the disk: if it fails, only part files of
  plain names in the destination directory have changed; if it returns a path, this names a
  file that was not there before, it exists now, and apart from it again only part files of
  that directory have changed.
\<close>

theorem recv_file_effects:
  "case recv_file L r d primed rds w of
     (Inl _, _, w') \<Rightarrow> same_except {q. part_of d q} (rw_fs w) (rw_fs w')
   | (Inr p, _, w') \<Rightarrow>
       same_except ({q. part_of d q} \<union> {p}) (rw_fs w) (rw_fs w') \<and> \<not> fs_exists (rw_fs w) p \<and>
       part_of d (p @ ''.part'') \<and> fmlookup (fs_files (rw_fs w')) p \<noteq> None"
  using recv_file_outcome [of d w L r primed rds]
  by (simp add: outcome_ok_def parts_only_def split: prod.splits sum.splits)

text \<open>
  C15: On a disk without faults, metadata with an acceptable name, any chunks and \<open>Complete\<close>
  make exactly one file, under the unique path, holding the chunks in order, after the bytes
  already in the part file when this receiver asked for a resume at that offset; the part
  file is gone, nothing else changed, and the progress function saw every prefix.
\<close>

theorem recv_file_delivers:
  assumes "fs_faults (rw_fs w) = []" and "lib_unmarshal_meta L p = Some meta"
    and "safe_filename (md_filename meta) = Inr n"
    and "unique_path (rw_fs w) (join d n) = Some dest"
    and "dest @ ''.part'' |\<notin>| fs_dirs (rw_fs w)"
    and "if wants_resume r n meta
       then fmlookup (fs_files (rw_fs w)) (dest @ ''.part'') = Some old \<and>
            int (length old) = md_resume_offset meta
       else old = []"
  shows "recv_file L r d (Some \<lparr>mtype = MsgTypeMetadata, payload = p\<rparr>) (file_reads cs rest) w =
     (Inr dest, rest,
      w\<lparr>rw_fs := (rw_fs w)\<lparr>fs_files :=
            fmupd dest (old @ concat cs) (fmdrop (dest @ ''.part'') (fs_files (rw_fs w)))\<rparr>,
        rw_progress := rw_progress w @
            (int (length old), md_size meta) # chunk_progress (int (length old)) (md_size meta) cs\<rparr>)"
  using recv_loop_delivers [OF assms, of cs rest]
  by (simp add: recv_file_loop delivered_def del: recv_loop.simps)

theorem recv_file_delivers_witness:
  "\<exists>w'. recv_file (sample_libs (\<lambda>_. None) (\<lambda>_. Some \<lparr>md_filename = ''a.txt'', md_size = 3, md_chunks = 2,
          md_resume_offset = 0\<rparr>)) sample_receiver ''d''
       (Some \<lparr>mtype = MsgTypeMetadata, payload = [9]\<rparr>) (file_reads [[1, 2], [3]] []) (sample_world empty_disk)
     = (Inr ''d/a.txt'', [], w') \<and>
     fmlookup (fs_files (rw_fs w')) ''d/a.txt'' = Some [1, 2, 3] \<and>
     rw_progress w' = [(0, 3), (2, 3), (3, 3)]"
proof -
  let ?m = "\<lparr>md_filename = ''a.txt'', md_size = 3, md_chunks = 2, md_resume_offset = 0\<rparr>"
  let ?L = "sample_libs (\<lambda>_. None) (\<lambda>_. Some ?m)"
  have "recv_file ?L sample_receiver ''d'' (Some \<lparr>mtype = MsgTypeMetadata, payload = [9]\<rparr>)
      (file_reads [[1, 2], [3]] []) (sample_world empty_disk) =
     (Inr ''d/a.txt'', [],
      (sample_world empty_disk)\<lparr>rw_fs := (rw_fs (sample_world empty_disk))\<lparr>fs_files :=
            fmupd ''d/a.txt'' ([] @ concat [[1, 2], [3]])
              (fmdrop (''d/a.txt'' @ ''.part'') (fs_files (rw_fs (sample_world empty_disk))))\<rparr>,
        rw_progress := rw_progress (sample_world empty_disk) @
            (int (length ([] :: bytes)), md_size ?m) #
            chunk_progress (int (length ([] :: bytes))) (md_size ?m) [[1, 2], [3]]\<rparr>)"
    by (rule recv_file_delivers [where n = "''a.txt''" and old = "[]" and meta = ?m])
      (use sample_name sample_dest in \<open>simp_all add: wants_resume_def empty_disk_def\<close>)
  then show ?thesis by (simp add: sample_world_def)
qed

text \<open>
  When the sender announces itself again in the middle of a file, the receiver closes and
  removes the partial file, answers with \<open>Ready\<close> (one frame, which opens to it) and reports
  the restart, so that the session is opened again; an announcement of another version is an
  error and is not answered.
\<close>

theorem restart_discards_partial:
  assumes "rf_file st = Some (rf_part st)" and "fs_faults (rw_fs w) = []"
    and "rf_part st |\<notin>| fs_dirs (rw_fs w)" and "link_up (rw_link w)" and "length (rc_key r) = KeySize"
    and "secretbox_ok (lib_seal L) (lib_open L)" and "mtype m = MsgTypeVersion"
  shows "case handle_msg L r d m st w of (res, st', w') \<Rightarrow>
     rf_file st' = None \<and>
     rw_fs w' = (rw_fs w)\<lparr>fs_files := fmdrop (rf_part st) (fs_files (rw_fs w))\<rparr> \<and>
     (if payload m \<noteq> [] \<and> payload m ! 0 = ProtocolVersion
      then res = Inl SenderRestarted \<and>
           (\<exists>f. lk_sent (rw_link w') = lk_sent (rw_link w) @ [f] \<and>
              read_signal_msg L (rc_key r) (Frame f) = Inr new_ready_message)
      else res = Inl (VersionMismatch (version_got m)) \<and> rw_link w' = rw_link w)"
proof -
  let ?w1 = "w\<lparr>rw_fs := (rw_fs w)\<lparr>fs_files := fmdrop (rf_part st) (fs_files (rw_fs w))\<rparr>\<rparr>"
  have h: "handle_msg L r d m st w =
      (case re_handshake L r m ?w1 of
         (Inl e, w2) \<Rightarrow> (Inl e, st\<lparr>rf_file := None\<rparr>, w2)
       | (Inr _, w2) \<Rightarrow> (Inl SenderRestarted, st\<lparr>rf_file := None\<rparr>, w2))"
    using assms(1,2,3,7) by (simp add: handle_msg_def handle_version_def msg_type_defs os_remove_quiet Let_def)
  show ?thesis
  proof (cases "version_ok m")
    case True
    obtain l where l: "write_encrypted L (rc_key r) new_ready_message (rw_link w) = (Inr (), l)"
      using write_encrypted_up [OF assms(4,5)] by blast
    have "frameable new_ready_message" by (simp add: frameable_def new_ready_message_def)
    with write_encrypted_Inr [OF l assms(6)] assms(4) obtain f where
        "lk_sent l = lk_sent (rw_link w) @ [f]" "opens_to L (rc_key r) [f] [new_ready_message]"
      by (auto simp: link_up_def)
    with True l show ?thesis
      by (simp add: h re_handshake_def write_signal_msg_eq version_ok_def opens_to_def)
  next
    case False
    then show ?thesis
      by (auto simp: h re_handshake_def version_ok_def)
  qed
qed

theorem restart_discards_partial_witness:
  "let st = recv_init\<lparr>rf_file := Some ''d/a.part'', rf_part := ''d/a.part''\<rparr>;
       w = sample_world (empty_disk\<lparr>fs_files := fmupd ''d/a.part'' [1] fmempty\<rparr>);
       L = sample_libs (\<lambda>_. None) (\<lambda>_. None)
   in case handle_msg L sample_receiver ''d'' new_version_message st w of (res, st', w') \<Rightarrow>
     res = Inl SenderRestarted \<and> fmlookup (fs_files (rw_fs w')) ''d/a.part'' = None \<and>
     (\<exists>f. lk_sent (rw_link w') = [f] \<and> read_signal_msg L sample_key (Frame f) = Inr new_ready_message)"
proof -
  let ?st = "recv_init\<lparr>rf_file := Some ''d/a.part'', rf_part := ''d/a.part''\<rparr>"
  let ?w = "sample_world (empty_disk\<lparr>fs_files := fmupd ''d/a.part'' [1] fmempty\<rparr>)"
  let ?L = "sample_libs (\<lambda>_. None) (\<lambda>_. None)"
  have up: "link_up (rw_link ?w)" by (simp add: sample_world_def)
  have "case handle_msg ?L sample_receiver ''d'' new_version_message ?st ?w of (res, st', w') \<Rightarrow>
     rf_file st' = None \<and>
     rw_fs w' = (rw_fs ?w)\<lparr>fs_files := fmdrop (rf_part ?st) (fs_files (rw_fs ?w))\<rparr> \<and>
     (if payload new_version_message \<noteq> [] \<and> payload new_version_message ! 0 = ProtocolVersion
      then res = Inl SenderRestarted \<and>
           (\<exists>f. lk_sent (rw_link w') = lk_sent (rw_link ?w) @ [f] \<and>
              read_signal_msg ?L (rc_key sample_receiver) (Frame f) = Inr new_ready_message)
      else res = Inl (VersionMismatch (version_got new_version_message)) \<and> rw_link w' = rw_link ?w)"
    by (rule restart_discards_partial [OF _ _ _ up])
      (simp_all add: sample_receiver_def empty_disk_def new_version_message_def)
  then show ?thesis
    by (auto simp: Let_def new_version_message_def sample_world_def sample_link_def sample_receiver_def)
qed

end
