(* ===== verification/Signaling.thy ===== *)
theory Signaling
  imports Link
begin

text \<open>
  \<open>internal/transfer/signaling.go\<close>: the negotiation of a data channel over the relay's
  WebSocket, on both sides.  Each is a loop over a \<open>select\<close>; the order in which its cases
  become ready is a sequence of \<open>neg_event\<close>s, and when that is used up the 15 seconds of
  \<open>NegotiateTimeout\<close> are over.  The WebRTC library is the record \<open>rtc\<close> of the answers it
  gives.  What a negotiation does to its peer is logged, so that leaks can be excluded.
\<close>

section \<open>Definitions\<close>

datatype role = RoleOfferer | RoleAnswerer

record rtc =
  rtc_new_peer :: bool
  rtc_create_offer :: "string option"
  rtc_answer_offer :: "string \<Rightarrow> string option"
  rtc_set_answer :: "string \<Rightarrow> bool"

datatype neg_error =
    NewPeerFailed
  | OnlyOfferer
  | OnlyAnswerer
  | OfferFailed
  | AnswerFailed
  | SignalNotSent send_error
  | ChannelDidNotOpen
  | SignalingClosed
  | ReadSignal read_error
  | SetRemoteAnswerFailed
  | PeerReportedFailure bytes
  | NegotiateTimedOut
  | ErrPeerP2PFail

text \<open>\<open>Peer.CreateOffer\<close> and \<open>Peer.SetRemoteOffer\<close> of \<open>internal/p2p/peer.go\<close>.\<close>

definition create_offer :: "role \<Rightarrow> rtc \<Rightarrow> neg_error + string" where
  "create_offer role R =
     (if role \<noteq> RoleOfferer then Inl OnlyOfferer
      else case rtc_create_offer R of None \<Rightarrow> Inl OfferFailed | Some sdp \<Rightarrow> Inr sdp)"

definition set_remote_offer :: "role \<Rightarrow> rtc \<Rightarrow> string \<Rightarrow> neg_error + string" where
  "set_remote_offer role R sdp =
     (if role \<noteq> RoleAnswerer then Inl OnlyAnswerer
      else case rtc_answer_offer R sdp of None \<Rightarrow> Inl AnswerFailed | Some answer \<Rightarrow> Inr answer)"

text \<open>The reader goroutine: the results it sends, up to and with the first error.\<close>

fun start_ws_reader :: "reads \<Rightarrow> reads" where
  "start_ws_reader [] = []"
| "start_ws_reader (Inl e # rest) = [Inl e]"
| "start_ws_reader (Inr m # rest) = Inr m # start_ws_reader rest"

text \<open>
  One call of the tail reader: the next result of the channel, or \<open>io.EOF\<close> when the goroutine
  has closed it.
\<close>

definition tail_reader :: "reads \<Rightarrow> (read_error + message) \<times> reads" where
  "tail_reader rds = (case rds of [] \<Rightarrow> (Inl ReadEOF, []) | r # rest \<Rightarrow> (r, rest))"

datatype neg_event =
    OpenFired bool
  | ReadsReady
  | CtxDone
  | LocalCandidate bytes

datatype peer_act = SetAnswer string | AddCandidate bytes | ClosePeer

text \<open>The state of a negotiation: the reader's channel, the link and the log.\<close>

record neg =
  ng_reads :: reads
  ng_link :: link
  ng_acts :: "peer_act list"

definition act :: "peer_act \<Rightarrow> neg \<Rightarrow> neg" where
  "act a g = g\<lparr>ng_acts := ng_acts g @ [a]\<rparr>"

definition signal :: "libs \<Rightarrow> bytes \<Rightarrow> message \<Rightarrow> neg \<Rightarrow> (send_error + unit) \<times> neg" where
  "signal L key m g =
     (case write_signal_msg L key m (ng_link g) of (r, l) \<Rightarrow> (r, g\<lparr>ng_link := l\<rparr>))"

fun negotiate_sender_loop ::
  "libs \<Rightarrow> bytes \<Rightarrow> rtc \<Rightarrow> neg_event list \<Rightarrow> neg \<Rightarrow> (neg_error + unit) \<times> neg" where
  "negotiate_sender_loop L key R [] g = (Inl NegotiateTimedOut, act ClosePeer g)"
| "negotiate_sender_loop L key R (OpenFired isOpen # evs) g =
     (if \<not> isOpen then (Inl ChannelDidNotOpen, act ClosePeer g) else (Inr (), g))"
| "negotiate_sender_loop L key R (ReadsReady # evs) g =
     (case ng_reads g of
        [] \<Rightarrow> (Inl SignalingClosed, act ClosePeer g)
      | Inl e # rest \<Rightarrow> (Inl (ReadSignal e), act ClosePeer (g\<lparr>ng_reads := rest\<rparr>))
      | Inr m # rest \<Rightarrow>
          let g1 = g\<lparr>ng_reads := rest\<rparr> in
          if mtype m = MsgTypeSDPAnswer then
            (let sdp = string_of (payload m); g2 = act (SetAnswer sdp) g1 in
             if \<not> rtc_set_answer R sdp then (Inl SetRemoteAnswerFailed, act ClosePeer g2)
             else negotiate_sender_loop L key R evs g2)
          else if mtype m = MsgTypeICECandidate then
            negotiate_sender_loop L key R evs (act (AddCandidate (payload m)) g1)
          else if mtype m = MsgTypeP2PFail then
            (Inl (PeerReportedFailure (payload m)), act ClosePeer g1)
          else negotiate_sender_loop L key R evs g1)"
| "negotiate_sender_loop L key R (CtxDone # evs) g = (Inl NegotiateTimedOut, act ClosePeer g)"
| "negotiate_sender_loop L key R (LocalCandidate raw # evs) g =
     negotiate_sender_loop L key R evs (snd (signal L key (new_ice_candidate_message raw) g))"

definition negotiate_sender ::
  "libs \<Rightarrow> bytes \<Rightarrow> rtc \<Rightarrow> neg_event list \<Rightarrow> neg \<Rightarrow> (neg_error + unit) \<times> neg" where
  "negotiate_sender L key R evs g =
     (if \<not> rtc_new_peer R then (Inl NewPeerFailed, g)
      else case create_offer RoleOfferer R of
        Inl e \<Rightarrow> (Inl e, act ClosePeer g)
      | Inr offer \<Rightarrow>
          (case signal L key (new_sdp_offer_message offer) g of
             (Inl e, g1) \<Rightarrow> (Inl (SignalNotSent e), act ClosePeer g1)
           | (Inr _, g1) \<Rightarrow>
               negotiate_sender_loop L key R evs (g1\<lparr>ng_reads := start_ws_reader (ng_reads g1)\<rparr>)))"

fun negotiate_receiver_loop ::
  "libs \<Rightarrow> bytes \<Rightarrow> bool \<Rightarrow> bool \<Rightarrow> neg_event list \<Rightarrow> neg \<Rightarrow> (neg_error + unit) \<times> neg" where
  "negotiate_receiver_loop L key dcOpen p2pReady [] g =
     (if dcOpen \<and> p2pReady then (Inr (), g) else (Inl ErrPeerP2PFail, act ClosePeer g))"
| "negotiate_receiver_loop L key dcOpen p2pReady (ev # evs) g =
     (if dcOpen \<and> p2pReady then (Inr (), g)
      else case ev of
        OpenFired _ \<Rightarrow> negotiate_receiver_loop L key True p2pReady evs g
      | ReadsReady \<Rightarrow>
          (case ng_reads g of
             [] \<Rightarrow> (Inl SignalingClosed, act ClosePeer g)
           | Inl e # rest \<Rightarrow> (Inl (ReadSignal e), act ClosePeer (g\<lparr>ng_reads := rest\<rparr>))
           | Inr m # rest \<Rightarrow>
               let g1 = g\<lparr>ng_reads := rest\<rparr> in
               if mtype m = MsgTypeICECandidate then
                 negotiate_receiver_loop L key dcOpen p2pReady evs (act (AddCandidate (payload m)) g1)
               else if mtype m = MsgTypeP2PReady then
                 negotiate_receiver_loop L key dcOpen True evs g1
               else if mtype m = MsgTypeP2PFail then (Inl ErrPeerP2PFail, act ClosePeer g1)
               else negotiate_receiver_loop L key dcOpen p2pReady evs g1)
      | CtxDone \<Rightarrow> (Inl ErrPeerP2PFail, act ClosePeer g)
      | LocalCandidate raw \<Rightarrow>
          negotiate_receiver_loop L key dcOpen p2pReady evs
            (snd (signal L key (new_ice_candidate_message raw) g)))"

definition negotiate_receiver ::
  "libs \<Rightarrow> bytes \<Rightarrow> rtc \<Rightarrow> string \<Rightarrow> neg_event list \<Rightarrow> neg \<Rightarrow> (neg_error + unit) \<times> neg" where
  "negotiate_receiver L key R offerSDP evs g =
     (if \<not> rtc_new_peer R then (Inl NewPeerFailed, g)
      else case set_remote_offer RoleAnswerer R offerSDP of
        Inl e \<Rightarrow> (Inl e, act ClosePeer g)
      | Inr answer \<Rightarrow>
          (case signal L key (new_sdp_answer_message answer) g of
             (Inl e, g1) \<Rightarrow> (Inl (SignalNotSent e), act ClosePeer g1)
           | (Inr _, g1) \<Rightarrow>
               negotiate_receiver_loop L key False False evs
                 (g1\<lparr>ng_reads := start_ws_reader (ng_reads g1)\<rparr>)))"

section \<open>What a negotiation leaves behind\<close>

text \<open>
  A failed negotiation whose peer was created ends with closing it, and closes it once; a
  successful one leaves it open.
\<close>

definition peer_released :: "(neg_error + unit) \<times> neg \<Rightarrow> bool" where
  "peer_released x =
     (case x of
        (Inl _, g) \<Rightarrow> ng_acts g \<noteq> [] \<and> last (ng_acts g) = ClosePeer \<and>
          ClosePeer \<notin> set (butlast (ng_acts g))
      | (Inr _, g) \<Rightarrow> ClosePeer \<notin> set (ng_acts g))"

lemma act_acts [simp]: "ng_acts (act a g) = ng_acts g @ [a]" "ng_reads (act a g) = ng_reads g"
    "ng_link (act a g) = ng_link g"
  by (simp_all add: act_def)

lemma signal_frame [simp]: "ng_acts (snd (signal L key m g)) = ng_acts g"
    "ng_reads (snd (signal L key m g)) = ng_reads g"
  by (simp_all add: signal_def split: prod.splits)

lemma released_err [simp]:
  "peer_released (Inl e, act ClosePeer g) \<longleftrightarrow> ClosePeer \<notin> set (ng_acts g)"
  by (simp add: peer_released_def)

lemma released_ok [simp]: "peer_released (Inr u, g) \<longleftrightarrow> ClosePeer \<notin> set (ng_acts g)"
  by (simp add: peer_released_def)

lemma sender_loop_released:
  "ClosePeer \<notin> set (ng_acts g) \<Longrightarrow> peer_released (negotiate_sender_loop L key R evs g)"
  by (induction L key R evs g rule: negotiate_sender_loop.induct)
    (simp_all add: Let_def split: list.split sum.split)

lemma receiver_loop_released:
  "ClosePeer \<notin> set (ng_acts g) \<Longrightarrow> peer_released (negotiate_receiver_loop L key dc rdy evs g)"
  by (induction L key dc rdy evs g rule: negotiate_receiver_loop.induct)
    (simp_all add: Let_def split: list.split sum.split neg_event.split)

lemma sender_loop_open:
  "fst (negotiate_sender_loop L key R evs g) = Inr () \<Longrightarrow> OpenFired True \<in> set evs"
  by (induction L key R evs g rule: negotiate_sender_loop.induct)
    (auto simp: Let_def split: if_splits list.splits sum.splits)

lemma receiver_loop_open:
  "fst (negotiate_receiver_loop L key dc rdy evs g) = Inr () \<Longrightarrow>
     (dc \<or> (\<exists>b. OpenFired b \<in> set evs)) \<and>
     (rdy \<or> (\<exists>m. Inr m \<in> set (ng_reads g) \<and> mtype m = MsgTypeP2PReady))"
proof (induction evs arbitrary: dc rdy g)
  case (Cons ev evs)
  show ?case
  proof (cases "dc \<and> rdy")
    case False
    with Cons.prems show ?thesis
      by (auto simp: Let_def split: if_splits list.splits sum.splits neg_event.splits dest!: Cons.IH)
  qed auto
qed (auto split: if_splits)

lemma signal_new:
  "signal L key m g = (r, g1) \<Longrightarrow> ng_acts g1 = ng_acts g \<and> ng_reads g1 = ng_reads g"
  using signal_frame [of L key m g] by simp

section \<open>Properties\<close>

definition new_neg :: "reads \<Rightarrow> link \<Rightarrow> neg" where
  "new_neg rds l = \<lparr>ng_reads = rds, ng_link = l, ng_acts = []\<rparr>"

text \<open>
  C21: No negotiation leaks its peer connection: whatever the order of events, if it fails
  after the peer was created, closing the peer is its last act and happens once, and if it
  succeeds the peer was not closed.  Both roles call only the operation their role allows.
\<close>

theorem negotiation_releases_peer:
  "(if rtc_new_peer R
    then peer_released (negotiate_sender L key R evs (new_neg rds l)) \<and>
         peer_released (negotiate_receiver L key R sdp evs (new_neg rds l))
    else negotiate_sender L key R evs (new_neg rds l) = (Inl NewPeerFailed, new_neg rds l) \<and>
         negotiate_receiver L key R sdp evs (new_neg rds l) = (Inl NewPeerFailed, new_neg rds l))
   \<and> create_offer RoleAnswerer R = Inl OnlyOfferer \<and> set_remote_offer RoleOfferer R sdp = Inl OnlyAnswerer"
proof -
  have n: "ng_acts (new_neg rds l) = []" by (simp add: new_neg_def)
  have "peer_released (negotiate_sender L key R evs (new_neg rds l))" if "rtc_new_peer R"
    using that n by (auto simp: negotiate_sender_def split: sum.split prod.split
        dest!: signal_new intro!: sender_loop_released)
  moreover have "peer_released (negotiate_receiver L key R sdp evs (new_neg rds l))" if "rtc_new_peer R"
    using that n by (auto simp: negotiate_receiver_def split: sum.split prod.split
        dest!: signal_new intro!: receiver_loop_released)
  ultimately show ?thesis
    by (simp add: negotiate_sender_def negotiate_receiver_def create_offer_def set_remote_offer_def)
qed

text \<open>
  The receiver goes over to the data channel only after the channel's open signal and the
  sender's \<open>P2PReady\<close> have both come, in either order; the sender only after its channel
  really opened.
\<close>

theorem negotiated_only_when_open:
  assumes "fst (negotiate_receiver L key R sdp evs (new_neg rds l)) = Inr ()"
    and "fst (negotiate_sender L key R' evs' g) = Inr ()"
  shows "(\<exists>b. OpenFired b \<in> set evs) \<and> (\<exists>m. Inr m \<in> set rds \<and> mtype m = MsgTypeP2PReady)
     \<and> OpenFired True \<in> set evs'"
proof -
  have st: "Inr m \<in> set (start_ws_reader x) \<Longrightarrow> Inr m \<in> set x" for m and x :: reads
    by (induction x rule: start_ws_reader.induct) auto
  have f: "signal L key m (new_neg rds l) = (r, g1) \<Longrightarrow> ng_reads g1 = rds" for m r g1
    by (drule signal_new) (simp add: new_neg_def)
  from assms(1) obtain m r g1 where "signal L key m (new_neg rds l) = (r, g1)"
    and "fst (negotiate_receiver_loop L key False False evs
          (g1\<lparr>ng_reads := start_ws_reader (ng_reads g1)\<rparr>)) = Inr ()"
    by (auto simp: negotiate_receiver_def split: if_splits sum.splits prod.splits)
  with receiver_loop_open [OF this(2)] f have
    "(\<exists>b. OpenFired b \<in> set evs) \<and> (\<exists>m. Inr m \<in> set rds \<and> mtype m = MsgTypeP2PReady)"
    by (auto dest: st)
  moreover have "OpenFired True \<in> set evs'"
    using assms(2) by (auto simp: negotiate_sender_def split: if_splits sum.splits prod.splits
        dest: sender_loop_open)
  ultimately show ?thesis by blast
qed

theorem negotiated_only_when_open_witness:
  "(\<exists>b. OpenFired b \<in> set [ReadsReady, OpenFired True]) \<and>
   (\<exists>m. Inr m \<in> set ([Inr new_p2p_ready_message] :: reads) \<and> mtype m = MsgTypeP2PReady) \<and>
   OpenFired True \<in> set [OpenFired True]"
proof -
  let ?L = "sample_libs (\<lambda>_. None) (\<lambda>_. None)"
  let ?R = "\<lparr>rtc_new_peer = True, rtc_create_offer = Some ''o'', rtc_answer_offer = (\<lambda>_. Some ''a''),
      rtc_set_answer = (\<lambda>_. True)\<rparr>"
  let ?g = "new_neg [Inr new_p2p_ready_message] sample_link"
  let ?ev = "[ReadsReady, OpenFired True]"
  obtain l l' where w:
      "write_signal_msg ?L sample_key (new_sdp_answer_message ''a'') sample_link = (Inr (), l)"
      "write_signal_msg ?L sample_key (new_sdp_offer_message ''o'') sample_link = (Inr (), l')"
    using sample_write by metis
  note defs = set_remote_offer_def create_offer_def signal_def new_neg_def new_p2p_ready_message_def
    msg_type_defs
  have "fst (negotiate_receiver ?L sample_key ?R ''s'' ?ev ?g) = Inr ()"
    using w by (simp add: negotiate_receiver_def defs)
  moreover have "fst (negotiate_sender ?L sample_key ?R [OpenFired True] ?g) = Inr ()"
    using w by (simp add: negotiate_sender_def defs)
  ultimately show ?thesis
    by (rule negotiated_only_when_open)
qed

end
