(* ===== verification/Sha256.thy ===== *)
theory Sha256
  imports Wire
begin

unbundle bit_operations_syntax

text \<open>
  \<open>crypto/sha256\<close> and \<open>encoding/hex\<close> of the Go library, which the program uses for the room
  token and key of a passphrase and for the prefix hash of a resumed file.  The words are
  32-bit and their sums wrap.
\<close>

section \<open>Definitions\<close>

text \<open>The first 32 fractional bits of the square roots of the first 8 primes, and of the cube
  roots of the first 64, in decimal.\<close>

definition sha_init :: "32 word list" where
  "sha_init =
     [1779033703, 3144134277, 1013904242, 2773480762] @
     [1359893119, 2600822924, 528734635, 1541459225]"

definition sha_k :: "32 word list" where
  "sha_k =
     [1116352408, 1899447441, 3049323471, 3921009573] @
     [961987163, 1508970993, 2453635748, 2870763221] @
     [3624381080, 310598401, 607225278, 1426881987] @
     [1925078388, 2162078206, 2614888103, 3248222580] @
     [3835390401, 4022224774, 264347078, 604807628] @
     [770255983, 1249150122, 1555081692, 1996064986] @
     [2554220882, 2821834349, 2952996808, 3210313671] @
     [3336571891, 3584528711, 113926993, 338241895] @
     [666307205, 773529912, 1294757372, 1396182291] @
     [1695183700, 1986661051, 2177026350, 2456956037] @
     [2730485921, 2820302411, 3259730800, 3345764771] @
     [3516065817, 3600352804, 4094571909, 275423344] @
     [430227734, 506948616, 659060556, 883997877] @
     [958139571, 1322822218, 1537002063, 1747873779] @
     [1955562222, 2024104815, 2227730452, 2361852424] @
     [2428436474, 2756734187, 3204031479, 3329325298]"

definition rotr :: "nat \<Rightarrow> 32 word \<Rightarrow> 32 word" where
  "rotr n x = drop_bit n x OR push_bit (32 - n) x"

definition sigma0 :: "32 word \<Rightarrow> 32 word" where
  "sigma0 x = rotr 7 x XOR rotr 18 x XOR drop_bit 3 x"

definition sigma1 :: "32 word \<Rightarrow> 32 word" where
  "sigma1 x = rotr 17 x XOR rotr 19 x XOR drop_bit 10 x"

definition big_sigma0 :: "32 word \<Rightarrow> 32 word" where
  "big_sigma0 x = rotr 2 x XOR rotr 13 x XOR rotr 22 x"

definition big_sigma1 :: "32 word \<Rightarrow> 32 word" where
  "big_sigma1 x = rotr 6 x XOR rotr 11 x XOR rotr 25 x"

text \<open>The padding: a one bit, zeros up to 56 modulo 64 and the length in bits.\<close>

definition sha_pad :: "bytes \<Rightarrow> bytes" where
  "sha_pad m =
     m @ [0x80] @ replicate ((119 - length m mod 64) mod 64) 0 @ put64 (word_of_nat (8 * length m))"

text \<open>The message schedule, built backwards: the newest word is the head.\<close>

fun extend_schedule :: "nat \<Rightarrow> 32 word list \<Rightarrow> 32 word list" where
  "extend_schedule 0 ws = ws"
| "extend_schedule (Suc n) ws =
     extend_schedule n ((sigma1 (ws ! 1) + ws ! 6 + sigma0 (ws ! 14) + ws ! 15) # ws)"

fun words_of :: "bytes \<Rightarrow> 32 word list" where
  "words_of (a # b # c # d # rest) = get32 [a, b, c, d] # words_of rest"
| "words_of _ = []"

definition schedule :: "bytes \<Rightarrow> 32 word list" where
  "schedule block = rev (extend_schedule 48 (rev (words_of block)))"

definition sha_round :: "32 word list \<Rightarrow> 32 word \<times> 32 word \<Rightarrow> 32 word list" where
  "sha_round s kw =
     (case s of
        [a, b, c, d, e, f, g, h] \<Rightarrow>
          (let t1 = h + big_sigma1 e + ((e AND f) XOR (NOT e AND g)) + fst kw + snd kw;
               t2 = big_sigma0 a + ((a AND b) XOR (a AND c) XOR (b AND c))
           in [t1 + t2, a, b, c, d + t1, e, f, g])
      | _ \<Rightarrow> s)"

definition sha_block :: "32 word list \<Rightarrow> bytes \<Rightarrow> 32 word list" where
  "sha_block s block = map2 (+) s (foldl sha_round s (zip sha_k (schedule block)))"

fun blocks :: "nat \<Rightarrow> bytes \<Rightarrow> bytes list" where
  "blocks 0 m = []"
| "blocks (Suc n) m = take 64 m # blocks n (drop 64 m)"

definition sha256 :: "bytes \<Rightarrow> bytes" where
  "sha256 m =
     (let p = sha_pad m
      in concat (map put32 (foldl sha_block sha_init (blocks (length p div 64) p))))"

text \<open>\<open>hex.EncodeToString\<close>, lower case.\<close>

definition hex_digits :: string where "hex_digits = ''0123456789abcdef''"

definition hex_byte :: "byte \<Rightarrow> string" where
  "hex_byte b = [hex_digits ! (unat b div 16), hex_digits ! (unat b mod 16)]"

definition hex_encode :: "bytes \<Rightarrow> string" where
  "hex_encode bs = concat (map hex_byte bs)"

section \<open>Sizes\<close>

lemma length_pad: "length (sha_pad m) mod 64 = 0"
proof -
  define r where "r = length m mod 64"
  have r: "r < 64" by (simp add: r_def)
  have "(r + (9 + (119 - r) mod 64)) mod 64 = 0"
  proof (cases "r \<le> 55")
    case True
    then have "(119 - r) mod 64 = 55 - r"
      by (subst mod_if) (auto simp: le_mod_geq)
    with True show ?thesis by simp
  next
    case False
    with r have "(119 - r) mod 64 = 119 - r" by simp
    with False r show ?thesis by simp
  qed
  then have "(length m + (9 + (119 - r) mod 64)) mod 64 = 0"
    by (simp only: r_def mod_add_left_eq)
  moreover have "length (sha_pad m) = length m + (9 + (119 - r) mod 64)"
    by (simp add: sha_pad_def r_def)
  ultimately show ?thesis by (simp only:)
qed

lemma length_sha_round: "length s = 8 \<Longrightarrow> length (sha_round s kw) = 8"
  by (auto simp: sha_round_def Let_def split: list.splits)

lemma length_sha_rounds: "length s = 8 \<Longrightarrow> length (foldl sha_round s kws) = 8"
  by (induction kws arbitrary: s) (simp_all add: length_sha_round)

lemma length_sha_blocks: "length s = 8 \<Longrightarrow> length (foldl sha_block s bs) = 8"
  by (induction bs arbitrary: s) (simp_all add: sha_block_def length_sha_rounds)

lemma length_concat_put32: "length (concat (map put32 ws)) = 4 * length ws"
  by (induction ws) simp_all

lemma length_sha256 [simp]: "length (sha256 m) = 32"
  by (simp add: sha256_def Let_def length_concat_put32 length_sha_blocks sha_init_def)

lemma length_hex_encode [simp]: "length (hex_encode bs) = 2 * length bs"
  by (induction bs) (simp_all add: hex_encode_def hex_byte_def)

lemma hex_byte_chars: "set (hex_byte b) \<subseteq> set hex_digits"
proof -
  have "unat b < 256"
    using unsigned_less [of b, where ?'a = nat] by simp
  then have "unat b div 16 < length hex_digits" "unat b mod 16 < length hex_digits"
    by (auto simp: hex_digits_def)
  then show ?thesis by (auto simp only: hex_byte_def list.set intro: nth_mem)
qed

lemma hex_encode_chars: "set (hex_encode bs) \<subseteq> set hex_digits"
  using hex_byte_chars by (fastforce simp: hex_encode_def)

lemma hex_byte_inject [simp]: "hex_byte a = hex_byte b \<longleftrightarrow> a = b"
proof
  assume h: "hex_byte a = hex_byte b"
  have lt: "unat x < 256" for x :: byte
    using unsigned_less [of x, where ?'a = nat] by simp
  have ix: "hex_digits ! i = hex_digits ! j \<longleftrightarrow> i = j" if "i < 16" "j < 16" for i j
    by (rule nth_eq_iff_index_eq) (use that in \<open>simp_all add: hex_digits_def\<close>)
  have "unat a div 16 = unat b div 16" "unat a mod 16 = unat b mod 16"
    using h lt [of a] lt [of b] by (auto simp: hex_byte_def ix less_mult_imp_div_less)
  then have "unat a = unat b"
    by (metis div_mult_mod_eq)
  then show "a = b" by (simp only: word_unat_eq_iff)
qed simp

lemma hex_encode_inject [simp]: "hex_encode a = hex_encode b \<longleftrightarrow> a = b"
proof
  show "hex_encode a = hex_encode b \<Longrightarrow> a = b"
  proof (induction a arbitrary: b)
    case Nil
    then show ?case by (cases b) (simp_all add: hex_encode_def hex_byte_def)
  next
    case (Cons x a)
    then obtain y c where "b = y # c"
      by (cases b) (simp_all add: hex_encode_def hex_byte_def)
    with Cons.prems have "hex_byte x @ hex_encode a = hex_byte y @ hex_encode c"
      by (simp add: hex_encode_def)
    moreover have "length (hex_byte x) = length (hex_byte y)"
      by (simp add: hex_byte_def)
    ultimately have "hex_byte x = hex_byte y" "hex_encode a = hex_encode c"
      using append_eq_append_conv [of "hex_byte x" "hex_byte y"] by blast+
    with Cons.IH \<open>b = y # c\<close> show ?case by simp
  qed
qed simp

end
