(* ===== verification/Sender.thy ===== *)
theory Sender
  imports Signaling FileSys Sha256
begin

text \<open>
  \<open>internal/transfer/sender.go\<close>.  The record \<open>sender\<close> is the struct \<open>Sender\<close> with what its
  methods act on: the connection to the relay (what is written, \<open>sn_conn\<close>, and the results
  of reading it, \<open>sn_in\<close>), the open data channel, the files, the progress calls and the
  peers it closed.
\<close>

section \<open>Definitions\<close>

definition ChunkSize :: int where "ChunkSize = 64 * 1024"

datatype sender_transport = TransportIdle | TransportP2P | TransportWS

record sender =
  sn_key :: bytes
  sn_conn :: link
  sn_in :: reads
  sn_peer :: "link option"
  sn_transport :: sender_transport
  sn_pending :: "resume_request option"
  sn_fs :: filesys
  sn_limits :: "nat list"
  sn_dir_size :: int
  sn_progress :: "(nat \<times> int \<times> int) list"
  sn_closed :: "link list"

datatype sender_error =
    DialFailed
  | SendVersion send_error
  | WaitingForPeer read_error
  | ParseResumeRequest
  | PeerVersionMismatch byte
  | WaitingForReceiver read_error
  | UnexpectedType byte
  | NoFilesToSend
  | P2PTransportClosed
  | SignalP2PReady send_error
  | OpenFile os_error
  | StatFile os_error
  | MarshalMetadata
  | SendMetadata send_error
  | SendChunk send_error
  | ReadFile os_error
  | SendComplete send_error
  | SendSessionEnd send_error

datatype wire = WSWire | PeerWire

text \<open>\<open>writeEncrypted\<close> on the wire that \<open>negotiateOrReuse\<close> returned.\<close>

definition send_on :: "libs \<Rightarrow> wire \<Rightarrow> message \<Rightarrow> sender \<Rightarrow> (send_error + unit) \<times> sender" where
  "send_on L wire m s =
     (case wire of
        WSWire \<Rightarrow>
          (case write_encrypted L (sn_key s) m (sn_conn s) of (r, l) \<Rightarrow> (r, s\<lparr>sn_conn := l\<rparr>))
      | PeerWire \<Rightarrow>
          (case sn_peer s of
             None \<Rightarrow> (Inl LinkDown, s)
           | Some p \<Rightarrow>
               (case write_encrypted L (sn_key s) m p of (r, l) \<Rightarrow> (r, s\<lparr>sn_peer := Some l\<rparr>))))"

definition on_fs :: "(filesys \<Rightarrow> 'r \<times> filesys) \<Rightarrow> sender \<Rightarrow> 'r \<times> sender" where
  "on_fs f s = (case f (sn_fs s) of (r, fs) \<Rightarrow> (r, s\<lparr>sn_fs := fs\<rparr>))"

text \<open>\<open>filePrefixHash\<close>, shared with the receiver: \<open>io.CopyN\<close> fails at an early end of file.\<close>

definition file_prefix_hash :: "path \<Rightarrow> int \<Rightarrow> filesys \<Rightarrow> (os_error + string) \<times> filesys" where
  "file_prefix_hash p n fs =
     (case os_open p fs of
        (Inl e, fs1) \<Rightarrow> (Inl e, fs1)
      | (Inr src, fs1) \<Rightarrow>
          (case next_fault fs1 of
             (Some _, fs2) \<Rightarrow> (Inl IOError, fs2)
           | (None, fs2) \<Rightarrow>
               (case src of
                  None \<Rightarrow> (Inl IsDirectory, fs2)
                | Some c \<Rightarrow>
                    if int (length c) < n then (Inl IOError, fs2)
                    else (Inr (hex_encode (sha256 (take (nat n) c))), fs2))))"

definition progress_at :: "nat \<Rightarrow> int \<Rightarrow> int \<Rightarrow> sender \<Rightarrow> sender" where
  "progress_at i sent total_size s = s\<lparr>sn_progress := sn_progress s @ [(i, sent, total_size)]\<rparr>"

definition file_read :: "bytes option \<Rightarrow> sender \<Rightarrow> (bytes \<times> read_end) \<times> sender" where
  "file_read src s =
     (case os_read src (nat ChunkSize) (sn_limits s) (sn_fs s) of
        (r, ls, fs) \<Rightarrow> (r, s\<lparr>sn_limits := ls, sn_fs := fs\<rparr>))"

text \<open>The read loop of \<open>streamFile\<close>; \<open>src\<close> is what is left of the file.\<close>

function send_loop ::
  "libs \<Rightarrow> wire \<Rightarrow> nat \<Rightarrow> int \<Rightarrow> bytes option \<Rightarrow> int \<Rightarrow> sender \<Rightarrow> (sender_error + unit) \<times> sender" where
  "send_loop L wire i fileSize src sent s =
     (case file_read src s of
        ((d, e), s1) \<Rightarrow>
          (case (if d = [] then (Inr (), s1)
                 else case send_on L wire (new_chunk_message d) s1 of
                   (Inl x, s2) \<Rightarrow> (Inl (SendChunk x), s2)
                 | (Inr _, s2) \<Rightarrow> (Inr (), progress_at i (sent + int (length d)) fileSize s2)) of
             (Inl x, s3) \<Rightarrow> (Inl x, s3)
           | (Inr _, s3) \<Rightarrow>
               (case e of
                  AtEOF \<Rightarrow> (Inr (), s3)
                | ReadErr x \<Rightarrow> (Inl (ReadFile x), s3)
                | MoreData \<Rightarrow>
                    send_loop L wire i fileSize (map_option (drop (length d)) src)
                      (sent + int (length d)) s3)))"
  by pat_completeness auto

termination
proof (relation "measure (\<lambda>(_, _, _, _, src, _, _). case src of None \<Rightarrow> 0 | Some r \<Rightarrow> length r)",
    goal_cases)
  case (2 L wire i fileSize src sent s a b d e)
  then obtain ls fs where "os_read src (nat ChunkSize) (sn_limits s) (sn_fs s) = ((d, MoreData), ls, fs)"
    by (auto simp: file_read_def split: prod.splits)
  then have "\<exists>t. src = Some (d @ t) \<and> d \<noteq> [] \<and> length d \<le> nat ChunkSize"
    by (rule os_read_more) (simp add: ChunkSize_def)
  then show ?case
    by auto
qed simp

declare send_loop.simps [simp del]

text \<open>The position that a resume request is granted; 0 sends the file from the start.\<close>

definition resume_offset ::
  "resume_request option \<Rightarrow> path \<Rightarrow> int \<Rightarrow> sender \<Rightarrow> int \<times> sender" where
  "resume_offset resume filePath fileSize s =
     (case resume of
        None \<Rightarrow> (0, s)
      | Some q \<Rightarrow>
          if rr_filename q = base_name filePath \<and> rr_offset q > 0 \<and> rr_offset q \<le> fileSize \<and>
             rr_offset q mod ChunkSize = 0 then
            (case on_fs (file_prefix_hash filePath (rr_offset q)) s of
               (Inl _, s1) \<Rightarrow> (0, s1)
             | (Inr hash, s1) \<Rightarrow>
                 if hash = rr_prefix_hash q then
                   (case on_fs os_seek s1 of
                      (Inl _, s2) \<Rightarrow> (0, s2)
                    | (Inr _, s2) \<Rightarrow> (rr_offset q, s2))
                 else (0, s1))
          else (0, s))"

definition total_chunks :: "int \<Rightarrow> int" where
  "total_chunks fileSize = (fileSize + ChunkSize - 1) div ChunkSize"

text \<open>What \<open>streamFile\<close> does once the offset is known.\<close>

definition send_body ::
  "libs \<Rightarrow> wire \<Rightarrow> nat \<Rightarrow> path \<Rightarrow> int \<Rightarrow> int \<Rightarrow> bytes option \<Rightarrow> sender \<Rightarrow> (sender_error + unit) \<times> sender" where
  "send_body L wire i p n off src s3 =
     (case new_metadata_message_with_resume (lib_marshal_meta L) (base_name p) n (total_chunks n) off of
        None \<Rightarrow> (Inl MarshalMetadata, s3)
      | Some metaMsg \<Rightarrow>
         (case send_on L wire metaMsg s3 of
            (Inl e, s4) \<Rightarrow> (Inl (SendMetadata e), s4)
          | (Inr _, s4) \<Rightarrow>
              (case send_loop L wire i n src off (if off > 0 then progress_at i off n s4 else s4) of
                 (Inl e, s6) \<Rightarrow> (Inl e, s6)
               | (Inr _, s6) \<Rightarrow>
                   (case send_on L wire new_complete_message s6 of
                      (Inl e, s7) \<Rightarrow> (Inl (SendComplete e), s7)
                    | (Inr _, s7) \<Rightarrow> (Inr (), s7)))))"

definition stream_file ::
  "libs \<Rightarrow> wire \<Rightarrow> nat \<Rightarrow> path \<Rightarrow> sender \<Rightarrow> (sender_error + unit) \<times> sender" where
  "stream_file L wire i filePath s0 =
     (let resume = sn_pending s0;
          s = s0\<lparr>sn_pending := None\<rparr>
      in case on_fs (os_open filePath) s of
           (Inl e, s1) \<Rightarrow> (Inl (OpenFile e), s1)
         | (Inr src, s1) \<Rightarrow>
             (case on_fs (os_stat_size (sn_dir_size s1) src) s1 of
                (Inl e, s2) \<Rightarrow> (Inl (StatFile e), s2)
              | (Inr fileSize, s2) \<Rightarrow>
                  (case resume_offset resume filePath fileSize s2 of
                     (offset, s3) \<Rightarrow>
                       send_body L wire i filePath fileSize offset (map_option (drop (nat offset)) src) s3)))"

text \<open>Closing the peer (after \<open>WaitDrain\<close>, which changes no state).\<close>

definition close_peer :: "sender \<Rightarrow> sender" where
  "close_peer s =
     s\<lparr>sn_closed := sn_closed s @ (case sn_peer s of None \<Rightarrow> [] | Some p \<Rightarrow> [p]), sn_peer := None\<rparr>"

definition close_transport :: "sender \<Rightarrow> sender" where
  "close_transport s =
     (let s1 = (case sn_peer s of None \<Rightarrow> s | Some _ \<Rightarrow> close_peer s)
      in if sn_transport s1 = TransportP2P then s1\<lparr>sn_transport := TransportIdle\<rparr> else s1)"

text \<open>
  What the next negotiation meets: the WebRTC library, the order of events, and the link of
  the data channel if it opens, and the text of an error.
\<close>

record negotiation =
  nt_rtc :: rtc
  nt_events :: "neg_event list"
  nt_channel :: link
  nt_text :: "neg_error \<Rightarrow> string"

definition negotiate_or_reuse ::
  "libs \<Rightarrow> negotiation \<Rightarrow> sender \<Rightarrow> (sender_error + wire) \<times> sender" where
  "negotiate_or_reuse L N s =
     (case sn_transport s of
        TransportP2P \<Rightarrow>
          if sn_peer s = None then (Inl P2PTransportClosed, s) else (Inr PeerWire, s)
      | TransportWS \<Rightarrow> (Inr WSWire, s)
      | TransportIdle \<Rightarrow>
          (case negotiate_sender L (sn_key s) (nt_rtc N) (nt_events N) (new_neg (sn_in s) (sn_conn s)) of
             (Inr _, g) \<Rightarrow>
               (let s1 = s\<lparr>sn_in := ng_reads g, sn_conn := ng_link g\<rparr>
                in case write_signal_msg L (sn_key s) new_p2p_ready_message (sn_conn s1) of
                     (Inl e, l) \<Rightarrow>
                       (Inl (SignalP2PReady e),
                        s1\<lparr>sn_conn := l, sn_closed := sn_closed s1 @ [nt_channel N],
                           sn_peer := None, sn_transport := TransportIdle\<rparr>)
                   | (Inr _, l) \<Rightarrow>
                       (Inr PeerWire,
                        s1\<lparr>sn_conn := l, sn_peer := Some (nt_channel N), sn_transport := TransportP2P\<rparr>))
           | (Inl e, g) \<Rightarrow>
               (let s1 = s\<lparr>sn_in := ng_reads g, sn_conn := ng_link g\<rparr>;
                    l = snd (write_signal_msg L (sn_key s) (new_p2p_fail_message (nt_text N e)) (sn_conn s1))
                in (Inr WSWire, s1\<lparr>sn_conn := l, sn_transport := TransportWS\<rparr>))))"

text \<open>The loop of \<open>SendBatch\<close> over the paths, with the index that the progress calls get.\<close>

fun send_paths ::
  "libs \<Rightarrow> wire \<Rightarrow> nat \<Rightarrow> path list \<Rightarrow> sender \<Rightarrow> (sender_error + unit) \<times> sender" where
  "send_paths L wire i [] s = (Inr (), s)"
| "send_paths L wire i (p # ps) s =
     (case stream_file L wire i p s of
        (Inl e, s1) \<Rightarrow>
          (Inl e, if sn_transport s1 = TransportP2P \<and> sn_peer s1 \<noteq> None
                  then (close_peer s1)\<lparr>sn_transport := TransportIdle\<rparr> else s1)
      | (Inr _, s1) \<Rightarrow> send_paths L wire (Suc i) ps s1)"

definition send_batch ::
  "libs \<Rightarrow> negotiation \<Rightarrow> path list \<Rightarrow> sender \<Rightarrow> (sender_error + unit) \<times> sender" where
  "send_batch L N paths s =
     (if paths = [] then (Inl NoFilesToSend, s)
      else case negotiate_or_reuse L N s of
        (Inl e, s1) \<Rightarrow> (Inl e, s1)
      | (Inr wire, s1) \<Rightarrow>
          (case send_paths L wire 0 paths s1 of
             (Inl e, s2) \<Rightarrow> (Inl e, s2)
           | (Inr _, s2) \<Rightarrow>
               (case send_on L wire new_session_end_message s2 of
                  (Inl e, s3) \<Rightarrow>
                    (Inl (SendSessionEnd e),
                     if sn_transport s2 = TransportP2P \<and> sn_peer s2 \<noteq> None
                     then (close_peer s3)\<lparr>sn_transport := TransportIdle\<rparr> else s3)
                | (Inr _, s3) \<Rightarrow> (Inr (), s3))))"

definition send_files ::
  "libs \<Rightarrow> negotiation \<Rightarrow> path list \<Rightarrow> sender \<Rightarrow> (sender_error + unit) \<times> sender" where
  "send_files L N paths s =
     (case send_batch L N paths s of
        (Inl e, s1) \<Rightarrow> (Inl e, s1)
      | (Inr _, s1) \<Rightarrow> (Inr (), close_transport s1))"

definition send_file ::
  "libs \<Rightarrow> negotiation \<Rightarrow> path \<Rightarrow> sender \<Rightarrow> (sender_error + unit) \<times> sender" where
  "send_file L N filePath s = send_files L N [filePath] s"

text \<open>\<open>Close\<close>, up to the connection itself.\<close>

definition close_sender :: "sender \<Rightarrow> sender" where
  "close_sender s = (close_transport s)\<lparr>sn_transport := TransportIdle\<rparr>"

text \<open>\<open>Connect\<close> and \<open>ConnectLive\<close>; \<open>dialed\<close> is what the dial gives.\<close>

definition sender_connect ::
  "libs \<Rightarrow> (link \<times> reads) option \<Rightarrow> sender \<Rightarrow> (sender_error + unit) \<times> sender" where
  "sender_connect L dialed s =
     (case dialed of
        None \<Rightarrow> (Inl DialFailed, s)
      | Some (l, rds) \<Rightarrow>
          (case write_encrypted L (sn_key s) new_version_message l of
             (Inl e, l1) \<Rightarrow> (Inl (SendVersion e), s\<lparr>sn_conn := l1, sn_in := rds\<rparr>)
           | (Inr _, l1) \<Rightarrow> (Inr (), s\<lparr>sn_conn := l1, sn_in := rds\<rparr>)))"

definition sender_connect_live ::
  "(link \<times> reads) option \<Rightarrow> sender \<Rightarrow> (sender_error + unit) \<times> sender" where
  "sender_connect_live dialed s =
     (case dialed of
        None \<Rightarrow> (Inl DialFailed, s)
      | Some (l, rds) \<Rightarrow> (Inr (), s\<lparr>sn_conn := l, sn_in := rds\<rparr>))"

fun wait_for_peer_loop ::
  "libs \<Rightarrow> reads \<Rightarrow> resume_request option \<Rightarrow>
     (sender_error + unit) \<times> reads \<times> resume_request option" where
  "wait_for_peer_loop L [] q = (Inl (WaitingForPeer ReadTimeout), [], q)"
| "wait_for_peer_loop L (Inl e # rest) q = (Inl (WaitingForPeer e), rest, q)"
| "wait_for_peer_loop L (Inr msg # rest) q =
     (if mtype msg = MsgTypeResumeRequest then
        (case parse_resume_request (lib_unmarshal_resume L) (payload msg) of
           None \<Rightarrow> (Inl ParseResumeRequest, rest, q)
         | Some req \<Rightarrow> wait_for_peer_loop L rest (Some req))
      else if mtype msg = MsgTypePeerJoin then
        (if length (payload msg) = 0 \<or> payload msg ! 0 \<noteq> ProtocolVersion then
           (Inl (PeerVersionMismatch (if length (payload msg) > 0 then payload msg ! 0 else 0)), rest, q)
         else (Inr (), rest, q))
      else wait_for_peer_loop L rest q)"

definition wait_for_peer :: "libs \<Rightarrow> sender \<Rightarrow> (sender_error + unit) \<times> sender" where
  "wait_for_peer L s =
     (case wait_for_peer_loop L (sn_in s) (sn_pending s) of
        (r, rest, q) \<Rightarrow> (r, s\<lparr>sn_in := rest, sn_pending := q\<rparr>))"

definition wait_for_receiver :: "sender \<Rightarrow> (sender_error + unit) \<times> sender" where
  "wait_for_receiver s =
     (case sn_in s of
        [] \<Rightarrow> (Inl (WaitingForReceiver ReadTimeout), s)
      | Inl e # rest \<Rightarrow> (Inl (WaitingForReceiver e), s\<lparr>sn_in := rest\<rparr>)
      | Inr msg # rest \<Rightarrow>
          (if mtype msg \<noteq> MsgTypeReady then (Inl (UnexpectedType (mtype msg)), s\<lparr>sn_in := rest\<rparr>)
           else (Inr (), s\<lparr>sn_in := rest\<rparr>)))"

end
