(* ===== verification/SenderWire.thy ===== *)
theory SenderWire
  imports Sender
begin

text \<open>
  What a sender puts on its wire: the messages the other end opens, chunk by chunk, file by file and batch by
  batch, on every outcome.
\<close>

section \<open>The messages a wire carries\<close>

definition wire_link :: "wire \<Rightarrow> sender \<Rightarrow> link option" where
  "wire_link wire s = (case wire of WSWire \<Rightarrow> Some (sn_conn s) | PeerWire \<Rightarrow> sn_peer s)"

text \<open>\<open>carries L wire s s' ms\<close>: going from \<open>s\<close> to \<open>s'\<close> put frames on the wire that the other
  end opens to exactly the messages \<open>ms\<close>.\<close>

definition carries :: "libs \<Rightarrow> wire \<Rightarrow> sender \<Rightarrow> sender \<Rightarrow> message list \<Rightarrow> bool" where
  "carries L wire s s' ms \<longleftrightarrow>
     sn_key s' = sn_key s \<and>
     (\<exists>l l' fr. wire_link wire s = Some l \<and> wire_link wire s' = Some l' \<and>
        lk_rand l' = lk_rand l \<and> lk_up l' = lk_up l \<and>
        lk_sent l' = lk_sent l @ fr \<and> opens_to L (sn_key s) fr ms)"

definition wire_ok :: "wire \<Rightarrow> sender \<Rightarrow> bool" where
  "wire_ok wire s \<longleftrightarrow> (case wire_link wire s of None \<Rightarrow> False | Some l \<Rightarrow> nonces_ok l)"

definition wire_up :: "wire \<Rightarrow> sender \<Rightarrow> bool" where
  "wire_up wire s \<longleftrightarrow>
     length (sn_key s) = KeySize \<and> (case wire_link wire s of None \<Rightarrow> False | Some l \<Rightarrow> link_up l)"

definition sound :: "libs \<Rightarrow> bool" where
  "sound L \<longleftrightarrow> secretbox_ok (lib_seal L) (lib_open L)"

lemma carries_trans:
  "carries L wire a b ms \<Longrightarrow> carries L wire b c ns \<Longrightarrow> carries L wire a c (ms @ ns)"
  unfolding carries_def by (fastforce intro: opens_to_append)

lemma carries_ok: "carries L wire s s' ms \<Longrightarrow> wire_ok wire s \<Longrightarrow> wire_ok wire s'"
  by (auto simp: carries_def wire_ok_def nonces_ok_def)

lemma carries_up: "carries L wire s s' ms \<Longrightarrow> wire_up wire s \<Longrightarrow> wire_up wire s'"
  by (auto simp: carries_def wire_up_def link_up_def nonces_ok_def)

lemma carries_none:
  "wire_ok wire s \<Longrightarrow> wire_link wire s' = wire_link wire s \<Longrightarrow> sn_key s' = sn_key s \<Longrightarrow>
     carries L wire s s' []"
  by (auto simp: carries_def wire_ok_def opens_to_def split: option.splits)

lemma carries_same:
  "carries L wire s s1 ms \<Longrightarrow> wire_link wire s' = wire_link wire s1 \<Longrightarrow> sn_key s' = sn_key s1 \<Longrightarrow>
     carries L wire s s' ms"
  by (auto simp: carries_def)

lemma wire_link_frame [simp]:
  "wire_link wire (s\<lparr>sn_fs := fs\<rparr>) = wire_link wire s"
  "wire_link wire (s\<lparr>sn_limits := ls\<rparr>) = wire_link wire s"
  "wire_link wire (s\<lparr>sn_pending := q\<rparr>) = wire_link wire s"
  "wire_link wire (s\<lparr>sn_progress := pr\<rparr>) = wire_link wire s"
  "wire_link wire (progress_at i a b s) = wire_link wire s"
  by (simp_all add: wire_link_def progress_at_def split: wire.splits)

lemma progress_frame [simp]:
  "sn_key (progress_at i a b s) = sn_key s" "sn_fs (progress_at i a b s) = sn_fs s"
  "sn_limits (progress_at i a b s) = sn_limits s" "sn_transport (progress_at i a b s) = sn_transport s"
  "sn_pending (progress_at i a b s) = sn_pending s"
  by (simp_all add: progress_at_def)

lemma on_fs_frame:
  "on_fs f s = (r, s') \<Longrightarrow> wire_link wire s' = wire_link wire s \<and> sn_key s' = sn_key s \<and>
     sn_limits s' = sn_limits s \<and> sn_pending s' = sn_pending s \<and> sn_transport s' = sn_transport s \<and>
     f (sn_fs s) = (r, sn_fs s')"
  by (auto simp: on_fs_def split: prod.splits)

lemma file_read_frame:
  "file_read src s = (r, s') \<Longrightarrow> wire_link wire s' = wire_link wire s \<and> sn_key s' = sn_key s \<and>
     sn_pending s' = sn_pending s \<and> sn_transport s' = sn_transport s"
  by (auto simp: file_read_def split: prod.splits)

lemma send_on_frame:
  "send_on L wire m s = (r, s') \<Longrightarrow> sn_fs s' = sn_fs s \<and> sn_limits s' = sn_limits s \<and>
     sn_pending s' = sn_pending s \<and> sn_transport s' = sn_transport s \<and> sn_key s' = sn_key s"
  by (auto simp: send_on_def split: prod.splits wire.splits option.splits)

text \<open>A send puts its message on the wire, or reports an error and puts nothing.\<close>

lemma send_on_carries:
  assumes "send_on L wire m s = (r, s')" and "sound L" and "wire_ok wire s" and "frameable m"
  shows "carries L wire s s' (case r of Inl _ \<Rightarrow> [] | Inr _ \<Rightarrow> [m])"
proof -
  from assms(3) obtain l where l: "wire_link wire s = Some l" "nonces_ok l"
    by (auto simp: wire_ok_def split: option.splits)
  obtain r1 l' where w: "write_encrypted L (sn_key s) m l = (r1, l')"
    by (cases "write_encrypted L (sn_key s) m l")
  with assms(1) l(1) have e: "r1 = r" "wire_link wire s' = Some l'"
    by (auto simp: send_on_def wire_link_def split: wire.splits)
  have k: "sn_key s' = sn_key s"
    using send_on_frame [OF assms(1)] by simp
  show ?thesis
  proof (cases r)
    case (Inl x)
    with w e k l write_encrypted_frame [OF w] show ?thesis
      by (auto simp: carries_def opens_to_def)
  next
    case (Inr u)
    then have "write_encrypted L (sn_key s) m l = (Inr (), l')"
      using w e by simp
    with write_encrypted_Inr [OF this _ l(2) assms(4)] assms(2) obtain d where
        "lk_sent l' = lk_sent l @ [d]" "opens_to L (sn_key s) [d] [m]"
      by (auto simp: sound_def)
    with Inr w e k l write_encrypted_frame [OF w] show ?thesis
      by (auto simp: carries_def)
  qed
qed

lemma send_on_up:
  assumes "wire_up wire s"
  shows "\<exists>s'. send_on L wire m s = (Inr (), s') \<and> wire_up wire s'"
proof -
  from assms obtain l where l: "wire_link wire s = Some l" "link_up l" "length (sn_key s) = KeySize"
    by (auto simp: wire_up_def split: option.splits)
  obtain l' where "write_encrypted L (sn_key s) m l = (Inr (), l')" "link_up l'"
    using write_encrypted_up [OF l(2,3)] by blast
  with l show ?thesis
    by (auto simp: send_on_def wire_link_def wire_up_def split: wire.splits)
qed

section \<open>Chunks\<close>

definition chunk_ok :: "bytes \<Rightarrow> bool" where
  "chunk_ok c \<longleftrightarrow> c \<noteq> [] \<and> length c \<le> 65536"

fun file_chunks :: "bytes \<Rightarrow> bytes list" where
  "file_chunks [] = []"
| "file_chunks (b # bs) = take 65536 (b # bs) # file_chunks (drop 65536 (b # bs))"

lemma concat_file_chunks [simp]: "concat (file_chunks r) = r"
  by (induction r rule: file_chunks.induct) simp_all

lemma file_chunks_step:
  "r \<noteq> [] \<Longrightarrow> file_chunks r = take 65536 r # file_chunks (drop 65536 r)"
  by (cases r) simp_all

lemma chunk_ok_frameable: "chunk_ok c \<Longrightarrow> frameable (new_chunk_message c)"
  by (rule frameable_small) (simp add: chunk_ok_def new_chunk_message_def)

lemma empty_frameable: "frameable new_complete_message" "frameable new_session_end_message"
  by (simp_all add: frameable_def message_constructors)

lemma file_read_cases:
  assumes "file_read src s = ((d, e), s1)"
  shows "src = None \<and> d = [] \<and> (\<exists>x. e = ReadErr x) \<or>
     (\<exists>t. src = Some (d @ t) \<and> length d \<le> 65536 \<and>
        (case e of MoreData \<Rightarrow> d \<noteq> [] \<and> (sn_limits s = [] \<longrightarrow> d = take 65536 (d @ t) \<and> sn_limits s1 = [])
         | AtEOF \<Rightarrow> d = [] \<and> t = [] | ReadErr _ \<Rightarrow> True))"
proof -
  have k: "nat ChunkSize = 65536" by (simp add: ChunkSize_def)
  obtain fs where "os_read src 65536 (sn_limits s) (sn_fs s) = ((d, e), sn_limits s1, fs)"
    using assms by (auto simp: file_read_def k split: prod.splits)
  from os_read_cases [OF this] show ?thesis
    by simp
qed

text \<open>
  The loop's messages, on every outcome: chunks of 1 to 65536 bytes whose concatenation is a
  prefix of the file, all of it when the loop returns without an error.
\<close>

lemma send_loop_trace:
  "send_loop L wire i n src sent s = (res, s') \<Longrightarrow> wire_ok wire s \<Longrightarrow> sound L \<Longrightarrow>
     \<exists>cs t. carries L wire s s' (map new_chunk_message cs) \<and> list_all chunk_ok cs \<and>
       (case src of None \<Rightarrow> cs = [] \<and> res \<noteq> Inr () | Some r \<Rightarrow> r = concat cs @ t \<and>
          (res = Inr () \<longrightarrow> t = [] \<and> (sn_limits s = [] \<longrightarrow> cs = file_chunks r)))"
proof (induction L wire i n src sent s arbitrary: res s' rule: send_loop.induct)
  case (1 L wire i n src sent s)
  note IH = "1.IH" and prems = "1.prems"
  obtain d e s1 where rd: "file_read src s = ((d, e), s1)"
    by (metis surj_pair)
  note fr = file_read_frame [OF rd]
  have ok1: "wire_ok wire s1"
    using prems(2) fr by (simp add: wire_ok_def)
  have c0: "carries L wire s s1 []"
    by (rule carries_none) (use prems(2) fr in simp_all)
  show ?case
  proof (cases "d = []")
    case True
    then have r: "(res, s') = (case e of AtEOF \<Rightarrow> (Inr (), s1) | ReadErr x \<Rightarrow> (Inl (ReadFile x), s1)
        | MoreData \<Rightarrow> (res, s'))" and e: "e \<noteq> MoreData"
      using rd prems(1) file_read_cases [OF rd]
      by (auto simp: send_loop.simps [of L wire i n src] split: read_end.splits)
    then have s1: "s' = s1" by (cases e) auto
    from e r file_read_cases [OF rd] True show ?thesis
      by (intro exI [of _ "[]"] exI [of _ "case src of None \<Rightarrow> [] | Some x \<Rightarrow> x"])
        (cases e; auto simp: s1 c0)
  next
    case False
    then obtain t where t: "src = Some (d @ t)" "length d \<le> 65536"
      and e: "e \<noteq> AtEOF" "e = MoreData \<Longrightarrow> sn_limits s = [] \<Longrightarrow> d = take 65536 (d @ t) \<and> sn_limits s1 = []"
      using file_read_cases [OF rd] by (cases e) auto
    have dok: "chunk_ok d" using False t(2) by (simp add: chunk_ok_def)
    obtain r s2 where sd: "send_on L wire (new_chunk_message d) s1 = (r, s2)"
      by (metis surj_pair)
    note c1 = send_on_carries [OF sd prems(3) ok1 chunk_ok_frameable [OF dok]]
    show ?thesis
    proof (cases r)
      case (Inl x)
      then have "res = Inl (SendChunk x)" "s' = s2"
        using prems(1) rd sd False by (auto simp: send_loop.simps [of L wire i n src])
      moreover have "carries L wire s s2 []"
        using carries_trans [OF c0 c1] Inl by simp
      ultimately show ?thesis
        using t by (intro exI [of _ "[]"] exI [of _ "d @ t"]) auto
    next
      case (Inr u)
      let ?s3 = "progress_at i (sent + int (length d)) n s2"
      have c2: "carries L wire s ?s3 [new_chunk_message d]"
        using carries_trans [OF c0 c1] Inr by (auto intro: carries_same)
      show ?thesis
      proof (cases e)
        case AtEOF
        with e show ?thesis by simp
      next
        case (ReadErr x)
        then have "res = Inl (ReadFile x)" "s' = ?s3"
          using prems(1) rd sd False Inr by (auto simp: send_loop.simps [of L wire i n src])
        with c2 t dok show ?thesis
          by (intro exI [of _ "[d]"] exI [of _ t]) auto
      next
        case MoreData
        let ?src = "map_option (drop (length d)) src"
        have "send_loop L wire i n ?src (sent + int (length d)) ?s3 = (res, s')"
          using prems(1) rd sd False Inr MoreData by (simp add: send_loop.simps [of L wire i n src])
        moreover have "wire_ok wire ?s3"
          using carries_ok [OF c2] prems(2) by simp
        moreover have lim: "sn_limits ?s3 = sn_limits s1"
          using send_on_frame [OF sd] by simp
        ultimately obtain cs t' where cs: "carries L wire ?s3 s' (map new_chunk_message cs)"
            "list_all chunk_ok cs" "t = concat cs @ t'"
            "res = Inr () \<Longrightarrow> t' = [] \<and> (sn_limits s1 = [] \<longrightarrow> cs = file_chunks t)"
          using IH [OF rd [symmetric] refl _ refl MoreData, of "()" ?s3] sd Inr False t(1) prems(3) by auto
        have "d # cs = file_chunks (d @ t)" if "sn_limits s = []" "cs = file_chunks t"
        proof -
          have d: "d = take 65536 (d @ t)" using e(2) MoreData that by simp
          then have "drop 65536 (d @ t) = t"
            by (metis append_take_drop_id same_append_eq)
          with d that(2) False show ?thesis
            using file_chunks_step [of "d @ t"] by (metis append_is_Nil_conv)
        qed
        with cs t dok e(2) MoreData show ?thesis
          by (intro exI [of _ "d # cs"] exI [of _ t'])
            (auto dest: carries_trans [OF c2])
      qed
    qed
  qed
qed

section \<open>What sending leaves alone\<close>

definition quiet :: "sender \<Rightarrow> sender \<Rightarrow> bool" where
  "quiet s s' \<longleftrightarrow>
     sn_pending s' = sn_pending s \<and> sn_transport s' = sn_transport s \<and> sn_key s' = sn_key s \<and>
     sn_closed s' = sn_closed s \<and> fs_files (sn_fs s') = fs_files (sn_fs s) \<and>
     fs_dirs (sn_fs s') = fs_dirs (sn_fs s) \<and> (sn_peer s' = None \<longleftrightarrow> sn_peer s = None)"

lemma quiet_refl [simp]: "quiet s s"
  by (simp add: quiet_def)

lemma quiet_trans [trans]: "quiet a b \<Longrightarrow> quiet b c \<Longrightarrow> quiet a c"
  by (simp add: quiet_def)

lemma quiet_progress [simp]: "quiet s (progress_at i a b s')  \<longleftrightarrow> quiet s s'"
  by (simp add: quiet_def progress_at_def)

lemma quiet_progress2 [simp]: "quiet (progress_at i a b s) s' \<longleftrightarrow> quiet s s'"
  by (simp add: quiet_def progress_at_def)

lemma quiet_send_on: "send_on L wire m s = (r, s') \<Longrightarrow> quiet s s'"
  by (auto simp: quiet_def send_on_def split: prod.splits wire.splits option.splits)

lemma quiet_on_fs:
  assumes "on_fs f s = (r, s')"
    and "fs_files (sn_fs s') = fs_files (sn_fs s) \<and> fs_dirs (sn_fs s') = fs_dirs (sn_fs s)"
  shows "quiet s s'"
  using assms by (auto simp: quiet_def on_fs_def split: prod.splits)

lemma os_open_frame:
  "os_open p fs = (r, fs') \<Longrightarrow> fs_files fs' = fs_files fs \<and> fs_dirs fs' = fs_dirs fs"
  by (auto simp: os_open_def split: prod.splits option.splits if_splits dest!: next_fault_frame)

lemma os_stat_size_frame:
  "os_stat_size n src fs = (r, fs') \<Longrightarrow> fs_files fs' = fs_files fs \<and> fs_dirs fs' = fs_dirs fs"
  by (auto simp: os_stat_size_def split: prod.splits option.splits dest!: next_fault_frame)

lemma os_seek_frame:
  "os_seek fs = (r, fs') \<Longrightarrow> fs_files fs' = fs_files fs \<and> fs_dirs fs' = fs_dirs fs"
  by (auto simp: os_seek_def split: prod.splits option.splits dest!: next_fault_frame)

lemma prefix_hash_frame:
  "file_prefix_hash p n fs = (r, fs') \<Longrightarrow> fs_files fs' = fs_files fs \<and> fs_dirs fs' = fs_dirs fs"
  by (auto simp: file_prefix_hash_def split: prod.splits option.splits sum.splits if_splits
      dest!: next_fault_frame os_open_frame)

lemma os_read_frame:
  "os_read src k ls fs = (r, ls', fs') \<Longrightarrow> fs_files fs' = fs_files fs \<and> fs_dirs fs' = fs_dirs fs"
  by (auto simp: os_read_def split: prod.splits option.splits list.splits dest!: next_fault_frame)

lemma quiet_file_read: "file_read src s = (r, s') \<Longrightarrow> quiet s s'"
  by (auto simp: quiet_def file_read_def split: prod.splits dest: os_read_frame)

lemma quiet_send_loop: "send_loop L wire i n src sent s = (r, s') \<Longrightarrow> quiet s s'"
proof (induction L wire i n src sent s arbitrary: r s' rule: send_loop.induct)
  case (1 L wire i n src sent s)
  obtain d e s1 where rd: "file_read src s = ((d, e), s1)"
    by (metis surj_pair)
  define r2 s2 where "r2 = (if d = [] then (Inr () :: sender_error + unit, s1)
      else case send_on L wire (new_chunk_message d) s1 of
        (Inl x, s2) \<Rightarrow> (Inl (SendChunk x), s2)
      | (Inr _, s2) \<Rightarrow> (Inr (), progress_at i (sent + int (length d)) n s2))"
    and "s2 = snd r2"
  have q: "quiet s s2"
    using quiet_file_read [OF rd]
    by (auto simp: r2_def s2_def split: prod.splits sum.splits intro: quiet_trans dest: quiet_send_on)
  have l: "send_loop L wire i n src sent s =
      (case r2 of (Inl x, s3) \<Rightarrow> (Inl x, s3)
       | (Inr _, s3) \<Rightarrow>
           (case e of AtEOF \<Rightarrow> (Inr (), s3) | ReadErr x \<Rightarrow> (Inl (ReadFile x), s3)
            | MoreData \<Rightarrow> send_loop L wire i n (map_option (drop (length d)) src)
                (sent + int (length d)) s3))"
    by (subst send_loop.simps) (simp add: rd r2_def)
  show ?case
  proof (cases "\<exists>s3. r2 = (Inr (), s3) \<and> e = MoreData")
    case True
    then have "quiet s2 s'"
      using "1.IH" [OF rd [symmetric] refl, of "fst r2" s2 "()"] "1.prems" l
      by (auto simp: s2_def r2_def)
    with q show ?thesis by (rule quiet_trans)
  next
    case False
    then have "s' = s2"
      using "1.prems" l by (auto simp: s2_def split: prod.splits sum.splits read_end.splits)
    with q show ?thesis by simp
  qed
qed

section \<open>A granted offset\<close>

definition offset_ok :: "resume_request option \<Rightarrow> path \<Rightarrow> bytes \<Rightarrow> int \<Rightarrow> bool" where
  "offset_ok q p c off \<longleftrightarrow>
     off = 0 \<or>
     (\<exists>r. q = Some r \<and> off = rr_offset r \<and> 0 < off \<and> off \<le> int (length c) \<and>
        off mod ChunkSize = 0 \<and> rr_filename r = base_name p \<and>
        rr_prefix_hash r = hex_encode (sha256 (take (nat off) c)))"

lemma prefix_hash_Inr:
  "file_prefix_hash p n fs = (Inr h, fs') \<Longrightarrow> fmlookup (fs_files fs) p = Some c \<Longrightarrow>
     h = hex_encode (sha256 (take (nat n) c))"
  by (auto simp: file_prefix_hash_def os_open_def split: prod.splits option.splits sum.splits if_splits
      dest!: next_fault_frame)

lemma on_fs_run: "on_fs f s = (r, s') \<Longrightarrow> f (sn_fs s) = (r, sn_fs s')"
  by (drule on_fs_frame [where wire = WSWire]) blast

lemma quiet_hash: "on_fs (file_prefix_hash p n) s = (r, s') \<Longrightarrow> quiet s s'"
  by (frule on_fs_run, rule quiet_on_fs, assumption, erule prefix_hash_frame)

lemma quiet_seek: "on_fs os_seek s = (r, s') \<Longrightarrow> quiet s s'"
  by (frule on_fs_run, rule quiet_on_fs, assumption, erule os_seek_frame)

lemma resume_offset_ok:
  assumes "resume_offset q p (int (length c)) s = (off, s')" and "fmlookup (fs_files (sn_fs s)) p = Some c"
  shows "offset_ok q p c off \<and> quiet s s' \<and> wire_link wire s' = wire_link wire s \<and>
     sn_limits s' = sn_limits s"
proof (cases "off = 0")
  case True
  then have "quiet s s'"
    using assms(1) by (auto simp: resume_offset_def split: option.splits if_splits prod.splits sum.splits
        dest: quiet_hash quiet_seek intro: quiet_trans)
  with True assms(1) show ?thesis
    by (auto simp: offset_ok_def resume_offset_def split: option.splits if_splits prod.splits sum.splits
        dest!: on_fs_frame [where wire = wire])
next
  case False
  then obtain r h s1 where r: "q = Some r" "off = rr_offset r" "0 < off" "off \<le> int (length c)"
      "off mod ChunkSize = 0" "rr_filename r = base_name p" "h = rr_prefix_hash r"
    and h: "on_fs (file_prefix_hash p (rr_offset r)) s = (Inr h, s1)"
    and sk: "on_fs os_seek s1 = (Inr (), s')"
    using assms(1) by (auto simp: resume_offset_def split: option.splits if_splits prod.splits sum.splits)
  have "h = hex_encode (sha256 (take (nat off) c))"
    unfolding r(2) by (rule prefix_hash_Inr [OF on_fs_run [OF h] assms(2)])
  then have "offset_ok q p c off"
    unfolding offset_ok_def using r by (intro disjI2 exI [of _ r]) simp
  moreover have "quiet s s'"
    using quiet_hash [OF h] quiet_seek [OF sk] by (rule quiet_trans)
  ultimately show ?thesis
    using on_fs_frame [OF h] on_fs_frame [OF sk] by simp
qed

section \<open>The messages of one file\<close>

definition file_meta :: "path \<Rightarrow> bytes \<Rightarrow> int \<Rightarrow> metadata" where
  "file_meta p c off =
     \<lparr>md_filename = base_name p, md_size = int (length c), md_chunks = total_chunks (int (length c)),
      md_resume_offset = off\<rparr>"

definition meta_message :: "bytes \<Rightarrow> message" where
  "meta_message b = \<lparr>mtype = MsgTypeMetadata, payload = b\<rparr>"

definition marshal_fits :: "libs \<Rightarrow> string \<Rightarrow> bool" where
  "marshal_fits L name \<longleftrightarrow>
     (\<forall>meta b. md_filename meta = name \<longrightarrow> lib_marshal_meta L meta = Some b \<longrightarrow>
        frameable (meta_message b))"

text \<open>
  \<open>file_sent\<close>: metadata with a granted offset, then chunks that together are the rest of the
  file, then \<open>Complete\<close>.  \<open>file_cut\<close>: a run that stopped before \<open>Complete\<close>.
\<close>

definition file_sent :: "libs \<Rightarrow> resume_request option \<Rightarrow> path \<Rightarrow> bytes \<Rightarrow> message list \<Rightarrow> bool" where
  "file_sent L q p c ms \<longleftrightarrow>
     (\<exists>off b cs. offset_ok q p c off \<and> lib_marshal_meta L (file_meta p c off) = Some b \<and>
        list_all chunk_ok cs \<and> concat cs = drop (nat off) c \<and>
        ms = meta_message b # map new_chunk_message cs @ [new_complete_message])"

definition file_cut :: "libs \<Rightarrow> resume_request option \<Rightarrow> path \<Rightarrow> bytes \<Rightarrow> message list \<Rightarrow> bool" where
  "file_cut L q p c ms \<longleftrightarrow>
     ms = [] \<or>
     (\<exists>off b cs t. offset_ok q p c off \<and> lib_marshal_meta L (file_meta p c off) = Some b \<and>
        list_all chunk_ok cs \<and> concat cs @ t = drop (nat off) c \<and>
        ms = meta_message b # map new_chunk_message cs)"

lemma file_cutI:
  "offset_ok q p c off \<Longrightarrow> lib_marshal_meta L (file_meta p c off) = Some b \<Longrightarrow> list_all chunk_ok cs \<Longrightarrow>
     drop (nat off) c = concat cs @ t \<Longrightarrow>
     file_cut L q p c (meta_message b # map new_chunk_message cs)"
  unfolding file_cut_def by (intro disjI2 exI conjI) (assumption | simp)+

lemma file_sentI:
  "offset_ok q p c off \<Longrightarrow> lib_marshal_meta L (file_meta p c off) = Some b \<Longrightarrow> list_all chunk_ok cs \<Longrightarrow>
     drop (nat off) c = concat cs \<Longrightarrow>
     file_sent L q p c (meta_message b # map new_chunk_message cs @ [new_complete_message])"
  unfolding file_sent_def by (intro exI conjI) (assumption | simp)+

lemma send_body_trace:
  assumes run: "send_body L wire i p n off src s = (res, s')" and snd: "sound L" and ok: "wire_ok wire s"
    and fits: "marshal_fits L (base_name p)" and off: "offset_ok q p c off"
    and src: "src = Some (drop (nat off) c)" and n: "n = int (length c)"
  shows "quiet s s' \<and>
     (\<exists>ms. carries L wire s s' ms \<and>
        (case res of Inl _ \<Rightarrow> file_cut L q p c ms | Inr _ \<Rightarrow> file_sent L q p c ms))"
proof (cases "lib_marshal_meta L (file_meta p c off)")
  case None
  with run n have "res = Inl MarshalMetadata" "s' = s"
    by (auto simp: send_body_def new_metadata_message_with_resume_def file_meta_def)
  with carries_none [OF ok refl refl, of L] show ?thesis by (auto simp: file_cut_def)
next
  case (Some b)
  have fb: "frameable (meta_message b)"
    using fits Some unfolding marshal_fits_def by (auto simp: file_meta_def dest: spec [of _ "file_meta p c off"])
  have m: "new_metadata_message_with_resume (lib_marshal_meta L) (base_name p) n (total_chunks n) off
      = Some (meta_message b)"
    using Some n by (simp add: new_metadata_message_with_resume_def file_meta_def meta_message_def)
  obtain r4 s4 where o4: "send_on L wire (meta_message b) s = (r4, s4)" by (metis surj_pair)
  note c4 = send_on_carries [OF o4 snd ok fb]
  show ?thesis
  proof (cases r4)
    case (Inl e)
    with run m o4 have "res = Inl (SendMetadata e)" "s' = s4" by (simp_all add: send_body_def)
    with c4 Inl quiet_send_on [OF o4] show ?thesis by (auto simp: file_cut_def)
  next
    case (Inr u)
    define s5 where "s5 = (if off > 0 then progress_at i off n s4 else s4)"
    have c5: "carries L wire s s5 [meta_message b]"
      using c4 Inr by (auto simp: s5_def intro: carries_same)
    have q5: "quiet s s5"
      using quiet_send_on [OF o4] by (simp add: s5_def)
    obtain r6 s6 where o6: "send_loop L wire i n src off s5 = (r6, s6)" by (metis surj_pair)
    have q6: "quiet s s6" using q5 quiet_send_loop [OF o6] by (rule quiet_trans)
    obtain cs t where cs: "carries L wire s5 s6 (map new_chunk_message cs)" "list_all chunk_ok cs"
        "drop (nat off) c = concat cs @ t" "r6 = Inr () \<Longrightarrow> t = []"
      using send_loop_trace [OF o6 carries_ok [OF c5 ok] snd] src by auto
    note c6 = carries_trans [OF c5 cs(1)]
    show ?thesis
    proof (cases r6)
      case (Inl e)
      with run m o4 \<open>r4 = Inr u\<close> o6 have "res = Inl e" "s' = s6"
        by (simp_all add: send_body_def s5_def)
      with c6 q6 cs off Some show ?thesis
        using file_cutI [OF off Some cs(2,3)] by auto
    next
      case (Inr v)
      obtain r7 s7 where o7: "send_on L wire new_complete_message s6 = (r7, s7)" by (metis surj_pair)
      have q7: "quiet s s7" using q6 quiet_send_on [OF o7] by (rule quiet_trans)
      note c7 = carries_trans [OF c6 send_on_carries [OF o7 snd carries_ok [OF c6 ok] empty_frameable(1)]]
      have r: "res = (case r7 of Inl e \<Rightarrow> Inl (SendComplete e) | Inr _ \<Rightarrow> Inr ())" "s' = s7"
        using run m o4 \<open>r4 = Inr u\<close> o6 o7 Inr by (auto simp: send_body_def s5_def split: sum.splits)
      show ?thesis
      proof (cases r7)
        case (Inl e)
        with r c7 q7 cs off Some show ?thesis
          using file_cutI [OF off Some cs(2,3)] by auto
      next
        case (Inr w)
        with r c7 q7 cs off Some \<open>r6 = Inr v\<close> show ?thesis
          using file_sentI [OF off Some cs(2)] by auto
      qed
    qed
  qed
qed

lemma stream_file_trace:
  assumes run: "stream_file L wire i p s = (res, s')" and snd: "sound L" and ok: "wire_ok wire s"
    and fits: "marshal_fits L (base_name p)" and fl: "fmlookup (fs_files (sn_fs s)) p = Some c"
  shows "quiet (s\<lparr>sn_pending := None\<rparr>) s' \<and>
     (\<exists>ms. carries L wire s s' ms \<and>
        (case res of Inl _ \<Rightarrow> file_cut L (sn_pending s) p c ms | Inr _ \<Rightarrow> file_sent L (sn_pending s) p c ms))"
proof -
  let ?s = "s\<lparr>sn_pending := None\<rparr>"
  have cut0: "file_cut L q p c []" for q by (simp add: file_cut_def)
  have none: "carries L wire s x []" if "wire_link wire x = wire_link wire s" "sn_key x = sn_key s" for x
    using ok that by (rule carries_none)
  obtain r1 s1 where o1: "on_fs (os_open p) ?s = (r1, s1)" by (metis surj_pair)
  note f1 = on_fs_frame [OF o1, of wire]
  have q1: "quiet ?s s1" using o1 by (rule quiet_on_fs) (rule os_open_frame [OF on_fs_run [OF o1]])
  show ?thesis
  proof (cases r1)
    case (Inl e)
    with run o1 have "res = Inl (OpenFile e)" "s' = s1" by (simp_all add: stream_file_def Let_def)
    with q1 f1 cut0 none [of s1] show ?thesis by auto
  next
    case (Inr src)
    have src: "src = Some c"
      using on_fs_run [OF o1] Inr fl by (auto simp: os_open_def split: prod.splits option.splits
          if_splits dest!: next_fault_frame)
    obtain r2 s2 where o2: "on_fs (os_stat_size (sn_dir_size s1) src) s1 = (r2, s2)" by (metis surj_pair)
    note f2 = on_fs_frame [OF o2, of wire]
    have q2: "quiet ?s s2"
      by (rule quiet_trans [OF q1]) (rule quiet_on_fs [OF o2], rule os_stat_size_frame [OF on_fs_run [OF o2]])
    show ?thesis
    proof (cases r2)
      case (Inl e)
      with run o1 o2 \<open>r1 = Inr src\<close> have "res = Inl (StatFile e)" "s' = s2"
        by (simp_all add: stream_file_def Let_def)
      with q2 f1 f2 cut0 none [of s2] show ?thesis by auto
    next
      case (Inr n)
      have n: "n = int (length c)"
        using on_fs_run [OF o2] Inr src by (auto simp: os_stat_size_def split: prod.splits option.splits)
      have file2: "fmlookup (fs_files (sn_fs s2)) p = Some c"
        using q2 fl by (simp add: quiet_def)
      obtain off s3 where o3: "resume_offset (sn_pending s) p n s2 = (off, s3)" by (metis surj_pair)
      note ro = resume_offset_ok [OF o3 [unfolded n] file2]
      have q3: "quiet ?s s3" using quiet_trans [OF q2] ro by simp
      have l3: "wire_link wire s3 = wire_link wire s" "sn_key s3 = sn_key s"
        using f1 f2 ro by (auto simp: quiet_def)
      have c3: "carries L wire s s3 []" by (rule none [OF l3])
      have body: "stream_file L wire i p s = send_body L wire i p n off (Some (drop (nat off) c)) s3"
        using o1 o2 o3 \<open>r1 = Inr src\<close> Inr src by (simp add: stream_file_def)
      have ok3: "wire_ok wire s3" using ok l3 by (simp add: wire_ok_def)
      obtain ms where "quiet s3 s'" "carries L wire s3 s' ms"
          "case res of Inl _ \<Rightarrow> file_cut L (sn_pending s) p c ms | Inr _ \<Rightarrow> file_sent L (sn_pending s) p c ms"
        using send_body_trace [OF _ snd ok3 fits _ refl] run body n ro by metis
      then show ?thesis
        using quiet_trans [OF q3] carries_trans [OF c3] by fastforce
    qed
  qed
qed

section \<open>Batches\<close>

fun batch_sent :: "libs \<Rightarrow> resume_request option \<Rightarrow> (path \<times> bytes) list \<Rightarrow> message list \<Rightarrow> bool" where
  "batch_sent L q [] ms \<longleftrightarrow> ms = []"
| "batch_sent L q ((p, c) # files) ms \<longleftrightarrow>
     (\<exists>m1 m2. ms = m1 @ m2 \<and> file_sent L q p c m1 \<and> batch_sent L None files m2)"

definition holds_files :: "sender \<Rightarrow> (path \<times> bytes) list \<Rightarrow> bool" where
  "holds_files s files \<longleftrightarrow> list_all (\<lambda>(p, c). fmlookup (fs_files (sn_fs s)) p = Some c) files"

definition all_fit :: "libs \<Rightarrow> (path \<times> bytes) list \<Rightarrow> bool" where
  "all_fit L files \<longleftrightarrow> list_all (\<lambda>(p, c). marshal_fits L (base_name p)) files"

lemma holds_quiet: "quiet (s\<lparr>sn_pending := q\<rparr>) s' \<Longrightarrow> holds_files s files \<Longrightarrow> holds_files s' files"
  by (simp add: quiet_def holds_files_def)

lemma send_paths_trace:
  "send_paths L wire i (map fst files) s = (Inr (), s') \<Longrightarrow> sound L \<Longrightarrow> wire_ok wire s \<Longrightarrow>
     all_fit L files \<Longrightarrow> holds_files s files \<Longrightarrow>
     \<exists>ms. carries L wire s s' ms \<and> batch_sent L (sn_pending s) files ms"
proof (induction files arbitrary: i s)
  case Nil
  then show ?case by (auto intro: carries_none)
next
  case (Cons pc files)
  obtain p c where pc: "pc = (p, c)" by force
  obtain r1 s1 where st: "stream_file L wire i p s = (r1, s1)" by (metis surj_pair)
  with Cons.prems pc have r1: "r1 = Inr ()" and rest: "send_paths L wire (Suc i) (map fst files) s1 = (Inr (), s')"
    by (auto split: sum.splits)
  from Cons.prems pc have f: "marshal_fits L (base_name p)" "all_fit L files"
      "fmlookup (fs_files (sn_fs s)) p = Some c" "holds_files s files"
    by (simp_all add: all_fit_def holds_files_def)
  from stream_file_trace [OF st Cons.prems(2,3) f(1,3)] r1 obtain ms where
      q: "quiet (s\<lparr>sn_pending := None\<rparr>) s1" and ms: "carries L wire s s1 ms" "file_sent L (sn_pending s) p c ms"
    by auto
  from q have "sn_pending s1 = None" by (simp add: quiet_def)
  moreover obtain ns where "carries L wire s1 s' ns" "batch_sent L (sn_pending s1) files ns"
    using Cons.IH [OF rest Cons.prems(2) carries_ok [OF ms(1) Cons.prems(3)] f(2) holds_quiet [OF q f(4)]]
    by blast
  ultimately show ?case
    using carries_trans [OF ms(1)] ms(2) pc by auto
qed

lemma negotiate_keeps:
  "negotiate_or_reuse L N s = (r, s1) \<Longrightarrow>
     sn_fs s1 = sn_fs s \<and> sn_pending s1 = sn_pending s \<and> sn_key s1 = sn_key s"
  by (auto simp: negotiate_or_reuse_def Let_def split: sender_transport.splits if_splits prod.splits sum.splits)

lemma send_batch_trace:
  assumes run: "send_batch L N (map fst files) s = (Inr (), s')" and snd: "sound L"
    and neg: "negotiate_or_reuse L N s = (Inr wire, s1)" and ok: "wire_ok wire s1"
    and fit: "all_fit L files" and fl: "holds_files s files"
  shows "\<exists>ms. carries L wire s1 s' (ms @ [new_session_end_message]) \<and> batch_sent L (sn_pending s) files ms"
proof -
  note k = negotiate_keeps [OF neg]
  from run neg obtain s2 where p: "send_paths L wire 0 (map fst files) s1 = (Inr (), s2)"
    and e: "send_on L wire new_session_end_message s2 = (Inr (), s')"
    by (auto simp: send_batch_def split: if_splits prod.splits sum.splits)
  have "holds_files s1 files" using fl k by (simp add: holds_files_def)
  from send_paths_trace [OF p snd ok fit this] obtain ms where
      ms: "carries L wire s1 s2 ms" "batch_sent L (sn_pending s1) files ms"
    by blast
  have "carries L wire s1 s' (ms @ [new_session_end_message])"
    using carries_trans [OF ms(1) send_on_carries [OF e snd carries_ok [OF ms(1) ok] empty_frameable(2)]]
    by simp
  with ms(2) k show ?thesis by auto
qed

end
