(* ===== verification/SenderProps.thy ===== *)
theory SenderProps
  imports SenderWire
begin

text \<open>
  The sender without faults, the states of its transport, waiting for the receiver, and the properties of
  \<open>internal/transfer/sender.go\<close>.
\<close>

section \<open>Success without faults\<close>

definition calm :: "wire \<Rightarrow> sender \<Rightarrow> bool" where
  "calm wire s \<longleftrightarrow> wire_up wire s \<and> fs_faults (sn_fs s) = []"

lemma calm_progress [simp]: "calm wire (progress_at i a b s) = calm wire s"
  by (simp add: calm_def wire_up_def)

lemma calm_send_on: "calm wire s \<Longrightarrow> \<exists>s'. send_on L wire m s = (Inr (), s') \<and> calm wire s'"
proof -
  assume c: "calm wire s"
  then have "wire_up wire s" by (simp add: calm_def)
  then obtain s' where s': "send_on L wire m s = (Inr (), s')" "wire_up wire s'"
    using send_on_up by blast
  with send_on_frame [OF s'(1)] c show ?thesis by (simp add: calm_def)
qed

lemma calm_file_read:
  assumes "calm wire s" and "file_read (Some r) s = ((d, e), s1)"
  shows "calm wire s1 \<and> (if r = [] then e = AtEOF else e = MoreData)"
proof -
  have "fs_faults (sn_fs s1) = [] \<and> (if r = [] then e = AtEOF else e = MoreData)"
    using assms by (auto simp: file_read_def os_read_def calm_def next_fault_none split: list.splits)
  moreover have "wire_up wire s1"
    using assms(1) file_read_frame [OF assms(2)] by (simp add: calm_def wire_up_def)
  ultimately show ?thesis by (simp add: calm_def)
qed

lemma send_loop_calm:
  "calm wire s \<Longrightarrow> \<exists>s'. send_loop L wire i n (Some r) sent s = (Inr (), s') \<and> calm wire s'"
proof (induction "length r" arbitrary: r sent s rule: less_induct)
  case less
  obtain d e s1 where rd: "file_read (Some r) s = ((d, e), s1)"
    by (metis surj_pair)
  note c1 = calm_file_read [OF less.prems rd]
  show ?case
  proof (cases "r = []")
    case True
    with c1 rd file_read_cases [OF rd] show ?thesis
      by (auto simp: send_loop.simps [of L wire i n "Some []"])
  next
    case False
    with c1 have e: "e = MoreData" by simp
    with file_read_cases [OF rd] obtain t where t: "r = d @ t" "d \<noteq> []" by auto
    obtain s2 where s2: "send_on L wire (new_chunk_message d) s1 = (Inr (), s2)" "calm wire s2"
      using calm_send_on c1 by blast
    have "\<exists>s'. send_loop L wire i n (Some t) (sent + int (length d))
        (progress_at i (sent + int (length d)) n s2) = (Inr (), s') \<and> calm wire s'"
      by (rule less.hyps) (use t s2 in simp_all)
    moreover have "send_loop L wire i n (Some r) sent s = send_loop L wire i n (Some t)
        (sent + int (length d)) (progress_at i (sent + int (length d)) n s2)"
      by (subst send_loop.simps) (simp add: rd s2(1) e t(2), simp add: t(1))
    ultimately show ?thesis by simp
  qed
qed

lemma send_body_calm:
  assumes "calm wire s" and "lib_marshal_meta L \<lparr>md_filename = base_name p, md_size = n,
      md_chunks = total_chunks n, md_resume_offset = off\<rparr> = Some b"
  shows "\<exists>s'. send_body L wire i p n off (Some r) s = (Inr (), s') \<and> calm wire s'"
proof -
  obtain s1 where s1: "send_on L wire (meta_message b) s = (Inr (), s1)" "calm wire s1"
    using calm_send_on [OF assms(1)] by blast
  then have "calm wire (if off > 0 then progress_at i off n s1 else s1)" by simp
  from send_loop_calm [OF this] obtain s2 where
    s2: "send_loop L wire i n (Some r) off (if off > 0 then progress_at i off n s1 else s1) = (Inr (), s2)"
      "calm wire s2"
    by blast
  obtain s3 where "send_on L wire new_complete_message s2 = (Inr (), s3)" "calm wire s3"
    using calm_send_on [OF s2(2)] by blast
  with s1 s2 assms(2) show ?thesis
    by (simp add: send_body_def new_metadata_message_with_resume_def meta_message_def)
qed

lemma calm_ok: "calm wire s \<Longrightarrow> wire_ok wire s"
  by (auto simp: calm_def wire_up_def wire_ok_def link_up_def split: option.splits)

lemma stream_file_calm_eq:
  assumes "fs_faults (sn_fs s) = []" and "sn_pending s = None" and "fmlookup (fs_files (sn_fs s)) p = Some c"
  shows "stream_file L wire i p s = send_body L wire i p (int (length c)) 0 (Some c) s"
proof -
  have eq: "s\<lparr>sn_pending := None\<rparr> = s" using assms(2) by simp
  show ?thesis
    unfolding stream_file_def Let_def eq
    using assms by (simp add: on_fs_def os_open_def os_stat_size_def next_fault_none resume_offset_def)
qed

lemma send_body_chunks:
  assumes "calm wire s" and "sound L" and "sn_limits s = []" and "marshal_fits L (base_name p)"
    and "lib_marshal_meta L (file_meta p c 0) = Some b"
  shows "\<exists>s'. send_body L wire i p (int (length c)) 0 (Some c) s = (Inr (), s') \<and> calm wire s' \<and>
     carries L wire s s' (meta_message b # map new_chunk_message (file_chunks c) @ [new_complete_message])"
proof -
  have fb: "frameable (meta_message b)"
    using assms(4,5) unfolding marshal_fits_def by (auto simp: file_meta_def dest: spec [of _ "file_meta p c 0"])
  obtain s1 where s1: "send_on L wire (meta_message b) s = (Inr (), s1)" "calm wire s1"
    using calm_send_on [OF assms(1)] by blast
  have lim: "sn_limits s1 = []" using send_on_frame [OF s1(1)] assms(3) by simp
  obtain s2 where s2: "send_loop L wire i (int (length c)) (Some c) 0 s1 = (Inr (), s2)" "calm wire s2"
    using send_loop_calm [OF s1(2)] by blast
  obtain s3 where s3: "send_on L wire new_complete_message s2 = (Inr (), s3)" "calm wire s3"
    using calm_send_on [OF s2(2)] by blast
  have "carries L wire s s1 [meta_message b]"
    using send_on_carries [OF s1(1) assms(2) calm_ok [OF assms(1)] fb] by simp
  moreover have "carries L wire s1 s2 (map new_chunk_message (file_chunks c))"
    using send_loop_trace [OF s2(1) calm_ok [OF s1(2)] assms(2)] lim by auto
  moreover have "carries L wire s2 s3 [new_complete_message]"
    using send_on_carries [OF s3(1) assms(2) calm_ok [OF s2(2)] empty_frameable(1)] by simp
  ultimately have "carries L wire s s3
      ([meta_message b] @ map new_chunk_message (file_chunks c) @ [new_complete_message])"
    by (intro carries_trans)
  with s1 s2 s3 assms(5) show ?thesis
    by (simp add: send_body_def new_metadata_message_with_resume_def meta_message_def file_meta_def)
qed

lemma chunks_div:
  fixes n :: int
  shows "1 \<le> n \<Longrightarrow> n \<le> 65536 \<Longrightarrow> (n + 65535) div 65536 = 1"
    and "(n + 65535) div 65536 = (n - 65536 + 65535) div 65536 + 1"
proof -
  have "(n - 1 + 1 * 65536) div 65536 = 1 + (n - 1) div 65536"
    by (rule div_mult_self1) simp
  moreover have "1 \<le> n \<Longrightarrow> n \<le> 65536 \<Longrightarrow> (n - 1) div 65536 = 0"
    by (rule div_pos_pos_trivial) simp_all
  ultimately show "1 \<le> n \<Longrightarrow> n \<le> 65536 \<Longrightarrow> (n + 65535) div 65536 = 1" by simp
  have "(n - 65536 + 65535 + 1 * 65536) div 65536 = 1 + (n - 65536 + 65535) div 65536"
    by (rule div_mult_self1) simp
  then show "(n + 65535) div 65536 = (n - 65536 + 65535) div 65536 + 1" by (simp add: algebra_simps)
qed

lemma length_file_chunks: "int (length (file_chunks c)) = total_chunks (int (length c))"
proof (induction c rule: file_chunks.induct)
  case 1
  then show ?case by (simp add: total_chunks_def ChunkSize_def)
next
  case (2 b bs)
  have t: "total_chunks n = (n + 65535) div 65536" for n
    by (simp add: total_chunks_def ChunkSize_def add_diff_eq [symmetric])
  show ?case
  proof (cases "length (b # bs) \<le> 65536")
    case True
    then have "file_chunks (b # bs) = [take 65536 (b # bs)]" by simp
    moreover have "total_chunks (int (length (b # bs))) = 1"
      unfolding t by (rule chunks_div(1)) (use True in auto)
    ultimately show ?thesis by simp
  next
    case False
    then have "int (length (drop 65536 (b # bs))) = int (length (b # bs)) - 65536"
      by (simp only: length_drop)
    with "2.IH" have "int (length (file_chunks (drop 65536 (b # bs)))) =
        (int (length (b # bs)) - 65536 + 65535) div 65536"
      by (simp only: t)
    then show ?thesis
      using chunks_div(2) [of "int (length (b # bs))"] by (simp only: t file_chunks.simps list.size)
  qed
qed

lemma file_chunks_ok: "list_all chunk_ok (file_chunks c)"
  by (induction c rule: file_chunks.induct) (simp_all add: chunk_ok_def)

lemma resume_offset_calm:
  assumes "fs_faults (sn_fs s) = []"
  shows "\<exists>off. resume_offset q p n s = (off, s)"
proof -
  have h: "\<exists>x. on_fs (file_prefix_hash p k) s = (x, s)" for k
    using assms by (auto simp: on_fs_def file_prefix_hash_def os_open_def next_fault_none split: option.split)
  have sk: "on_fs os_seek s = (Inr (), s)"
    using assms by (simp add: on_fs_def os_seek_def next_fault_none)
  show ?thesis
  proof (cases q)
    case (Some r)
    obtain x where "on_fs (file_prefix_hash p (rr_offset r)) s = (x, s)" using h by blast
    with sk Some show ?thesis by (cases x) (auto simp: resume_offset_def)
  qed (simp add: resume_offset_def)
qed

text \<open>Without faults the call succeeds whatever resume is pending.\<close>

lemma stream_file_calm:
  assumes "calm wire s" and "fmlookup (fs_files (sn_fs s)) p = Some c"
    and mar: "\<And>off. offset_ok (sn_pending s) p c off \<Longrightarrow> \<exists>b. lib_marshal_meta L (file_meta p c off) = Some b"
  shows "\<exists>s'. stream_file L wire i p s = (Inr (), s') \<and> calm wire s'"
proof -
  let ?s = "s\<lparr>sn_pending := None\<rparr>"
  have f: "fs_faults (sn_fs ?s) = []" using assms(1) by (simp add: calm_def)
  obtain off where off: "resume_offset (sn_pending s) p (int (length c)) ?s = (off, ?s)"
    using resume_offset_calm [OF f] by blast
  then have "offset_ok (sn_pending s) p c off"
    using resume_offset_ok [of "sn_pending s" p c ?s off ?s] assms(2) by simp
  from mar [OF this] obtain b where b: "lib_marshal_meta L \<lparr>md_filename = base_name p,
      md_size = int (length c), md_chunks = total_chunks (int (length c)), md_resume_offset = off\<rparr> = Some b"
    by (auto simp: file_meta_def)
  have "calm wire ?s" using assms(1) by (simp add: calm_def wire_up_def)
  from send_body_calm [where L = L and i = i, OF this b] obtain s' where
    "send_body L wire i p (int (length c)) off (Some (drop (nat off) c)) ?s = (Inr (), s')" "calm wire s'"
    by blast
  with off f assms(2) show ?thesis
    by (simp add: stream_file_def on_fs_def os_open_def os_stat_size_def next_fault_none)
qed

lemma send_batch_calm:
  assumes "calm WSWire s" and "sn_transport s = TransportWS"
    and "fmlookup (fs_files (sn_fs s)) p = Some c"
    and mar: "\<And>off. offset_ok (sn_pending s) p c off \<Longrightarrow> \<exists>b. lib_marshal_meta L (file_meta p c off) = Some b"
  shows "negotiate_or_reuse L N s = (Inr WSWire, s) \<and> (\<exists>s'. send_batch L N [p] s = (Inr (), s'))"
proof -
  have n: "negotiate_or_reuse L N s = (Inr WSWire, s)"
    using assms(2) by (simp add: negotiate_or_reuse_def)
  obtain s1 where s1: "stream_file L WSWire 0 p s = (Inr (), s1)" "calm WSWire s1"
    using stream_file_calm [where L = L and i = 0, OF assms(1,3) mar] by blast
  obtain s2 where "send_on L WSWire new_session_end_message s1 = (Inr (), s2)"
    using calm_send_on [OF s1(2)] by blast
  with n s1 show ?thesis by (simp add: send_batch_def)
qed

section \<open>The transport\<close>

text \<open>
  The invariant of the transport state: a peer is held exactly in the P2P state, and it is not
  among the peers that were closed.
\<close>

definition transport_inv :: "sender \<Rightarrow> bool" where
  "transport_inv s \<longleftrightarrow> (sn_transport s = TransportP2P) = (sn_peer s \<noteq> None)"

lemma transport_inv_quiet: "quiet s s' \<Longrightarrow> transport_inv s \<Longrightarrow> transport_inv s'"
  by (simp add: quiet_def transport_inv_def)

lemma quiet_send_body: "send_body L wire i p n off src a = (r, b) \<Longrightarrow> quiet a b"
  by (auto simp: send_body_def split: option.splits prod.splits sum.splits if_splits
      intro: quiet_trans dest!: quiet_send_on quiet_send_loop) (blast intro: quiet_trans)+

lemma quiet_resume_offset: "resume_offset q p n s = (off, s') \<Longrightarrow> quiet s s'"
  by (auto simp: resume_offset_def split: option.splits if_splits prod.splits sum.splits
      dest!: quiet_hash quiet_seek intro: quiet_trans)

lemma quiet_open: "on_fs (os_open p) s = (r, s') \<Longrightarrow> quiet s s'"
  by (frule on_fs_run, rule quiet_on_fs, assumption, erule os_open_frame)

lemma quiet_stat: "on_fs (os_stat_size n src) s = (r, s') \<Longrightarrow> quiet s s'"
  by (frule on_fs_run, rule quiet_on_fs, assumption, erule os_stat_size_frame)

lemma quiet_stream_file: "stream_file L wire i p s = (r, s') \<Longrightarrow> quiet (s\<lparr>sn_pending := None\<rparr>) s'"
  by (auto simp: stream_file_def Let_def split: prod.splits sum.splits
      dest!: quiet_open quiet_stat quiet_resume_offset quiet_send_body intro: quiet_trans)

lemma transport_inv_stream_file:
  "stream_file L wire i p s = (r, s') \<Longrightarrow> transport_inv s \<Longrightarrow> transport_inv s'"
  by (drule quiet_stream_file, erule transport_inv_quiet) (simp add: transport_inv_def)

lemma close_peer_fields [simp]:
  "sn_peer (close_peer s) = None" "sn_transport (close_peer s) = sn_transport s"
  by (simp_all add: close_peer_def)

lemma transport_inv_send_paths:
  "send_paths L wire i ps s = (r, s') \<Longrightarrow> transport_inv s \<Longrightarrow>
     transport_inv s' \<and> (r \<noteq> Inr () \<longrightarrow> sn_peer s' = None)"
proof (induction ps arbitrary: i s)
  case (Cons p ps)
  obtain r1 s1 where st: "stream_file L wire i p s = (r1, s1)" by (metis surj_pair)
  have inv: "transport_inv s1" using st Cons.prems(2) by (rule transport_inv_stream_file)
  show ?case
  proof (cases r1)
    case (Inl e)
    with Cons.prems(1) st inv show ?thesis
      by (auto simp: transport_inv_def split: if_splits)
  next
    case (Inr u)
    with Cons st inv show ?thesis by auto
  qed
qed auto

lemma transport_inv_negotiate:
  "negotiate_or_reuse L N s = (r, s') \<Longrightarrow> transport_inv s \<Longrightarrow>
     transport_inv s' \<and> (case r of Inl _ \<Rightarrow> sn_peer s' = None
       | Inr PeerWire \<Rightarrow> sn_transport s' = TransportP2P | Inr WSWire \<Rightarrow> sn_transport s' = TransportWS)"
  by (cases "sn_transport s")
    (auto simp: negotiate_or_reuse_def transport_inv_def Let_def split: if_splits prod.splits sum.splits)

lemma transport_inv_send_batch:
  assumes "send_batch L N paths s = (r, s')" and "transport_inv s" and "paths \<noteq> []"
  shows "transport_inv s' \<and> (r \<noteq> Inr () \<longrightarrow> sn_peer s' = None \<and> sn_transport s' \<noteq> TransportP2P)"
proof -
  obtain r1 s1 where n: "negotiate_or_reuse L N s = (r1, s1)" by (metis surj_pair)
  note i1 = transport_inv_negotiate [OF n assms(2)]
  show ?thesis
  proof (cases r1)
    case (Inl e)
    with assms n i1 show ?thesis by (auto simp: send_batch_def transport_inv_def)
  next
    case (Inr wire)
    obtain r2 s2 where p: "send_paths L wire 0 paths s1 = (r2, s2)" by (metis surj_pair)
    note i2 = transport_inv_send_paths [OF p conjunct1 [OF i1]]
    obtain r3 s3 where e: "send_on L wire new_session_end_message s2 = (r3, s3)" by (metis surj_pair)
    have i3: "transport_inv s3"
      using transport_inv_quiet [OF quiet_send_on [OF e]] i2 by simp
    have pe: "sn_transport s3 = sn_transport s2" "(sn_peer s3 = None) = (sn_peer s2 = None)"
      using quiet_send_on [OF e] by (simp_all add: quiet_def)
    show ?thesis
    proof (cases r2)
      case (Inl x)
      with assms n Inr p i2 show ?thesis
        by (auto simp: send_batch_def transport_inv_def)
    next
      case (Inr u)
      with assms n \<open>r1 = Inr wire\<close> p e i3 pe show ?thesis
        by (cases r3) (auto simp: send_batch_def transport_inv_def split: if_splits)
    qed
  qed
qed

lemma close_transport_inv:
  "transport_inv s \<Longrightarrow> transport_inv (close_transport s) \<and> sn_peer (close_transport s) = None \<and>
     sn_transport (close_transport s) \<noteq> TransportP2P"
  by (auto simp: close_transport_def transport_inv_def Let_def split: option.splits)

section \<open>Waiting for the receiver\<close>

text \<open>The resume request that counts: the last one that arrived, or the one from before.\<close>

fun last_request :: "libs \<Rightarrow> message list \<Rightarrow> resume_request option \<Rightarrow> resume_request option" where
  "last_request L [] q = q"
| "last_request L (m # ms) q =
     last_request L ms (if mtype m = MsgTypeResumeRequest then parse_resume_request (lib_unmarshal_resume L) (payload m) else q)"

lemma wait_loop_Inr:
  "wait_for_peer_loop L rds q = (Inr (), rest, q') \<Longrightarrow>
     \<exists>pre m. rds = map Inr pre @ Inr m # rest \<and> mtype m = MsgTypePeerJoin \<and>
       payload m \<noteq> [] \<and> payload m ! 0 = ProtocolVersion \<and>
       list_all (\<lambda>x. mtype x \<noteq> MsgTypePeerJoin) pre \<and> q' = last_request L pre q"
proof (induction L rds q arbitrary: rest q' rule: wait_for_peer_loop.induct)
  case (3 L msg rds q)
  show ?case
  proof (cases "mtype msg = MsgTypePeerJoin")
    case True
    with "3.prems" show ?thesis
      by (intro exI [of _ "[]"] exI [of _ msg]) (auto simp: msg_type_defs split: if_splits)
  next
    case False
    with 3 obtain pre m q1 where "rds = map Inr pre @ Inr m # rest" "mtype m = MsgTypePeerJoin"
        "payload m \<noteq> []" "payload m ! 0 = ProtocolVersion"
        "list_all (\<lambda>x. mtype x \<noteq> MsgTypePeerJoin) pre" "q' = last_request L pre q1"
        "q1 = (if mtype msg = MsgTypeResumeRequest then parse_resume_request (lib_unmarshal_resume L) (payload msg) else q)"
      by (fastforce split: if_splits option.splits)
    with False show ?thesis
      by (intro exI [of _ "msg # pre"] exI [of _ m]) auto
  qed
qed simp_all

section \<open>Properties\<close>

definition sample_sender :: "filesys \<Rightarrow> sender" where
  "sample_sender fs =
     \<lparr>sn_key = sample_key, sn_conn = sample_link, sn_in = [], sn_peer = None,
      sn_transport = TransportWS, sn_pending = None, sn_fs = fs, sn_limits = [], sn_dir_size = 0,
      sn_progress = [], sn_closed = []\<rparr>"

definition sample_negotiation :: negotiation where
  "sample_negotiation =
     \<lparr>nt_rtc = \<lparr>rtc_new_peer = False, rtc_create_offer = None, rtc_answer_offer = (\<lambda>_. None),
        rtc_set_answer = (\<lambda>_. False)\<rparr>,
      nt_events = [], nt_channel = sample_link, nt_text = (\<lambda>_. [])\<rparr>"

definition sample_disk :: "path \<Rightarrow> bytes \<Rightarrow> filesys" where
  "sample_disk p c = \<lparr>fs_files = fmupd p c fmempty, fs_dirs = {||}, fs_faults = []\<rparr>"

definition name_libs :: libs where
  "name_libs = sample_libs (\<lambda>_. Some [1]) (\<lambda>_. None)"

lemma sample_sender_fields [simp]:
  "sn_key (sample_sender fs) = sample_key" "sn_transport (sample_sender fs) = TransportWS"
  "sn_fs (sample_sender fs) = fs" "sn_limits (sample_sender fs) = []" "sn_pending (sample_sender fs) = None"
  "fs_faults (sample_disk p c) = []" "fmlookup (fs_files (sample_disk p c)) p = Some c"
  by (simp_all add: sample_sender_def sample_disk_def)

lemma sample_sender_calm: "fs_faults fs = [] \<Longrightarrow> calm WSWire (sample_sender fs)"
  by (simp add: calm_def sample_sender_def wire_up_def wire_link_def)

lemma name_libs_ok: "sound name_libs" "marshal_fits name_libs n"
    "lib_marshal_meta name_libs m = Some [1]"
  by (simp_all add: sound_def name_libs_def marshal_fits_def frameable_def meta_message_def)

text \<open>
  C11: Whatever fails on the way (the disk, the random source, the connection), \<open>streamFile\<close>
  puts on the wire frames that open to a prefix of: the metadata of this file, chunks of 1
  to 65536 bytes that are in order the bytes of the file from the announced offset, and
  \<open>Complete\<close>.  \<open>Complete\<close> is there only when all the bytes are, and then the call succeeds.
  The announced offset is 0 or one that the pending resume request earned: a chunk boundary,
  with the hash of exactly these first bytes.
\<close>

theorem stream_file_messages:
  assumes "sound L" and "wire_ok wire s" and "marshal_fits L (base_name p)"
    and "fmlookup (fs_files (sn_fs s)) p = Some c"
  shows "case stream_file L wire i p s of
     (res, s') \<Rightarrow> \<exists>ms. carries L wire s s' ms \<and>
        (case res of Inl _ \<Rightarrow> file_cut L (sn_pending s) p c ms
         | Inr _ \<Rightarrow> file_sent L (sn_pending s) p c ms)"
  using stream_file_trace [OF _ assms] by (auto split: prod.split)

theorem stream_file_messages_witness:
  "case stream_file name_libs WSWire 0 ''a.txt'' (sample_sender (sample_disk ''a.txt'' [1, 2])) of
     (res, s') \<Rightarrow> \<exists>ms. carries name_libs WSWire (sample_sender (sample_disk ''a.txt'' [1, 2])) s' ms \<and>
        (case res of Inl _ \<Rightarrow> file_cut name_libs (sn_pending (sample_sender (sample_disk ''a.txt'' [1, 2]))) ''a.txt'' [1, 2] ms
         | Inr _ \<Rightarrow> file_sent name_libs (sn_pending (sample_sender (sample_disk ''a.txt'' [1, 2]))) ''a.txt'' [1, 2] ms)"
  by (rule stream_file_messages) (simp_all add: name_libs_ok calm_ok sample_sender_calm)



text \<open>
  C20: The transport state and the peer agree in every reachable state of a sender: a peer is
  held exactly in the P2P state.  A failed batch never leaves a data channel behind, so the
  next batch negotiates again, and \<open>CloseTransport\<close> always ends without a peer.
\<close>

theorem transport_state_agrees:
  assumes "transport_inv s" and "paths \<noteq> []"
  shows "(case send_batch L N paths s of (r, s') \<Rightarrow> transport_inv s' \<and>
       (case r of Inl _ \<Rightarrow> sn_peer s' = None \<and> sn_transport s' \<noteq> TransportP2P | Inr _ \<Rightarrow> True))
     \<and> transport_inv (close_transport s) \<and> sn_peer (close_transport s) = None
     \<and> sn_transport (close_sender s) = TransportIdle \<and> sn_peer (close_sender s) = None"
  using transport_inv_send_batch [OF _ assms] close_transport_inv [OF assms(1)]
  by (auto simp: close_sender_def split: prod.split sum.split)

theorem transport_state_agrees_witness:
  "(case send_batch name_libs sample_negotiation [''a''] (sample_sender (sample_disk ''a'' [])) of (r, s') \<Rightarrow> transport_inv s' \<and>
       (case r of Inl _ \<Rightarrow> sn_peer s' = None \<and> sn_transport s' \<noteq> TransportP2P | Inr _ \<Rightarrow> True))
     \<and> transport_inv (close_transport (sample_sender (sample_disk ''a'' [])))
     \<and> sn_peer (close_transport (sample_sender (sample_disk ''a'' []))) = None
     \<and> sn_transport (close_sender (sample_sender (sample_disk ''a'' []))) = TransportIdle
     \<and> sn_peer (close_sender (sample_sender (sample_disk ''a'' []))) = None"
  by (rule transport_state_agrees) (simp_all add: transport_inv_def sample_sender_def)

text \<open>
  \<open>WaitForPeer\<close> returns without an error only on a \<open>PeerJoin\<close> that carries this protocol
  version, the first one to arrive, and then the pending resume request is the last one that
  came before it.
\<close>

theorem wait_for_peer_joined:
  assumes "wait_for_peer L s = (Inr (), s')"
  shows "\<exists>pre m. sn_in s = map Inr pre @ Inr m # sn_in s' \<and> mtype m = MsgTypePeerJoin \<and>
       payload m \<noteq> [] \<and> payload m ! 0 = ProtocolVersion \<and>
       list_all (\<lambda>x. mtype x \<noteq> MsgTypePeerJoin) pre \<and>
       sn_pending s' = last_request L pre (sn_pending s)"
  using assms by (auto simp: wait_for_peer_def split: prod.splits dest!: wait_loop_Inr)

theorem wait_for_peer_joined_witness:
  "\<exists>pre m. [Inr new_ready_message, Inr new_peer_join_message] = map Inr pre @ Inr m # ([] :: reads) \<and>
     mtype m = MsgTypePeerJoin \<and> payload m \<noteq> [] \<and> payload m ! 0 = ProtocolVersion \<and>
     list_all (\<lambda>x. mtype x \<noteq> MsgTypePeerJoin) pre \<and> None = last_request name_libs pre None"
  using wait_for_peer_joined [of name_libs
      "sample_sender (sample_disk [] [])\<lparr>sn_in := [Inr new_ready_message, Inr new_peer_join_message]\<rparr>"
      "sample_sender (sample_disk [] [])"]
  by (simp add: wait_for_peer_def sample_sender_def message_constructors msg_type_defs)

end
