(* ===== verification/Session.thy ===== *)
theory Session
  imports Receiver SenderProps
begin

text \<open>
  The receive session of \<open>internal/transfer/receiver.go\<close>: batches of files
  (\<open>receiveBatch\<close>), the session's opening and negotiation (\<open>openReceiveSession\<close>), and the
  entry points \<open>ReceiveFile\<close>, \<open>ReceiveFiles\<close> and \<open>ReceiveBatches\<close> with their restarts.
  \<open>bw_progress\<close> records the calls of the caller's progress function.
\<close>

section \<open>One batch\<close>

record batch_world =
  bw_world :: recv_world
  bw_progress :: "(nat \<times> int \<times> int) list"

text \<open>\<open>recvFile\<close> with the wrapped progress function of one file of a batch.\<close>

definition recv_indexed ::
  "libs \<Rightarrow> receiver \<Rightarrow> path \<Rightarrow> nat \<Rightarrow> message option \<Rightarrow> reads \<Rightarrow> batch_world \<Rightarrow>
     (recv_error + path) \<times> reads \<times> batch_world" where
  "recv_indexed L r destDir fileIdx primed rds b =
     (case recv_file L r destDir primed rds ((bw_world b)\<lparr>rw_progress := []\<rparr>) of
        (res, rest, w) \<Rightarrow>
          (res, rest,
           b\<lparr>bw_world := w, bw_progress := bw_progress b @ map (Pair fileIdx) (rw_progress w)\<rparr>))"

definition batch_handshake ::
  "libs \<Rightarrow> receiver \<Rightarrow> message \<Rightarrow> batch_world \<Rightarrow> (recv_error + unit) \<times> batch_world" where
  "batch_handshake L r msg b =
     (case re_handshake L r msg (bw_world b) of (res, w) \<Rightarrow> (res, b\<lparr>bw_world := w\<rparr>))"

text \<open>The result of \<open>receiveBatch\<close>: the paths, whether the session is still open, the error.\<close>

type_synonym batch_result = "path list \<times> bool \<times> recv_error option"

lemma recv_loop_shorter: "recv_loop L r d rds st w = (res, rest, w') \<Longrightarrow> length rest \<le> length rds"
proof (induction L r d rds st w rule: recv_loop.induct)
  case (3 L r d msg rest' st w)
  obtain x st1 w1 where h: "handle_msg L r d msg st w = (x, st1, w1)"
    by (cases "handle_msg L r d msg st w") auto
  show ?case
  proof (cases "x = Inr None")
    case True
    with 3 h show ?thesis by fastforce
  next
    case False
    with 3 h show ?thesis by (auto split: sum.splits option.splits)
  qed
qed auto

lemma recv_indexed_shorter:
  assumes "recv_indexed L r d i primed rds b = (res, rest, b')"
  shows "length rest \<le> length rds"
proof -
  obtain w where "recv_file L r d primed rds ((bw_world b)\<lparr>rw_progress := []\<rparr>) = (res, rest, w)"
    using assms by (auto simp: recv_indexed_def split: prod.splits)
  then show ?thesis
    by (auto simp: recv_file_def split: option.splits prod.splits sum.splits dest!: recv_loop_shorter)
qed

function batch_loop ::
  "libs \<Rightarrow> receiver \<Rightarrow> path \<Rightarrow> message option \<Rightarrow> nat \<Rightarrow> path list \<Rightarrow> reads \<Rightarrow> batch_world \<Rightarrow>
     batch_result \<times> reads \<times> batch_world" where
  "batch_loop L r destDir primed fileIdx paths rds b =
     (case recv_indexed L r destDir fileIdx primed rds b of
        (Inl e, rest, b1) \<Rightarrow> ((paths, False, Some e), rest, b1)
      | (Inr path, rest, b1) \<Rightarrow>
          let paths1 = paths @ [path] in
          (case rest of
             [] \<Rightarrow> ((paths1, False, Some (ReadMessage ReadTimeout)), [], b1)
           | Inl e # rest1 \<Rightarrow>
               (if length paths1 > 0 \<and> is_session_end_read_err L e then ((paths1, False, None), rest1, b1)
                else if length paths1 = 0 \<and> is_session_end_read_err L e then
                  (([], False, Some ClosedBeforeAnyFile), rest1, b1)
                else ((paths1, False, Some (ReadMessage e)), rest1, b1))
           | Inr msg # rest1 \<Rightarrow>
               (if mtype msg = MsgTypeSessionEnd then ((paths1, True, None), rest1, b1)
                else if mtype msg = MsgTypeMetadata then
                  batch_loop L r destDir (Some msg) (Suc fileIdx) paths1 rest1 b1
                else if mtype msg = MsgTypeVersion then
                  (case batch_handshake L r msg b1 of
                     (Inl e, b2) \<Rightarrow> ((paths1, False, Some e), rest1, b2)
                   | (Inr _, b2) \<Rightarrow> ((paths1, False, Some SenderRestarted), rest1, b2))
                else ((paths1, False, Some (UnexpectedAfterFile (mtype msg))), rest1, b1))))"
  by pat_completeness auto

termination
  by (relation "measure (\<lambda>(_, _, _, _, _, _, rds, _). length rds)")
    (auto dest!: sym [of _ "recv_indexed _ _ _ _ _ _ _"] recv_indexed_shorter)

declare batch_loop.simps [simp del]

definition receive_batch ::
  "libs \<Rightarrow> receiver \<Rightarrow> path \<Rightarrow> message option \<Rightarrow> bool \<Rightarrow> reads \<Rightarrow> batch_world \<Rightarrow>
     batch_result \<times> reads \<times> batch_world" where
  "receive_batch L r destDir primed allowIdle rds b =
     (if primed = None \<and> allowIdle then
        (case rds of
           [] \<Rightarrow> (([], False, Some (ReadMessage ReadTimeout)), [], b)
         | Inl e # rest \<Rightarrow>
             (if is_session_end_read_err L e then (([], False, None), rest, b)
              else (([], False, Some (ReadMessage e)), rest, b))
         | Inr first # rest \<Rightarrow>
             (if mtype first = MsgTypeMetadata then batch_loop L r destDir (Some first) 0 [] rest b
              else if mtype first = MsgTypeSessionEnd then (([], False, None), rest, b)
              else if mtype first = MsgTypeVersion then
                (case batch_handshake L r first b of
                   (Inl e, b1) \<Rightarrow> (([], False, Some e), rest, b1)
                 | (Inr _, b1) \<Rightarrow> (([], False, Some SenderRestarted), rest, b1))
              else (([], False, Some (UnexpectedBetweenBatches (mtype first))), rest, b)))
      else batch_loop L r destDir primed 0 [] rds b)"

section \<open>What a batch stores\<close>

text \<open>
  The abstract specification of receiving: for the metadata payload of a file, the path it is
  stored under and the content it starts from (empty, or the part file of a granted resume);
  and the disk after a list of files.
\<close>

definition accepts :: "libs \<Rightarrow> receiver \<Rightarrow> path \<Rightarrow> filesys \<Rightarrow> bytes \<Rightarrow> (path \<times> bytes) option" where
  "accepts L r d fs b =
     (case lib_unmarshal_meta L b of
        None \<Rightarrow> None
      | Some meta \<Rightarrow>
          (case safe_filename (md_filename meta) of
             Inl _ \<Rightarrow> None
           | Inr n \<Rightarrow>
               (case unique_path fs (join d n) of
                  None \<Rightarrow> None
                | Some dest \<Rightarrow>
                    if dest @ ''.part'' |\<in>| fs_dirs fs then None
                    else if wants_resume r n meta then
                      (case fmlookup (fs_files fs) (dest @ ''.part'') of
                         None \<Rightarrow> None
                       | Some old \<Rightarrow>
                           if int (length old) = md_resume_offset meta then Some (dest, old) else None)
                    else Some (dest, []))))"

definition put_file :: "path \<Rightarrow> bytes \<Rightarrow> filesys \<Rightarrow> filesys" where
  "put_file dest c fs =
     fs\<lparr>fs_files := fmupd dest c (fmdrop (dest @ ''.part'') (fs_files fs))\<rparr>"

fun accept_all ::
  "libs \<Rightarrow> receiver \<Rightarrow> path \<Rightarrow> filesys \<Rightarrow> (bytes \<times> bytes list) list \<Rightarrow> (path list \<times> filesys) option" where
  "accept_all L r d fs [] = Some ([], fs)"
| "accept_all L r d fs ((b, cs) # files) =
     (case accepts L r d fs b of
        None \<Rightarrow> None
      | Some (dest, old) \<Rightarrow>
          (case accept_all L r d (put_file dest (old @ concat cs) fs) files of
             None \<Rightarrow> None
           | Some (ps, fs') \<Rightarrow> Some (dest # ps, fs')))"

fun batch_reads :: "(bytes \<times> bytes list) list \<Rightarrow> reads \<Rightarrow> reads" where
  "batch_reads [] rest = Inr new_session_end_message # rest"
| "batch_reads ((b, cs) # files) rest = Inr (meta_message b) # file_reads cs (batch_reads files rest)"

lemma recv_loop_accepts:
  assumes "fs_faults (rw_fs w) = []" and "accepts L r d (rw_fs w) b = Some (dest, old)"
  shows "\<exists>w'. recv_loop L r d (Inr (meta_message b) # file_reads cs rest) recv_init w = (Inr dest, rest, w') \<and>
     rw_fs w' = put_file dest (old @ concat cs) (rw_fs w) \<and> rw_link w' = rw_link w"
proof -
  obtain meta n where m: "lib_unmarshal_meta L b = Some meta" "safe_filename (md_filename meta) = Inr n"
      "unique_path (rw_fs w) (join d n) = Some dest" "dest @ ''.part'' |\<notin>| fs_dirs (rw_fs w)"
      "if wants_resume r n meta
       then fmlookup (fs_files (rw_fs w)) (dest @ ''.part'') = Some old \<and>
            int (length old) = md_resume_offset meta
       else old = []"
    using assms(2) by (auto simp: accepts_def split: option.splits sum.splits if_splits)
  from recv_loop_delivers [OF assms(1) m, of cs rest] show ?thesis
    by (auto simp: meta_message_def delivered_def put_file_def)
qed

lemma recv_indexed_accepts:
  assumes "fs_faults (rw_fs (bw_world b)) = []"
    and "accepts L r d (rw_fs (bw_world b)) m = Some (dest, old)"
  shows "\<exists>b'. recv_indexed L r d i (Some (meta_message m)) (file_reads cs rest) b = (Inr dest, rest, b') \<and>
     rw_fs (bw_world b') = put_file dest (old @ concat cs) (rw_fs (bw_world b)) \<and>
     rw_link (bw_world b') = rw_link (bw_world b)"
proof -
  let ?w = "(bw_world b)\<lparr>rw_progress := []\<rparr>"
  have "fs_faults (rw_fs ?w) = []" "accepts L r d (rw_fs ?w) m = Some (dest, old)"
    using assms by simp_all
  from recv_loop_accepts [OF this, of cs rest] show ?thesis
    by (auto simp: recv_indexed_def recv_file_loop simp del: recv_loop.simps)
qed

lemma put_file_faults [simp]: "fs_faults (put_file p c fs) = fs_faults fs"
  by (simp add: put_file_def)

lemma batch_loop_accepts:
  assumes "fs_faults (rw_fs (bw_world b)) = []"
    and "accept_all L r d (rw_fs (bw_world b)) ((m, cs) # files) = Some (ps, fs')"
  shows "\<exists>b'. batch_loop L r d (Some (meta_message m)) i paths (file_reads cs (batch_reads files rest)) b =
       ((paths @ ps, True, None), rest, b') \<and> rw_fs (bw_world b') = fs' \<and>
       rw_link (bw_world b') = rw_link (bw_world b)"
  using assms
proof (induction files arbitrary: m cs i paths b ps)
  case Nil
  then obtain dest old where a: "accepts L r d (rw_fs (bw_world b)) m = Some (dest, old)"
      "ps = [dest]" "fs' = put_file dest (old @ concat cs) (rw_fs (bw_world b))"
    by (auto split: option.splits prod.splits)
  from recv_indexed_accepts [OF Nil.prems(1) a(1)] obtain b' where
      "recv_indexed L r d i (Some (meta_message m)) (file_reads cs (Inr new_session_end_message # rest)) b
         = (Inr dest, Inr new_session_end_message # rest, b')"
      "rw_fs (bw_world b') = fs'" "rw_link (bw_world b') = rw_link (bw_world b)"
    using a(3) by blast
  then show ?case
    using a(2) by (simp add: batch_loop.simps new_session_end_message_def)
next
  case (Cons mc files)
  obtain m1 cs1 where mc: "mc = (m1, cs1)" by force
  from Cons.prems(2) obtain dest old qs where a: "accepts L r d (rw_fs (bw_world b)) m = Some (dest, old)"
      "ps = dest # qs"
      "accept_all L r d (put_file dest (old @ concat cs) (rw_fs (bw_world b))) ((m1, cs1) # files) = Some (qs, fs')"
    unfolding mc by (auto split: option.splits prod.splits)
  let ?more = "file_reads cs1 (batch_reads files rest)"
  from recv_indexed_accepts [OF Cons.prems(1) a(1)] obtain b1 where
    b1: "recv_indexed L r d i (Some (meta_message m)) (file_reads cs (Inr (meta_message m1) # ?more)) b
         = (Inr dest, Inr (meta_message m1) # ?more, b1)"
      "rw_fs (bw_world b1) = put_file dest (old @ concat cs) (rw_fs (bw_world b))"
      "rw_link (bw_world b1) = rw_link (bw_world b)"
    by blast
  have "fs_faults (rw_fs (bw_world b1)) = []" using b1(2) Cons.prems(1) by simp
  from Cons.IH [OF this, of m1 cs1 qs "Suc i" "paths @ [dest]"] a(3) b1(2) obtain b' where
    "batch_loop L r d (Some (meta_message m1)) (Suc i) (paths @ [dest]) ?more b1 =
       (((paths @ [dest]) @ qs, True, None), rest, b')" "rw_fs (bw_world b') = fs'"
      "rw_link (bw_world b') = rw_link (bw_world b1)"
    by metis
  then show ?case
    using b1 a(2) mc
    by (subst batch_loop.simps) (simp add: meta_message_def msg_type_defs)
qed

text \<open>Both ways a batch may begin: the first message primed, or still to be read.\<close>

lemma batch_loop_unprimed:
  "batch_loop L r d None i paths (Inr m # rds) b = batch_loop L r d (Some m) i paths rds b"
proof -
  have "recv_indexed L r d i None (Inr m # rds) b = recv_indexed L r d i (Some m) rds b"
    by (simp add: recv_indexed_def recv_file_loop) (simp add: recv_file_def)
  then show ?thesis
    by (subst (1 2) batch_loop.simps) simp
qed

lemma receive_batch_accepts:
  assumes "fs_faults (rw_fs (bw_world b)) = []" and "files \<noteq> []"
    and "accept_all L r d (rw_fs (bw_world b)) files = Some (ps, fs')"
  shows "\<exists>b'. receive_batch L r d None idle (batch_reads files rest) b = ((ps, True, None), rest, b') \<and>
       rw_fs (bw_world b') = fs' \<and> rw_link (bw_world b') = rw_link (bw_world b)"
proof -
  obtain m cs more where f: "files = (m, cs) # more"
    using assms(2) by (cases files) force+
  from batch_loop_accepts [OF assms(1), of L r d m cs more ps fs' 0 "[]" rest] assms(3) f
  show ?thesis
    by (auto simp: receive_batch_def batch_loop_unprimed meta_message_def)
qed

section \<open>Sessions\<close>

text \<open>
  What the next negotiation meets on the receiver's side: the library, the order of events,
  what the data channel will deliver, and how many further messages the WebSocket reader of
  a session that fell back takes off the connection before it notices that it was stopped.
\<close>

record neg_script =
  ns_rtc :: rtc
  ns_events :: "neg_event list"
  ns_channel :: reads
  ns_swallowed :: nat

text \<open>
  \<open>ss_conn\<close> is what reading the connection will return.  The session's reader is the data
  channel when \<open>ss_peer\<close> holds its messages, and otherwise reads the connection, directly or
  through the goroutine of a failed negotiation (\<open>ss_tail\<close>); that goroutine closes its channel
  only after it has delivered an error, at which every caller stops.
\<close>

record session =
  ss_batch :: batch_world
  ss_conn :: reads
  ss_peer :: "reads option"
  ss_tail :: "nat option"
  ss_closed :: nat
  ss_negs :: "neg_script list"

definition session_reads :: "session \<Rightarrow> reads" where
  "session_reads s = (case ss_peer s of Some rds \<Rightarrow> rds | None \<Rightarrow> ss_conn s)"

definition after_batch :: "reads \<Rightarrow> batch_world \<Rightarrow> session \<Rightarrow> session" where
  "after_batch rest b s =
     (case ss_peer s of
        Some _ \<Rightarrow> s\<lparr>ss_peer := Some rest, ss_batch := b\<rparr>
      | None \<Rightarrow> s\<lparr>ss_conn := rest, ss_batch := b\<rparr>)"

text \<open>\<open>receiveSessionCleanup.run\<close>: first stop the negotiation's reader, then close the peer.\<close>

definition session_cleanup :: "session \<Rightarrow> session" where
  "session_cleanup s =
     (let s1 = (case ss_tail s of None \<Rightarrow> s
                | Some k \<Rightarrow> s\<lparr>ss_conn := drop k (ss_conn s), ss_tail := None\<rparr>)
      in case ss_peer s1 of None \<Rightarrow> s1
         | Some _ \<Rightarrow> s1\<lparr>ss_peer := None, ss_closed := Suc (ss_closed s1)\<rparr>)"

fun read_first ::
  "libs \<Rightarrow> receiver \<Rightarrow> reads \<Rightarrow> batch_world \<Rightarrow> (recv_error + message) \<times> reads \<times> batch_world" where
  "read_first L r [] b = (Inl (ReadFirstMessage ReadTimeout), [], b)"
| "read_first L r (Inl e # rest) b = (Inl (ReadFirstMessage e), rest, b)"
| "read_first L r (Inr m # rest) b =
     (if mtype m = MsgTypeVersion then
        (case batch_handshake L r m b of
           (Inl e, b1) \<Rightarrow> (Inl e, rest, b1)
         | (Inr _, b1) \<Rightarrow> read_first L r rest b1)
      else (Inr m, rest, b))"

definition open_receive_session ::
  "libs \<Rightarrow> receiver \<Rightarrow> session \<Rightarrow> (recv_error + message option) \<times> session" where
  "open_receive_session L r s =
     (case read_first L r (ss_conn s) (ss_batch s) of
        (Inl e, rest, b) \<Rightarrow> (Inl e, s\<lparr>ss_conn := rest, ss_batch := b\<rparr>)
      | (Inr first, rest, b) \<Rightarrow>
          let s1 = s\<lparr>ss_conn := rest, ss_batch := b\<rparr> in
          if mtype first = MsgTypeSDPOffer then
            (case ss_negs s1 of
               [] \<Rightarrow> (Inl NegotiationFailed, s1)
             | ns # negs \<Rightarrow>
                 (case negotiate_receiver L (rc_key r) (ns_rtc ns) (string_of (payload first))
                         (ns_events ns) (new_neg rest (rw_link (bw_world b))) of
                    (res, g) \<Rightarrow>
                      let s2 = s1\<lparr>ss_negs := negs,
                            ss_batch := b\<lparr>bw_world := (bw_world b)\<lparr>rw_link := ng_link g\<rparr>\<rparr>\<rparr>
                      in (case res of
                            Inl e \<Rightarrow>
                              if e = ErrPeerP2PFail then
                                (Inr None, s2\<lparr>ss_conn := ng_reads g, ss_tail := Some (ns_swallowed ns)\<rparr>)
                              else (Inl NegotiationFailed, s2)
                          | Inr _ \<Rightarrow>
                              (Inr None, s2\<lparr>ss_conn := ng_reads g, ss_peer := Some (ns_channel ns)\<rparr>))))
          else if mtype first = MsgTypeP2PFail then (Inr None, s1)
          else if mtype first \<in> {MsgTypeMetadata, MsgTypeChunk, MsgTypeComplete, MsgTypeError} then
            (Inr (Some first), s1)
          else (Inl (UnexpectedFirst (mtype first)), s1))"

lemma start_ws_reader_shorter: "length (start_ws_reader rds) \<le> length rds"
  by (induction rds rule: start_ws_reader.induct) auto

lemma negotiate_loop_shorter:
  "negotiate_receiver_loop L key dc rdy evs g = (res, g') \<Longrightarrow> length (ng_reads g') \<le> length (ng_reads g)"
proof (induction evs arbitrary: dc rdy g)
  case (Cons ev evs)
  from Cons.prems show ?case
    by (auto simp: Let_def split: if_splits neg_event.splits list.splits sum.splits dest!: Cons.IH)
qed (auto split: if_splits)

lemma negotiate_receiver_shorter:
  "negotiate_receiver L key R sdp evs (new_neg rds l) = (res, g') \<Longrightarrow> length (ng_reads g') \<le> length rds"
proof -
  assume n: "negotiate_receiver L key R sdp evs (new_neg rds l) = (res, g')"
  have nn: "ng_reads (new_neg rds l) = rds" by (simp add: new_neg_def)
  show ?thesis
    using n nn start_ws_reader_shorter [of rds]
    by (auto simp: negotiate_receiver_def split: if_splits sum.splits prod.splits
        dest!: signal_new negotiate_loop_shorter)
qed

lemma read_first_shorter:
  "read_first L r rds b = (Inr m, rest, b') \<Longrightarrow> length rest < length rds"
  by (induction L r rds b rule: read_first.induct) (auto split: if_splits prod.splits sum.splits)

lemma open_session_shorter:
  assumes "open_receive_session L r s = (Inr p, s')"
  shows "length (ss_conn s') < length (ss_conn s)"
proof -
  obtain m rest b where f: "read_first L r (ss_conn s) (ss_batch s) = (Inr m, rest, b)"
    using assms by (cases "read_first L r (ss_conn s) (ss_batch s)")
      (auto simp: open_receive_session_def split: sum.splits)
  then have "length (ss_conn s') \<le> length rest"
    using assms by (auto simp: open_receive_session_def Let_def
        split: if_splits list.splits prod.splits sum.splits dest!: negotiate_receiver_shorter)
  with read_first_shorter [OF f] show ?thesis by simp
qed

lemma cleanup_shorter: "length (ss_conn (session_cleanup s)) \<le> length (ss_conn s)"
  by (simp add: session_cleanup_def Let_def split: option.split)

lemma batch_loop_shorter:
  "batch_loop L r d p i ps rds b = (x, rest, b') \<Longrightarrow> length rest \<le> length rds"
proof (induction "length rds" arbitrary: p i ps rds b rule: less_induct)
  case less
  obtain y rest0 b1 where ri: "recv_indexed L r d i p rds b = (y, rest0, b1)" by (metis surj_pair)
  note l0 = recv_indexed_shorter [OF ri]
  show ?case
  proof (cases "\<exists>m rest1. y = Inr m \<and> (\<exists>msg. rest0 = Inr msg # rest1 \<and> mtype msg = MsgTypeMetadata)")
    case True
    then obtain path msg rest1 where t: "y = Inr path" "rest0 = Inr msg # rest1" "mtype msg = MsgTypeMetadata"
      by blast
    with less.prems ri have "batch_loop L r d (Some msg) (Suc i) (ps @ [path]) rest1 b1 = (x, rest, b')"
      by (subst (asm) batch_loop.simps) (simp add: msg_type_defs)
    from less.hyps [OF _ this] t l0 show ?thesis by simp
  next
    case False
    with less.prems ri l0 show ?thesis
      by (subst (asm) batch_loop.simps) (auto simp: Let_def split: sum.splits list.splits if_splits prod.splits)
  qed
qed

lemma receive_batch_shorter:
  "receive_batch L r d p idle rds b = (x, rest, b') \<Longrightarrow> length rest \<le> length rds"
  by (auto simp: receive_batch_def split: if_splits list.splits sum.splits prod.splits
      dest!: batch_loop_shorter)

section \<open>The entry points\<close>

lemma batch_loop_open_shorter:
  "batch_loop L r d p i ps rds b = ((qs, True, e), rest, b') \<Longrightarrow> length rest < length rds"
proof (induction "length rds" arbitrary: p i ps rds b rule: less_induct)
  case less
  obtain y rest0 b1 where ri: "recv_indexed L r d i p rds b = (y, rest0, b1)" by (metis surj_pair)
  note l0 = recv_indexed_shorter [OF ri]
  show ?case
  proof (cases "\<exists>m rest1. y = Inr m \<and> (\<exists>msg. rest0 = Inr msg # rest1 \<and> mtype msg = MsgTypeMetadata)")
    case True
    then obtain path msg rest1 where t: "y = Inr path" "rest0 = Inr msg # rest1" "mtype msg = MsgTypeMetadata"
      by blast
    with less.prems ri have "batch_loop L r d (Some msg) (Suc i) (ps @ [path]) rest1 b1 = ((qs, True, e), rest, b')"
      by (subst (asm) batch_loop.simps) (simp add: msg_type_defs)
    from less.hyps [OF _ this] t l0 show ?thesis by simp
  next
    case False
    with less.prems ri l0 show ?thesis
      by (subst (asm) batch_loop.simps) (auto simp: Let_def split: sum.splits list.splits if_splits prod.splits)
  qed
qed

lemma receive_batch_open_shorter:
  "receive_batch L r d p idle rds b = ((qs, True, e), rest, b') \<Longrightarrow> length rest < length rds"
  by (auto simp: receive_batch_def split: if_splits list.splits sum.splits prod.splits
      dest!: batch_loop_open_shorter)

definition run_batch ::
  "libs \<Rightarrow> receiver \<Rightarrow> path \<Rightarrow> message option \<Rightarrow> bool \<Rightarrow> session \<Rightarrow> batch_result \<times> session" where
  "run_batch L r d primed idle s =
     (case receive_batch L r d primed idle (session_reads s) (ss_batch s) of
        (x, rest, b) \<Rightarrow> (x, after_batch rest b s))"

lemma run_batch_shorter:
  assumes "run_batch L r d p idle s = ((ps, op, e), s')"
  shows "length (ss_conn s') \<le> length (ss_conn s)" and "(ss_peer s' = None) = (ss_peer s = None)"
    and "op \<Longrightarrow> length (session_reads s') < length (session_reads s)"
    and "ss_peer s \<noteq> None \<Longrightarrow> ss_conn s' = ss_conn s"
  using assms
  by (auto simp: run_batch_def after_batch_def session_reads_def split: prod.splits option.splits
      dest: receive_batch_shorter receive_batch_open_shorter)

function receive_files_loop ::
  "libs \<Rightarrow> receiver \<Rightarrow> path \<Rightarrow> message option \<Rightarrow> session \<Rightarrow> (path list \<times> recv_error option) \<times> session" where
  "receive_files_loop L r destDir primed s =
     (case run_batch L r destDir primed False s of
        ((paths, _, rerr), s1) \<Rightarrow>
          if rerr \<noteq> Some SenderRestarted then ((paths, rerr), s1)
          else case open_receive_session L r (session_cleanup s1) of
            (Inl e, s2) \<Rightarrow> (([], Some e), s2)
          | (Inr p, s2) \<Rightarrow> receive_files_loop L r destDir p s2)"
  by pat_completeness auto

termination
proof (relation "measure (\<lambda>(_, _, _, _, s). length (ss_conn s))", goal_cases)
  case (2 L r d p s x s1 ps y op rerr z s2 p2)
  then have "length (ss_conn s2) < length (ss_conn (session_cleanup s1))"
    using open_session_shorter [of L r "session_cleanup s1"] by metis
  also have "\<dots> \<le> length (ss_conn s1)" by (rule cleanup_shorter)
  also have "\<dots> \<le> length (ss_conn s)"
    using 2 run_batch_shorter(1) [of L r d p False s ps op rerr s1] by simp
  finally show ?case by simp
qed simp

declare receive_files_loop.simps [simp del]

definition check_destination :: "path \<Rightarrow> session \<Rightarrow> recv_error option" where
  "check_destination destDir s =
     (let fs = rw_fs (bw_world (ss_batch s))
      in if \<not> fs_exists fs destDir then Some DestinationMissing
         else if destDir |\<notin>| fs_dirs fs then Some DestinationNotDirectory else None)"

definition receive_files ::
  "libs \<Rightarrow> receiver \<Rightarrow> path \<Rightarrow> session \<Rightarrow> (path list \<times> recv_error option) \<times> session" where
  "receive_files L r destDir s =
     (case check_destination destDir s of
        Some e \<Rightarrow> (([], Some e), s)
      | None \<Rightarrow>
          (case open_receive_session L r s of
             (Inl e, s1) \<Rightarrow> (([], Some e), session_cleanup s1)
           | (Inr primed, s1) \<Rightarrow>
               (case receive_files_loop L r destDir primed s1 of (x, s2) \<Rightarrow> (x, session_cleanup s2))))"

definition receive_file ::
  "libs \<Rightarrow> receiver \<Rightarrow> path \<Rightarrow> session \<Rightarrow> (recv_error + path) \<times> session" where
  "receive_file L r destDir s =
     (case receive_files L r destDir s of
        ((_, Some e), s1) \<Rightarrow> (Inl e, s1)
      | ((paths, None), s1) \<Rightarrow>
          (case paths of [p] \<Rightarrow> (Inr p, s1) | _ \<Rightarrow> (Inl (NotASingleFile (length paths)), s1)))"

text \<open>What the data channel has still to deliver.\<close>

definition peer_left :: "session \<Rightarrow> nat" where
  "peer_left s = (case ss_peer s of None \<Rightarrow> 0 | Some rds \<Rightarrow> length rds)"

text \<open>
  \<open>ReceiveBatches\<close>: \<open>on_batch\<close> tells whether the caller's function returns without an error;
  its calls are collected.
\<close>

function receive_batches_loop ::
  "libs \<Rightarrow> receiver \<Rightarrow> path \<Rightarrow> (nat \<Rightarrow> path list \<Rightarrow> bool) \<Rightarrow> nat \<Rightarrow> message option \<Rightarrow>
     (nat \<times> path list) list \<Rightarrow> session \<Rightarrow> recv_error option \<times> (nat \<times> path list) list \<times> session" where
  "receive_batches_loop L r destDir on_batch batchIdx nextPrimed calls s =
     (case run_batch L r destDir nextPrimed (batchIdx > 0) s of
        ((paths, sessionOpen, rerr), s1) \<Rightarrow>
          let calls1 = calls @ [(batchIdx, paths)] in
          if rerr = Some SenderRestarted then
            (if length paths > 0 \<and> \<not> on_batch batchIdx paths then (Some BatchCallback, calls1, s1)
             else case open_receive_session L r (session_cleanup s1) of
               (Inl e, s2) \<Rightarrow> (Some e, (if length paths > 0 then calls1 else calls), s2)
             | (Inr p, s2) \<Rightarrow>
                 receive_batches_loop L r destDir on_batch
                   (if length paths > 0 then Suc batchIdx else batchIdx) p
                   (if length paths > 0 then calls1 else calls) s2)
          else if rerr \<noteq> None then (rerr, calls, s1)
          else if length paths = 0 then (None, calls, s1)
          else if \<not> on_batch batchIdx paths then (Some BatchCallback, calls1, s1)
          else if \<not> sessionOpen then (None, calls1, s1)
          else receive_batches_loop L r destDir on_batch (Suc batchIdx) None calls1 s1)"
  by pat_completeness auto

termination
proof (relation "measures [\<lambda>(_, _, _, _, _, _, _, s). length (ss_conn s), \<lambda>(_, _, _, _, _, _, _, s). peer_left s]",
    goal_cases)
  case (2 L r d ob i p calls s x s1 ps y op rerr c1 z s2 p2)
  then have "length (ss_conn s2) < length (ss_conn (session_cleanup s1))"
    using open_session_shorter [of L r "session_cleanup s1"] by metis
  also have "\<dots> \<le> length (ss_conn s1)" by (rule cleanup_shorter)
  also have "\<dots> \<le> length (ss_conn s)"
    using 2 run_batch_shorter(1) [of L r d p "i > 0" s ps op rerr s1] by simp
  finally show ?case by simp
next
  case (3 L r d ob i p calls s x s1 ps y op rerr c1)
  then have rb: "run_batch L r d p (i > 0) s = ((ps, op, rerr), s1)" and op by auto
  show ?case
  proof (cases "ss_peer s")
    case None
    then have "ss_peer s1 = None" using run_batch_shorter(2) [OF rb] by simp
    with None run_batch_shorter(3) [OF rb \<open>op\<close>] show ?thesis by (simp add: session_reads_def)
  next
    case (Some rds)
    then obtain rds1 where "ss_peer s1 = Some rds1" using run_batch_shorter(2) [OF rb] by auto
    with Some run_batch_shorter(3) [OF rb \<open>op\<close>] run_batch_shorter(4) [OF rb] show ?thesis
      by (simp add: session_reads_def peer_left_def)
  qed
qed simp

declare receive_batches_loop.simps [simp del]

definition receive_batches ::
  "libs \<Rightarrow> receiver \<Rightarrow> path \<Rightarrow> (nat \<Rightarrow> path list \<Rightarrow> bool) \<Rightarrow> session \<Rightarrow>
     recv_error option \<times> (nat \<times> path list) list \<times> session" where
  "receive_batches L r destDir on_batch s =
     (case check_destination destDir s of
        Some e \<Rightarrow> (Some e, [], s)
      | None \<Rightarrow>
          (case open_receive_session L r s of
             (Inl e, s1) \<Rightarrow> (Some e, [], session_cleanup s1)
           | (Inr primed, s1) \<Rightarrow>
               (case receive_batches_loop L r destDir on_batch 0 primed [] s1 of
                  (e, calls, s2) \<Rightarrow> (e, calls, session_cleanup s2))))"

section \<open>Connecting, and looking for a resumable file\<close>

definition receiver_connect_live ::
  "libs \<Rightarrow> receiver \<Rightarrow> link option \<Rightarrow> (sender_error + unit) \<times> link option" where
  "receiver_connect_live L r dialed =
     (case dialed of
        None \<Rightarrow> (Inl DialFailed, None)
      | Some l \<Rightarrow>
          (case (case rc_resume r of
                   None \<Rightarrow> (Inr (), l)
                 | Some q \<Rightarrow>
                     (case new_resume_request_message (lib_marshal_resume L) (rr_filename q) (rr_offset q)
                             (rr_prefix_hash q) of
                        None \<Rightarrow> (Inl ParseResumeRequest, l)
                      | Some m \<Rightarrow>
                          (case write_signal_msg L (rc_key r) m l of
                             (Inl e, l1) \<Rightarrow> (Inl (SendMetadata e), l1) | (Inr _, l1) \<Rightarrow> (Inr (), l1)))) of
             (Inl e, l1) \<Rightarrow> (Inl e, Some l1)
           | (Inr _, l1) \<Rightarrow>
               (case write_signal_msg L (rc_key r) new_peer_join_message l1 of
                  (Inl e, l2) \<Rightarrow> (Inl (SendVersion e), Some l2) | (Inr _, l2) \<Rightarrow> (Inr (), Some l2))))"

definition receiver_connect ::
  "libs \<Rightarrow> receiver \<Rightarrow> (link \<times> reads) option \<Rightarrow> (recv_error + unit) \<times> (link \<times> reads) option" where
  "receiver_connect L r dialed =
     (case dialed of
        None \<Rightarrow> (Inl (ReadFirstMessage NetError), None)
      | Some (l, rds) \<Rightarrow>
          (case rds of
             [] \<Rightarrow> (Inl (ReadFirstMessage ReadTimeout), Some (l, []))
           | Inl e # rest \<Rightarrow> (Inl (ReadFirstMessage e), Some (l, rest))
           | Inr versionMsg # rest \<Rightarrow>
               (if mtype versionMsg \<noteq> MsgTypeVersion \<or> \<not> version_ok versionMsg then
                  (Inl (VersionMismatch (version_got versionMsg)), Some (l, rest))
                else case write_encrypted L (rc_key r) new_ready_message l of
                  (Inl e, l1) \<Rightarrow> (Inl (ReadyNotSent e), Some (l1, rest))
                | (Inr _, l1) \<Rightarrow> (Inr (), Some (l1, rest)))))"

text \<open>
  \<open>filepath.Glob\<close> of \<open>*.part\<close> in a directory whose name holds no pattern character: the
  entries of the directory, files and directories, with that ending.
\<close>

definition glob_parts :: "path \<Rightarrow> filesys \<Rightarrow> path fset" where
  "glob_parts d fs =
     ffilter (\<lambda>p. p = join d (base_name p) \<and> length (base_name p) \<ge> 5 \<and>
         drop (length (base_name p) - 5) (base_name p) = ''.part'')
       (fmdom (fs_files fs) |\<union>| fs_dirs fs)"

definition find_resume_candidate ::
  "path \<Rightarrow> int \<Rightarrow> filesys \<Rightarrow> (os_error + resume_request option) \<times> filesys" where
  "find_resume_candidate destDir dirSize fs =
     (let matches = glob_parts destDir fs
      in if fcard matches \<noteq> 1 then (Inr None, fs)
         else
           let partPath = fthe_elem matches;
               offset = (case fmlookup (fs_files fs) partPath of
                           None \<Rightarrow> dirSize | Some c \<Rightarrow> int (length c)) div ChunkSize * ChunkSize
           in if offset \<le> 0 then (Inr None, fs)
              else case os_truncate partPath offset fs of
                (Inl e, fs1) \<Rightarrow> (Inl e, fs1)
              | (Inr _, fs1) \<Rightarrow>
                  (case file_prefix_hash partPath offset fs1 of
                     (Inl e, fs2) \<Rightarrow> (Inl e, fs2)
                   | (Inr hash, fs2) \<Rightarrow>
                       (Inr (Some \<lparr>rr_filename = trim_suffix (base_name partPath) ''.part'',
                                  rr_offset = offset, rr_prefix_hash = hash\<rparr>), fs2)))"

section \<open>Confinement\<close>

text \<open>
  \<open>confined d fs fs'\<close>: only entries directly in \<open>d\<close> changed, and of those that existed only
  part files.
\<close>

definition in_dir :: "path \<Rightarrow> path \<Rightarrow> bool" where
  "in_dir d p \<longleftrightarrow> part_of d p \<or> (\<exists>m. plain_name m \<and> p = join d m)"

definition confined :: "path \<Rightarrow> filesys \<Rightarrow> filesys \<Rightarrow> bool" where
  "confined d fs fs' \<longleftrightarrow>
     same_except {p. in_dir d p} fs fs' \<and>
     (\<forall>p. fs_exists fs p \<and> \<not> part_of d p \<longrightarrow> fmlookup (fs_files fs') p = fmlookup (fs_files fs) p)"

lemma confined_refl [simp]: "confined d fs fs"
  by (auto simp: confined_def)

lemma confined_exists:
  "confined d fs fs' \<Longrightarrow> fs_exists fs p \<Longrightarrow> \<not> part_of d p \<Longrightarrow> fs_exists fs' p"
  by (auto simp: confined_def same_except_def fs_exists_def fmlookup_dom_iff)

lemma confined_trans:
  assumes "confined d a b" and "confined d b c"
  shows "confined d a c"
proof -
  have "same_except {p. in_dir d p} a c"
    using assms by (auto simp: confined_def intro: same_except_trans)
  moreover have "fmlookup (fs_files c) p = fmlookup (fs_files a) p" if "fs_exists a p" "\<not> part_of d p" for p
    using assms confined_exists [OF assms(1) that] that by (simp add: confined_def)
  ultimately show ?thesis by (simp add: confined_def)
qed

lemma parts_only_confined: "parts_only d fs fs' \<Longrightarrow> confined d fs fs'"
  by (auto simp: parts_only_def confined_def same_except_def in_dir_def)

lemma outcome_confined:
  assumes "outcome_ok d fs (res, rest, w')"
  shows "confined d fs (rw_fs w')"
proof (cases res)
  case (Inl e)
  with assms show ?thesis by (simp add: outcome_ok_def parts_only_confined)
next
  case (Inr p)
  with assms have a: "same_except ({q. part_of d q} \<union> {p}) fs (rw_fs w')" "\<not> fs_exists fs p"
      "part_of d (p @ ''.part'')"
    by (simp_all add: outcome_ok_def)
  then have i: "in_dir d p" by (auto simp: part_of_def in_dir_def)
  have "fmlookup (fs_files (rw_fs w')) q = fmlookup (fs_files fs) q" if "fs_exists fs q" "\<not> part_of d q" for q
    using a(1,2) that by (metis (mono_tags) UnE mem_Collect_eq same_except_def singletonD)
  moreover have "same_except {q. in_dir d q} fs (rw_fs w')"
    using a(1) i by (auto simp: same_except_def in_dir_def)
  ultimately show ?thesis by (simp add: confined_def)
qed

lemma recv_indexed_confined:
  assumes "recv_indexed L r d i p rds b = (res, rest, b')"
  shows "confined d (rw_fs (bw_world b)) (rw_fs (bw_world b'))"
proof -
  let ?w = "(bw_world b)\<lparr>rw_progress := []\<rparr>"
  obtain w where w: "recv_file L r d p rds ?w = (res, rest, w)" "bw_world b' = w"
    using assms by (auto simp: recv_indexed_def split: prod.splits)
  have "outcome_ok d (rw_fs ?w) (recv_file L r d p rds ?w)" by (rule recv_file_outcome)
  with w show ?thesis using outcome_confined [of d "rw_fs ?w" res rest w] by simp
qed

lemma batch_handshake_fs: "batch_handshake L r m b = (res, b') \<Longrightarrow> rw_fs (bw_world b') = rw_fs (bw_world b)"
  by (auto simp: batch_handshake_def split: prod.splits dest!: re_handshake_fs)

lemma batch_loop_confined:
  "batch_loop L r d p i ps rds b = (x, rest, b') \<Longrightarrow> confined d (rw_fs (bw_world b)) (rw_fs (bw_world b'))"
proof (induction "length rds" arbitrary: p i ps rds b rule: less_induct)
  case less
  obtain y rest0 b1 where ri: "recv_indexed L r d i p rds b = (y, rest0, b1)" by (metis surj_pair)
  note c1 = recv_indexed_confined [OF ri]
  show ?case
  proof (cases "\<exists>m rest1. y = Inr m \<and> (\<exists>msg. rest0 = Inr msg # rest1 \<and> mtype msg = MsgTypeMetadata)")
    case True
    then obtain path msg rest1 where t: "y = Inr path" "rest0 = Inr msg # rest1" "mtype msg = MsgTypeMetadata"
      by blast
    with less.prems ri have "batch_loop L r d (Some msg) (Suc i) (ps @ [path]) rest1 b1 = (x, rest, b')"
      by (subst (asm) batch_loop.simps) (simp add: msg_type_defs)
    with less.hyps [OF _ this] t recv_indexed_shorter [OF ri] c1 show ?thesis
      by (auto intro: confined_trans)
  next
    case False
    with less.prems ri have "rw_fs (bw_world b') = rw_fs (bw_world b1)"
      by (subst (asm) batch_loop.simps)
        (auto simp: Let_def split: sum.splits list.splits if_splits prod.splits dest: batch_handshake_fs)
    with c1 show ?thesis by simp
  qed
qed

abbreviation ss_fs :: "session \<Rightarrow> filesys" where
  "ss_fs s \<equiv> rw_fs (bw_world (ss_batch s))"

lemma run_batch_confined: "run_batch L r d p idle s = (x, s') \<Longrightarrow> confined d (ss_fs s) (ss_fs s')"
  by (auto simp: run_batch_def after_batch_def receive_batch_def
      split: prod.splits option.splits if_splits list.splits sum.splits
      dest: batch_loop_confined batch_handshake_fs)

lemma read_first_fs: "read_first L r rds b = (x, rest, b') \<Longrightarrow> rw_fs (bw_world b') = rw_fs (bw_world b)"
  by (induction L r rds b rule: read_first.induct)
    (auto split: if_splits prod.splits sum.splits dest: batch_handshake_fs)

lemma open_session_fs: "open_receive_session L r s = (x, s') \<Longrightarrow> ss_fs s' = ss_fs s"
  by (auto simp: open_receive_session_def Let_def
      split: prod.splits sum.splits if_splits list.splits dest!: read_first_fs)

lemma cleanup_fs [simp]: "ss_fs (session_cleanup s) = ss_fs s"
  by (simp add: session_cleanup_def Let_def split: option.split)

lemma receive_files_loop_confined:
  "receive_files_loop L r d p s = (x, s') \<Longrightarrow> confined d (ss_fs s) (ss_fs s')"
proof (induction L r d p s arbitrary: x s' rule: receive_files_loop.induct)
  case (1 L r d p s)
  obtain ps op e s1 where rb: "run_batch L r d p False s = ((ps, op, e), s1)" by (metis surj_pair)
  note c = run_batch_confined [OF rb]
  obtain y s2 where o: "open_receive_session L r (session_cleanup s1) = (y, s2)" by (metis surj_pair)
  have s2: "ss_fs s2 = ss_fs s1" using open_session_fs [OF o] by simp
  show ?case
  proof (cases "e = Some SenderRestarted \<and> (\<exists>q. y = Inr q)")
    case True
    then obtain q where q: "e = Some SenderRestarted" "y = Inr q" by blast
    with "1.prems" rb o have "receive_files_loop L r d q s2 = (x, s')"
      by (subst (asm) receive_files_loop.simps) simp
    with "1.IH" [OF rb [symmetric] refl refl _ o [symmetric] q(2)] q(1) c s2 show ?thesis
      by (auto intro: confined_trans)
  next
    case False
    with "1.prems" rb o c s2 show ?thesis
      by (subst (asm) receive_files_loop.simps) (auto split: if_splits sum.splits)
  qed
qed

lemma receive_batches_loop_confined:
  "receive_batches_loop L r d ob i p calls s = (e, calls', s') \<Longrightarrow> confined d (ss_fs s) (ss_fs s')"
proof (induction L r d ob i p calls s arbitrary: e calls' s' rule: receive_batches_loop.induct)
  case (1 L r d ob i p calls s)
  obtain ps op x s1 where rb: "run_batch L r d p (i > 0) s = ((ps, op, x), s1)" by (metis surj_pair)
  note c = run_batch_confined [OF rb]
  obtain y s2 where o: "open_receive_session L r (session_cleanup s1) = (y, s2)" by (metis surj_pair)
  have s2: "ss_fs s2 = ss_fs s1" using open_session_fs [OF o] by simp
  from "1.prems" rb have "s' = s1 \<or> s' = s2 \<or>
      (\<exists>j q cs. receive_batches_loop L r d ob j q cs s2 = (e, calls', s') \<and> confined d (ss_fs s2) (ss_fs s')) \<or>
      confined d (ss_fs s1) (ss_fs s')"
    using "1.IH"(1) [OF rb [symmetric] refl refl refl _ _ o [symmetric]] "1.IH"(2) [OF rb [symmetric] refl refl refl]
    by (subst (asm) receive_batches_loop.simps)
      (auto simp: o Let_def split: if_splits sum.splits)
  with c s2 show ?case
    by (auto intro: confined_trans)
qed

section \<open>The calls of the batch function\<close>

definition calls_ok :: "(nat \<times> path list) list \<Rightarrow> bool" where
  "calls_ok calls \<longleftrightarrow> map fst calls = [0..<length calls] \<and> list_all (\<lambda>c. snd c \<noteq> []) calls"

lemma calls_ok_snoc: "calls_ok calls \<Longrightarrow> ps \<noteq> [] \<Longrightarrow> calls_ok (calls @ [(length calls, ps)])"
  by (simp add: calls_ok_def)

lemma receive_batches_loop_calls:
  "receive_batches_loop L r d ob i p calls s = (e, calls', s') \<Longrightarrow> calls_ok calls \<Longrightarrow> i = length calls \<Longrightarrow>
     calls_ok calls'"
proof (induction L r d ob i p calls s arbitrary: e calls' s' rule: receive_batches_loop.induct)
  case (1 L r d ob i p calls s)
  obtain ps op x s1 where rb: "run_batch L r d p (i > 0) s = ((ps, op, x), s1)" by (metis surj_pair)
  obtain y s2 where o: "open_receive_session L r (session_cleanup s1) = (y, s2)" by (metis surj_pair)
  have ok1: "ps \<noteq> [] \<Longrightarrow> calls_ok (calls @ [(i, ps)])"
    using calls_ok_snoc "1.prems"(2,3) by simp
  show ?case
    using "1.prems" rb ok1 "1.IH"(1) [OF rb [symmetric] refl refl refl _ _ o [symmetric]]
      "1.IH"(2) [OF rb [symmetric] refl refl refl]
    by (subst (asm) receive_batches_loop.simps)
      (auto simp: o Let_def split: if_splits sum.splits)
qed

section \<open>Properties\<close>

text \<open>
  C6: Whatever arrives on the connection and the data channel, and whatever fails, receiving
  (once, or batch after batch with restarts) changes only plain names directly inside the
  destination directory and their part files, and of the entries that were there before it
  changes only part files: no existing file is overwritten, renamed or removed.
\<close>

theorem session_confined:
  "confined d (ss_fs s) (ss_fs (snd (receive_files L r d s))) \<and>
   confined d (ss_fs s) (ss_fs (snd (snd (receive_batches L r d on_batch s))))"
proof
  show "confined d (ss_fs s) (ss_fs (snd (receive_files L r d s)))"
    using cleanup_fs
    by (auto simp: receive_files_def split: option.split prod.split sum.split
        dest!: open_session_fs receive_files_loop_confined)
  show "confined d (ss_fs s) (ss_fs (snd (snd (receive_batches L r d on_batch s))))"
    using cleanup_fs
    by (auto simp: receive_batches_def split: option.split prod.split sum.split
        dest!: open_session_fs receive_batches_loop_confined)
qed

text \<open>
  \<open>ReceiveBatches\<close> calls the caller's function with the batch numbers 0, 1, 2 and so on
  without a gap, across restarts of the sender too, and never with an empty batch.
\<close>

theorem batches_numbered:
  "case receive_batches L r d on_batch s of (e, calls, s') \<Rightarrow>
     map fst calls = [0..<length calls] \<and> list_all (\<lambda>c. snd c \<noteq> []) calls"
proof -
  have nil: "calls_ok []" by (simp add: calls_ok_def)
  obtain e calls s' where r: "receive_batches L r d on_batch s = (e, calls, s')"
    by (metis surj_pair)
  then have "calls_ok calls"
    using nil by (auto simp: receive_batches_def split: option.splits prod.splits sum.splits
        dest!: receive_batches_loop_calls)
  with r show ?thesis by (simp add: calls_ok_def)
qed


end
