(* ===== verification/EndToEnd.thy ===== *)
theory EndToEnd
  imports Session
begin

text \<open>
  The two ends together: what a sender's batch puts on the wire, read and stored by a
  receiver with the same key.
\<close>

section \<open>A batch\<close>

text \<open>Storing files under their own names: the specification of a whole transfer.\<close>

fun store_all :: "path \<Rightarrow> filesys \<Rightarrow> (path \<times> bytes) list \<Rightarrow> (path list \<times> filesys) option" where
  "store_all d fs [] = Some ([], fs)"
| "store_all d fs ((p, c) # files) =
     (case safe_filename (base_name p) of
        Inl _ \<Rightarrow> None
      | Inr n \<Rightarrow>
          (case unique_path fs (join d n) of
             None \<Rightarrow> None
           | Some dest \<Rightarrow>
               if dest @ ''.part'' |\<in>| fs_dirs fs then None
               else map_option (\<lambda>(ps, fs'). (dest # ps, fs')) (store_all d (put_file dest c fs) files)))"

text \<open>The JSON codec reads back the metadata of these files.\<close>

definition codec_ok :: "libs \<Rightarrow> path \<Rightarrow> bytes \<Rightarrow> bool" where
  "codec_ok L p c \<longleftrightarrow>
     (\<forall>off b. lib_marshal_meta L (file_meta p c off) = Some b \<longrightarrow>
        lib_unmarshal_meta L b = Some (file_meta p c off))"

definition sent_as :: "libs \<Rightarrow> path \<times> bytes \<Rightarrow> bytes \<times> bytes list \<Rightarrow> bool" where
  "sent_as L pc bcs \<longleftrightarrow>
     lib_marshal_meta L (file_meta (fst pc) (snd pc) 0) = Some (fst bcs) \<and> concat (snd bcs) = snd pc"

lemma sent_as_pair [simp]:
  "sent_as L (p, c) (b, cs) \<longleftrightarrow> lib_marshal_meta L (file_meta p c 0) = Some b \<and> concat cs = c"
  by (simp add: sent_as_def)

lemma batch_sent_reads:
  "batch_sent L None files ms \<Longrightarrow>
     \<exists>fl. map Inr (ms @ [new_session_end_message]) @ tl_rds = batch_reads fl tl_rds \<and>
       list_all2 (sent_as L) files fl"
proof (induction files arbitrary: ms)
  case Nil
  then show ?case by (intro exI [of _ "[]"]) simp
next
  case (Cons pc files)
  obtain p c where pc: "pc = (p, c)" by force
  from Cons.prems pc obtain m1 m2 where m: "ms = m1 @ m2" "file_sent L None p c m1" "batch_sent L None files m2"
    by auto
  from m(2) obtain b cs where b: "lib_marshal_meta L (file_meta p c 0) = Some b" "concat cs = c"
      "m1 = meta_message b # map new_chunk_message cs @ [new_complete_message]"
    by (auto simp: file_sent_def offset_ok_def)
  obtain fl where "map Inr (m2 @ [new_session_end_message]) @ tl_rds = batch_reads fl tl_rds"
      "list_all2 (sent_as L) files fl"
    using Cons.IH [OF m(3)] by blast
  then show ?case
    using b m(1) pc
    by (intro exI [of _ "(b, cs) # fl"]) (simp add: file_reads_def comp_def)
qed

lemma accept_store:
  "list_all2 (sent_as L) files fl \<Longrightarrow> list_all (\<lambda>(p, c). codec_ok L p c) files \<Longrightarrow> rc_resume r = None \<Longrightarrow>
     accept_all L r d fs fl = store_all d fs files"
proof (induction files fl arbitrary: fs rule: list_all2_induct)
  case (Cons pc files bcs fl)
  obtain p c where pc: "pc = (p, c)" by force
  obtain b cs where bcs: "bcs = (b, cs)" by force
  from Cons pc bcs have u: "lib_unmarshal_meta L b = Some (file_meta p c 0)" "concat cs = c"
    by (auto simp: codec_ok_def)
  show ?case
    using Cons u pc bcs
    by (auto simp: accepts_def wants_resume_def file_meta_def split: sum.split option.split prod.split)
qed simp

text \<open>What \<open>store_all\<close> leaves on the disk, when no chosen path is another one's part file.\<close>

definition no_part_clash :: "path list \<Rightarrow> bool" where
  "no_part_clash ps \<longleftrightarrow> list_all (\<lambda>p. p @ ''.part'' \<notin> set ps) ps"

lemma store_all_keeps:
  "store_all d fs files = Some (ps, fs') \<Longrightarrow> fs_exists fs q \<Longrightarrow> q \<notin> set (map (\<lambda>p. p @ ''.part'') ps) \<Longrightarrow>
     fmlookup (fs_files fs') q = fmlookup (fs_files fs) q"
proof (induction d fs files arbitrary: ps rule: store_all.induct)
  case (2 d fs p c files)
  then obtain n dest ps1 where s: "safe_filename (base_name p) = Inr n" "unique_path fs (join d n) = Some dest"
      "dest @ ''.part'' |\<notin>| fs_dirs fs" "ps = dest # ps1"
      "store_all d (put_file dest c fs) files = Some (ps1, fs')"
    by (auto split: sum.splits option.splits if_splits)
  have "\<not> fs_exists fs dest" using receiver_name.pick_fresh s(2) by simp
  with 2(3) have ne: "q \<noteq> dest" by auto
  have "q \<noteq> dest @ ''.part''" using 2(4) s(4) by auto
  with ne have l: "fmlookup (fs_files (put_file dest c fs)) q = fmlookup (fs_files fs) q"
    by (simp add: put_file_def)
  with 2(3) have "fs_exists (put_file dest c fs) q"
    by (auto simp: fs_exists_def fmlookup_dom_iff put_file_def)
  with 2(1) [OF s(1,2)] s(3,4,5) 2(4) l show ?case by auto
qed auto

lemma store_all_contents:
  "store_all d fs files = Some (ps, fs') \<Longrightarrow> no_part_clash ps \<Longrightarrow>
     list_all2 (\<lambda>q (p, c). fmlookup (fs_files fs') q = Some c) ps files"
proof (induction d fs files arbitrary: ps rule: store_all.induct)
  case (2 d fs p c files)
  then obtain n dest ps1 where s: "safe_filename (base_name p) = Inr n" "unique_path fs (join d n) = Some dest"
      "dest @ ''.part'' |\<notin>| fs_dirs fs" "ps = dest # ps1"
      "store_all d (put_file dest c fs) files = Some (ps1, fs')"
    by (auto split: sum.splits option.splits if_splits)
  have "no_part_clash ps1" using 2(3) s(4) by (auto simp: no_part_clash_def list_all_iff)
  moreover have "fmlookup (fs_files fs') dest = Some c"
  proof -
    have "dest \<notin> set (map (\<lambda>p. p @ ''.part'') ps1)"
      using 2(3) s(4) by (auto simp: no_part_clash_def list_all_iff)
    moreover have "fs_exists (put_file dest c fs) dest" "fmlookup (fs_files (put_file dest c fs)) dest = Some c"
      by (simp_all add: put_file_def fs_exists_def)
    ultimately show ?thesis using store_all_keeps [OF s(5)] by simp
  qed
  ultimately show ?case using 2(1) [OF s(1,2)] s by auto
qed auto

text \<open>The frames that a wire carried between two states.\<close>

definition wire_sent :: "wire \<Rightarrow> sender \<Rightarrow> bytes list" where
  "wire_sent wire s = (case wire_link wire s of None \<Rightarrow> [] | Some l \<Rightarrow> lk_sent l)"

definition frames_between :: "wire \<Rightarrow> sender \<Rightarrow> sender \<Rightarrow> bytes list" where
  "frames_between wire s s' = drop (length (wire_sent wire s)) (wire_sent wire s')"

definition received_reads :: "libs \<Rightarrow> bytes \<Rightarrow> bytes list \<Rightarrow> reads" where
  "received_reads L key frames = map (\<lambda>d. read_signal_msg L key (Frame d)) frames"

lemma carries_reads:
  "carries L wire s s' ms \<Longrightarrow> received_reads L (sn_key s) (frames_between wire s s') = map Inr ms"
  by (auto simp: carries_def frames_between_def wire_sent_def received_reads_def opens_to_def)

text \<open>
  End to end: when \<open>SendBatch\<close> returns without an error, a receiver that holds the same
  key and reads the frames it wrote, in \<open>receiveBatch\<close>, stores exactly the files that were
  sent, each under its own name made unique in the destination directory and with its
  content unchanged, reports their paths in order and keeps the session open.  It relies on
  secretbox and the JSON codec as documented, on the names being acceptable to the receiver
  (\<open>store_all\<close>) and on a disk without faults there; a failing disk, random source or
  connection on the sender's side is allowed.
\<close>

lemma batch_end_to_end:
  assumes "sound L" and "files \<noteq> []" and "sn_pending s = None" and "holds_files s files"
    and "all_fit L files" and codec: "list_all (\<lambda>(p, c). codec_ok L p c) files"
    and neg: "negotiate_or_reuse L N s = (Inr wire, s1)" and ok: "wire_ok wire s1"
    and run: "send_batch L N (map fst files) s = (Inr (), s')"
    and "rc_key r = sn_key s" and "rc_resume r = None"
    and "fs_faults (rw_fs (bw_world b)) = []"
    and store: "store_all d (rw_fs (bw_world b)) files = Some (ps, fs')"
  shows "\<exists>b'. receive_batch L r d None idle (received_reads L (rc_key r) (frames_between wire s1 s') @ rest) b
       = ((ps, True, None), rest, b') \<and> rw_fs (bw_world b') = fs' \<and>
     (if no_part_clash ps then list_all2 (\<lambda>q (p, c). fmlookup (fs_files fs') q = Some c) ps files else True)"
proof -
  obtain ms where ms: "carries L wire s1 s' (ms @ [new_session_end_message])" "batch_sent L None files ms"
    using send_batch_trace [OF run assms(1) neg ok assms(5,4)] assms(3) by auto
  obtain fl where fl: "map Inr (ms @ [new_session_end_message]) @ rest = batch_reads fl rest"
      "list_all2 (sent_as L) files fl"
    using batch_sent_reads [OF ms(2)] by blast
  have "received_reads L (rc_key r) (frames_between wire s1 s') @ rest = batch_reads fl rest"
    using carries_reads [OF ms(1)] negotiate_keeps [OF neg] assms(10) fl(1) by simp
  moreover have "fl \<noteq> []" using fl(2) assms(2) by auto
  moreover have "accept_all L r d (rw_fs (bw_world b)) fl = Some (ps, fs')"
    using accept_store [OF fl(2) codec assms(11)] store by simp
  ultimately show ?thesis
    using receive_batch_accepts [OF assms(12), of fl L r d ps fs' idle rest] store_all_contents [OF store]
    by auto
qed

definition one_file_libs :: "path \<Rightarrow> bytes \<Rightarrow> libs" where
  "one_file_libs p c =
     sample_libs
       (\<lambda>m. if m = file_meta p c 0 then Some [1] else if m = file_meta p c 65536 then Some [2] else None)
       (\<lambda>b. Some (file_meta p c (if b = [1] then 0 else 65536)))"

lemma one_file_libs_ok:
  "sound (one_file_libs p c)" "marshal_fits (one_file_libs p c) n" "codec_ok (one_file_libs p c) p c"
  "lib_marshal_meta (one_file_libs p c) (file_meta p c 0) = Some [1]"
  "lib_marshal_meta (one_file_libs p c) (file_meta p c 65536) = Some [2]"
  by (auto simp: sound_def one_file_libs_def marshal_fits_def frameable_def meta_message_def codec_ok_def
      file_meta_def)

lemma batch_end_to_end_witness:
  "\<exists>s' b'. let p = ''a.txt''; c = [1, 2]; L = one_file_libs p c; s = sample_sender (sample_disk p c) in
     send_batch L sample_negotiation [p] s = (Inr (), s') \<and>
     receive_batch L sample_receiver ''d'' None False
       (received_reads L sample_key (frames_between WSWire s s') @ [Inl ReadEOF])
       \<lparr>bw_world = sample_world empty_disk, bw_progress = []\<rparr> =
       (([''d/a.txt''], True, None), [Inl ReadEOF], b') \<and>
     fmlookup (fs_files (rw_fs (bw_world b'))) ''d/a.txt'' = Some c"
proof -
  let ?p = "''a.txt''" and ?c = "[1, 2] :: bytes"
  let ?L = "one_file_libs ?p ?c" and ?s = "sample_sender (sample_disk ?p ?c)"
  let ?b = "\<lparr>bw_world = sample_world empty_disk, bw_progress = []\<rparr>"
  have calm: "calm WSWire ?s" by (rule sample_sender_calm) simp
  have pend: "sn_pending ?s = None" by simp
  have tr: "sn_transport ?s = TransportWS" by (simp add: sample_sender_def)
  have fl: "fmlookup (fs_files (sn_fs ?s)) ?p = Some ?c" by simp
  have neg: "negotiate_or_reuse ?L sample_negotiation ?s = (Inr WSWire, ?s) \<and> (\<exists>s'. send_batch ?L sample_negotiation [?p] ?s = (Inr (), s'))"
    by (rule send_batch_calm [OF calm tr fl]) (auto simp: offset_ok_def one_file_libs_ok)
  then obtain s' where run: "send_batch ?L sample_negotiation [?p] ?s = (Inr (), s')" by blast
  have nd: "''d/a.txt.part'' |\<notin>| fs_dirs empty_disk" by (simp add: empty_disk_def)
  have store: "store_all ''d'' empty_disk [(?p, ?c)] =
      Some ([''d/a.txt''], put_file ''d/a.txt'' ?c empty_disk)"
    using sample_dest nd by (simp add: sample_name)
  have "\<exists>b'. receive_batch ?L sample_receiver ''d'' None False
       (received_reads ?L (rc_key sample_receiver) (frames_between WSWire ?s s') @ [Inl ReadEOF]) ?b
       = (([''d/a.txt''], True, None), [Inl ReadEOF], b') \<and>
       rw_fs (bw_world b') = put_file ''d/a.txt'' ?c empty_disk \<and>
     (if no_part_clash [''d/a.txt''] then list_all2 (\<lambda>q (p, c).
        fmlookup (fs_files (put_file ''d/a.txt'' ?c empty_disk)) q = Some c) [''d/a.txt''] [(?p, ?c)] else True)"
  proof (rule batch_end_to_end [where N = sample_negotiation])
    show "negotiate_or_reuse ?L sample_negotiation ?s = (Inr WSWire, ?s)" using neg by blast
    show "send_batch ?L sample_negotiation (map fst [(?p, ?c)]) ?s = (Inr (), s')" using run by simp
    show "store_all ''d'' (rw_fs (bw_world ?b)) [(?p, ?c)] = Some ([''d/a.txt''], put_file ''d/a.txt'' ?c empty_disk)"
      using store by simp
  qed (use calm in \<open>simp_all add: one_file_libs_ok holds_files_def all_fit_def calm_ok sample_receiver_def\<close>)
  then show ?thesis
    using run by (auto simp: Let_def sample_receiver_def put_file_def)
qed

section \<open>A resumed file\<close>

text \<open>
  What a receiver with the part file \<open>old\<close> accepts from a sender that announced a granted
  offset: it starts from the part file, which then is the beginning of the file, or afresh.
\<close>

lemma granted_offset:
  assumes "offset_ok (Some q) p c off" and "off \<noteq> 0"
    and "rr_offset q = int (length old)" and "rr_prefix_hash q = hex_encode (sha256 old)"
    and "sha256 (take (length old) c) = sha256 old \<Longrightarrow> take (length old) c = old"
  shows "off = int (length old) \<and> base_name p = rr_filename q \<and> take (length old) c = old \<and> off > 0"
proof -
  from assms(1,2) have o: "off = rr_offset q" "off > 0" "rr_filename q = base_name p"
      "rr_prefix_hash q = hex_encode (sha256 (take (nat off) c))"
    unfolding offset_ok_def by auto
  then have "off = int (length old)" using assms(3) by simp
  moreover from this have "sha256 (take (length old) c) = sha256 old"
    using o(4) assms(4) by simp
  ultimately show ?thesis
    using assms(5) o by simp
qed

lemma accepts_resumed:
  assumes u: "lib_unmarshal_meta L b = Some (file_meta p c off)" and r: "rc_resume r = Some q"
    and n: "safe_filename (base_name p) = Inr n" and dest: "unique_path fs (join d n) = Some dest"
    and nd: "dest @ ''.part'' |\<notin>| fs_dirs fs"
    and old: "fmlookup (fs_files fs) (dest @ ''.part'') = Some old"
    and off: "off \<noteq> 0 \<Longrightarrow> off = int (length old) \<and> base_name p = rr_filename q \<and> off > 0 \<and> rr_offset q = off"
  shows "accepts L r d fs b = Some (dest, if off = 0 then [] else old)"
proof (cases "off = 0")
  case True
  then show ?thesis
    using u n dest nd by (simp add: accepts_def wants_resume_def file_meta_def)
next
  case False
  note g = off [OF False]
  have "base_name p = n" using n by (simp add: result_iff)
  then have "wants_resume r n (file_meta p c off)"
    using g r by (auto simp: wants_resume_def file_meta_def)
  then show ?thesis
    using u n dest nd old g by (simp add: accepts_def) (simp add: file_meta_def)
qed

text \<open>
  A resumed transfer gives the sender's file, whether or not the sender granted the resume:
  the receiver announced the part file it holds, by its size and the SHA-256 of its bytes; the
  sender streams the file from there only if these are its own first bytes, and from the start
  otherwise, when the part file is thrown away.  Named hypothesis: SHA-256 does not collide on
  the part file and the beginning of the file.
\<close>

lemma resume_end_to_end:
  assumes "sound L" and ok: "wire_ok wire s" and fit: "marshal_fits L (base_name p)" and codec: "codec_ok L p c"
    and "fmlookup (fs_files (sn_fs s)) p = Some c" and pend: "sn_pending s = Some q"
    and run: "stream_file L wire i p s = (Inr (), s')"
    and key: "rc_key r = sn_key s" and "rc_resume r = Some q"
    and quiet: "fs_faults (rw_fs w) = []"
    and n: "safe_filename (base_name p) = Inr n" and dest: "unique_path (rw_fs w) (join d n) = Some dest"
    and nd: "dest @ ''.part'' |\<notin>| fs_dirs (rw_fs w)"
    and old: "fmlookup (fs_files (rw_fs w)) (dest @ ''.part'') = Some old"
    and q: "rr_offset q = int (length old)" "rr_prefix_hash q = hex_encode (sha256 old)"
    and collision_free: "sha256 (take (length old) c) = sha256 old \<Longrightarrow> take (length old) c = old"
  shows "\<exists>w'. recv_file L r d None (received_reads L (rc_key r) (frames_between wire s s') @ rest) w
       = (Inr dest, rest, w') \<and>
     fmlookup (fs_files (rw_fs w')) dest = Some c \<and>
     fmlookup (fs_files (rw_fs w')) (dest @ ''.part'') = None"
proof -
  obtain ms where ms: "carries L wire s s' ms" "file_sent L (Some q) p c ms"
    using stream_file_trace [OF run assms(1) ok fit assms(5)] pend by auto
  then obtain off b cs where f: "offset_ok (Some q) p c off" "lib_marshal_meta L (file_meta p c off) = Some b"
      "concat cs = drop (nat off) c"
      "ms = meta_message b # map new_chunk_message cs @ [new_complete_message]"
    by (auto simp: file_sent_def)
  let ?old = "if off = 0 then [] else old"
  have u: "lib_unmarshal_meta L b = Some (file_meta p c off)"
    using codec f(2) by (simp add: codec_ok_def)
  note granted = granted_offset [OF f(1) _ q collision_free]
  have acc: "accepts L r d (rw_fs w) b = Some (dest, ?old)"
    by (rule accepts_resumed [OF u assms(9) n dest nd old]) (use granted q(1) in auto)
  have content: "?old @ concat cs = c"
    using f(3) granted by (cases "off = 0") (auto, metis append_take_drop_id)
  have "received_reads L (rc_key r) (frames_between wire s s') @ rest
      = Inr (meta_message b) # file_reads cs rest"
    using carries_reads [OF ms(1)] key f(4) by (simp add: file_reads_def comp_def)
  moreover obtain w' where "recv_loop L r d (Inr (meta_message b) # file_reads cs rest) recv_init w = (Inr dest, rest, w')"
      "rw_fs w' = put_file dest c (rw_fs w)"
    using recv_loop_accepts [OF quiet acc, of cs rest] content by auto
  ultimately show ?thesis
    by (auto simp: recv_file_def put_file_def simp del: recv_loop.simps)
qed

definition fives :: "nat \<Rightarrow> bytes" where "fives n = replicate n 5"

lemma fives_simps: "length (fives n) = n" "take m (fives n) = fives (min m n)"
  by (simp_all add: fives_def)

lemma resume_end_to_end_witness:
  "\<exists>s' w'. let p = ''a.txt''; c = fives 65537; L = one_file_libs p c;
       q = \<lparr>rr_filename = p, rr_offset = 65536, rr_prefix_hash = hex_encode (sha256 (fives 65536))\<rparr>;
       s = (sample_sender (sample_disk p c))\<lparr>sn_pending := Some q\<rparr>;
       fs = empty_disk\<lparr>fs_files := fmupd ''d/a.txt.part'' (fives 65536) fmempty\<rparr> in
     stream_file L WSWire 0 p s = (Inr (), s') \<and>
     recv_file L (sample_receiver\<lparr>rc_resume := Some q\<rparr>) ''d'' None
       (received_reads L sample_key (frames_between WSWire s s') @ []) (sample_world fs) =
       (Inr ''d/a.txt'', [], w') \<and>
     fmlookup (fs_files (rw_fs w')) ''d/a.txt'' = Some c"
proof -
  let ?p = "''a.txt''" and ?c = "fives 65537"
  let ?L = "one_file_libs ?p ?c"
  let ?q = "\<lparr>rr_filename = ?p, rr_offset = 65536, rr_prefix_hash = hex_encode (sha256 (fives 65536))\<rparr>"
  let ?s = "(sample_sender (sample_disk ?p ?c))\<lparr>sn_pending := Some ?q\<rparr>"
  let ?fs = "empty_disk\<lparr>fs_files := fmupd ''d/a.txt.part'' (fives 65536) fmempty\<rparr>"
  let ?r = "sample_receiver\<lparr>rc_resume := Some ?q\<rparr>"
  have calm: "calm WSWire ?s"
    using sample_sender_calm [of "sample_disk ?p ?c"] by (simp add: calm_def wire_up_def)
  have fl: "fmlookup (fs_files (sn_fs ?s)) ?p = Some ?c" by simp
  have "\<exists>s'. stream_file ?L WSWire 0 ?p ?s = (Inr (), s') \<and> calm WSWire s'"
    by (rule stream_file_calm [OF calm fl]) (auto simp: offset_ok_def one_file_libs_ok)
  then obtain s' where run: "stream_file ?L WSWire 0 ?p ?s = (Inr (), s')" by blast
  have "\<exists>w'. recv_file ?L ?r ''d'' None
         (received_reads ?L (rc_key ?r) (frames_between WSWire ?s s') @ []) (sample_world ?fs)
       = (Inr ''d/a.txt'', [], w') \<and>
     fmlookup (fs_files (rw_fs w')) ''d/a.txt'' = Some ?c \<and>
     fmlookup (fs_files (rw_fs w')) (''d/a.txt'' @ ''.part'') = None"
  proof (rule resume_end_to_end [where old = "fives 65536" and q = ?q, OF _ _ _ _ fl _ run])
    show "unique_path (rw_fs (sample_world ?fs)) (join ''d'' ?p) = Some ''d/a.txt''"
      by (simp add: unique_path_def fs_exists_def empty_disk_def sample_name)
    show "safe_filename (base_name ?p) = Inr ?p" by (simp add: sample_name)
  qed (use calm in \<open>simp_all add: one_file_libs_ok calm_ok sample_receiver_def fives_simps empty_disk_def\<close>)
  then show ?thesis
    using run by (auto simp: Let_def sample_receiver_def)
qed

end
