(* ===== verification/Resume.thy ===== *)
theory Resume
  imports EndToEnd
begin

text \<open>
  An interrupted transfer and its resumption: what a receiver that loses the connection leaves on the disk, what
  \<open>FindResumeCandidate\<close> makes of it, and the second transfer.
\<close>

section \<open>The interrupted receiver\<close>

lemma fmupd_idle: "fmlookup m k = Some v \<Longrightarrow> fmupd k v m = m"
  by (rule fmap_ext) auto

lemma fmupd_drop [simp]: "fmupd p x (fmdrop p m) = fmupd p x m"
  by (rule fmap_ext) simp

lemma recv_chunks_cut:
  assumes "fs_faults (rw_fs w) = []" and "rf_file st = Some q" and "fmlookup (fs_files (rw_fs w)) q = Some old"
  shows "\<exists>w'. recv_loop L r d (map (\<lambda>c. Inr (new_chunk_message c)) cs @ Inl e # rest) st w = (Inl (ReadMessage e), rest, w') \<and>
     rw_fs w' = (rw_fs w)\<lparr>fs_files := fmupd q (old @ concat cs) (fs_files (rw_fs w))\<rparr>"
  using assms
proof (induction cs arbitrary: st w old)
  case Nil
  then show ?case by (simp add: fmupd_idle)
next
  case (Cons c cs)
  let ?st = "st\<lparr>rf_received := rf_received st + int (length c)\<rparr>"
  let ?w = "progress_call ?st (w\<lparr>rw_fs := (rw_fs w)\<lparr>fs_files := fmupd q (old @ c) (fs_files (rw_fs w))\<rparr>\<rparr>)"
  have "handle_msg L r d (new_chunk_message c) st w = (Inr None, ?st, ?w)"
    using Cons.prems
    by (simp add: handle_msg_def msg_type_defs message_constructors handle_chunk_def os_append_ok Let_def)
  with Cons.IH [of ?w ?st "old @ c"] Cons.prems show ?case by simp
qed

lemma recv_file_cut:
  assumes "fs_faults (rw_fs w) = []" and m: "lib_unmarshal_meta L b = Some meta" and n: "safe_filename (md_filename meta) = Inr n"
    and u: "unique_path (rw_fs w) (join d n) = Some dest" and part: "dest @ ''.part'' |\<notin>| fs_dirs (rw_fs w)"
    and "rc_resume r = None"
  shows "\<exists>w'. recv_file L r d None (Inr (meta_message b) # map (\<lambda>c. Inr (new_chunk_message c)) cs @ Inl e # rest) w =
      (Inl (ReadMessage e), rest, w') \<and>
     rw_fs w' = (rw_fs w)\<lparr>fs_files := fmupd (dest @ ''.part'') (concat cs) (fs_files (rw_fs w))\<rparr>"
proof -
  let ?part = "dest @ ''.part''"
  let ?st = "recv_init\<lparr>rf_metadata := meta, rf_dest := dest, rf_part := ?part, rf_file := Some ?part, rf_received := 0\<rparr>"
  let ?w = "progress_call ?st (w\<lparr>rw_fs := (rw_fs w)\<lparr>fs_files := fmupd ?part [] (fs_files (rw_fs w))\<rparr>\<rparr>)"
  have "os_create ?part (snd (os_remove ?part (rw_fs w))) = (Inr (), (rw_fs w)\<lparr>fs_files := fmupd ?part [] (fs_files (rw_fs w))\<rparr>)"
    using assms(1) part by (simp add: os_remove_quiet os_create_ok)
  then have "handle_msg L r d (meta_message b) recv_init w = (Inr None, ?st, ?w)"
    using m n u assms(6) by (simp add: handle_msg_def handle_metadata_def parse_metadata_def meta_message_def Let_def)
  then have "recv_file L r d None (Inr (meta_message b) # map (\<lambda>c. Inr (new_chunk_message c)) cs @ Inl e # rest) w =
      recv_loop L r d (map (\<lambda>c. Inr (new_chunk_message c)) cs @ Inl e # rest) ?st ?w"
    by (simp add: recv_file_def)
  with recv_chunks_cut [of ?w ?st ?part "[]" L r d cs e rest] assms(1) show ?thesis by simp
qed

section \<open>The candidate\<close>

lemma plain_part: "plain_name n \<Longrightarrow> plain_name (n @ ''.part'')"
  by (simp add: plain_name_def)

lemma join_part: "plain_name n \<Longrightarrow> join d (n @ ''.part'') = join d n @ ''.part''"
  using join_split [of n d] plain_part [of n] by auto

lemma part_globbed:
  assumes "plain_name n" and "fmlookup (fs_files fs) (join d n @ ''.part'') = Some c"
  shows "join d n @ ''.part'' |\<in>| glob_parts d fs"
proof -
  have "base_name (join d n @ ''.part'') = n @ ''.part''"
    using base_name_join [OF plain_part [OF assms(1)], of d] join_part [OF assms(1)] by simp
  then show ?thesis
    using assms join_part [OF assms(1), of d] by (auto simp: glob_parts_def fmdomI)
qed

lemma fcard_one: "fcard A = 1 \<Longrightarrow> x |\<in>| A \<Longrightarrow> fthe_elem A = x"
  by (auto simp: fcard.rep_eq fthe_elem.rep_eq card_1_singleton_iff)

lemma file_prefix_hash_calm:
  "fs_faults fs = [] \<Longrightarrow> fmlookup (fs_files fs) p = Some c \<Longrightarrow> n \<le> int (length c) \<Longrightarrow>
     file_prefix_hash p n fs = (Inr (hex_encode (sha256 (take (nat n) c))), fs)"
  by (simp add: file_prefix_hash_def os_open_def next_fault_none)

text \<open>With a part file of \<open>n\<close> on a disk without faults: no candidate, and the disk as it was, or this part file, cut
  to whole chunks.\<close>

definition cut_to_chunks :: "bytes \<Rightarrow> bytes" where
  "cut_to_chunks c = take (nat (int (length c) div ChunkSize * ChunkSize)) c"

lemma length_cut: "int (length (cut_to_chunks c)) = int (length c) div ChunkSize * ChunkSize"
proof -
  have "int (length c) div ChunkSize * ChunkSize \<le> int (length c)" "0 \<le> int (length c) div ChunkSize * ChunkSize"
    by (simp_all add: ChunkSize_def)
  then show ?thesis by (simp add: cut_to_chunks_def)
qed

lemma cut_idem: "take (nat (int (length c) div ChunkSize * ChunkSize)) (cut_to_chunks c) = cut_to_chunks c"
  by (simp add: cut_to_chunks_def)

lemma candidate_found:
  assumes n: "plain_name n" and "fs_faults fs = []" and c: "fmlookup (fs_files fs) (join d n @ ''.part'') = Some c"
    and found: "find_resume_candidate d dirSize fs = (res, fs')"
  shows "res = Inr None \<and> fs' = fs \<or>
     cut_to_chunks c \<noteq> [] \<and> fs' = fs\<lparr>fs_files := fmupd (join d n @ ''.part'') (cut_to_chunks c) (fs_files fs)\<rparr> \<and>
     res = Inr (Some \<lparr>rr_filename = n, rr_offset = int (length (cut_to_chunks c)),
        rr_prefix_hash = hex_encode (sha256 (cut_to_chunks c))\<rparr>)"
proof (cases "fcard (glob_parts d fs) = 1 \<and> 0 < int (length c) div ChunkSize * ChunkSize")
  case False
  show ?thesis
  proof (cases "fcard (glob_parts d fs) = 1")
    case True
    with False found fcard_one [OF True part_globbed [OF n c]] c show ?thesis
      by (simp add: find_resume_candidate_def Let_def)
  qed (use found in \<open>simp add: find_resume_candidate_def Let_def\<close>)
next
  case True
  let ?p = "join d n @ ''.part''" and ?off = "int (length c) div ChunkSize * ChunkSize"
  have p: "fthe_elem (glob_parts d fs) = ?p" using fcard_one [OF _ part_globbed [OF n c]] True by blast
  have l: "?off \<le> int (length c)" using length_cut [of c] by (simp add: cut_to_chunks_def)
  let ?fs = "fs\<lparr>fs_files := fmupd ?p (cut_to_chunks c) (fs_files fs)\<rparr>"
  have "os_truncate ?p ?off fs = (Inr (), ?fs)"
    using assms(2) c l by (simp add: os_truncate_def next_fault_none cut_to_chunks_def nat_le_iff)
  moreover have "file_prefix_hash ?p ?off ?fs = (Inr (hex_encode (sha256 (cut_to_chunks c))), ?fs)"
    using assms(2) length_cut [of c] cut_idem [of c] by (simp add: file_prefix_hash_calm)
  moreover have "base_name ?p = n @ ''.part''"
    using base_name_join [OF plain_part [OF n], of d] join_part [OF n] by simp
  moreover have "cut_to_chunks c \<noteq> []" using True length_cut [of c] by auto
  ultimately show ?thesis
    using found True p c length_cut [of c] trim_suffix_append [of n "''.part''"]
    by (simp add: find_resume_candidate_def Let_def)
qed

section \<open>The second transfer\<close>

text \<open>What a sender's body puts on the wire for an announced offset.\<close>

lemma send_body_sent:
  assumes run: "send_body L wire i p (int (length c)) off (Some r) s = (Inr (), s')" and snd: "sound L" and ok: "wire_ok wire s"
    and fits: "marshal_fits L (base_name p)"
  shows "\<exists>b cs. lib_marshal_meta L (file_meta p c off) = Some b \<and> concat cs = r \<and>
     carries L wire s s' (meta_message b # map new_chunk_message cs @ [new_complete_message])"
proof -
  obtain b where b: "lib_marshal_meta L (file_meta p c off) = Some b"
    using run by (auto simp: send_body_def new_metadata_message_with_resume_def file_meta_def split: option.splits)
  then have fb: "frameable (meta_message b)"
    using fits unfolding marshal_fits_def by (auto simp: file_meta_def dest: spec [of _ "file_meta p c off"])
  have m: "new_metadata_message_with_resume (lib_marshal_meta L) (base_name p) (int (length c)) (total_chunks (int (length c))) off
      = Some (meta_message b)"
    using b by (simp add: new_metadata_message_with_resume_def file_meta_def meta_message_def)
  from run m obtain s4 s6 where o: "send_on L wire (meta_message b) s = (Inr (), s4)"
      "send_loop L wire i (int (length c)) (Some r) off (if off > 0 then progress_at i off (int (length c)) s4 else s4) = (Inr (), s6)"
      "send_on L wire new_complete_message s6 = (Inr (), s')"
    by (auto simp: send_body_def split: prod.splits sum.splits)
  let ?s5 = "if off > 0 then progress_at i off (int (length c)) s4 else s4"
  have c1: "carries L wire s ?s5 [meta_message b]"
    using send_on_carries [OF o(1) snd ok fb] by (auto intro: carries_same)
  obtain cs where cs: "carries L wire ?s5 s6 (map new_chunk_message cs)" "r = concat cs"
    using send_loop_trace [OF o(2) carries_ok [OF c1 ok] snd] by auto
  note c2 = carries_trans [OF c1 cs(1)]
  have "carries L wire s s' (([meta_message b] @ map new_chunk_message cs) @ [new_complete_message])"
    using carries_trans [OF c2 send_on_carries [OF o(3) snd carries_ok [OF c2 ok] empty_frameable(1)]] by simp
  with b cs(2) show ?thesis by auto
qed

text \<open>A request for the true beginning of the file, in whole chunks, is granted on a disk without faults.\<close>

lemma stream_file_granted:
  assumes "fs_faults (sn_fs t) = []" and "fmlookup (fs_files (sn_fs t)) p = Some c" and q: "sn_pending t = Some q"
    and "rr_filename q = base_name p" and "0 < rr_offset q" and "rr_offset q \<le> int (length c)" and "rr_offset q mod ChunkSize = 0"
    and "rr_prefix_hash q = hex_encode (sha256 (take (nat (rr_offset q)) c))"
    and run: "stream_file L wire i p t = (Inr (), t')" and "sound L" and "wire_ok wire t" and "marshal_fits L (base_name p)"
  shows "\<exists>b cs. lib_marshal_meta L (file_meta p c (rr_offset q)) = Some b \<and> concat cs = drop (nat (rr_offset q)) c \<and>
     carries L wire t t' (meta_message b # map new_chunk_message cs @ [new_complete_message])"
proof -
  let ?t = "t\<lparr>sn_pending := None\<rparr>"
  have h: "on_fs (file_prefix_hash p (rr_offset q)) ?t = (Inr (rr_prefix_hash q), ?t)"
    using assms by (simp add: on_fs_def file_prefix_hash_calm)
  have sk: "on_fs os_seek ?t = (Inr (), ?t)"
    using assms(1) by (simp add: on_fs_def os_seek_def next_fault_none)
  have "stream_file L wire i p t = send_body L wire i p (int (length c)) (rr_offset q) (Some (drop (nat (rr_offset q)) c)) ?t"
    using assms(1-7) h sk
    by (simp add: stream_file_def on_fs_def [of "os_open p"] on_fs_def [of "os_stat_size n src" for n src]
        os_open_def os_stat_size_def next_fault_none resume_offset_def)
  moreover have "wire_ok wire ?t" using assms(11) by (simp add: wire_ok_def)
  ultimately have body: "send_body L wire i p (int (length c)) (rr_offset q) (Some (drop (nat (rr_offset q)) c)) ?t = (Inr (), t')"
    and ok: "wire_ok wire ?t" using run by simp_all
  from send_body_sent [OF body assms(10) ok assms(12)]
  show ?thesis by (auto simp: carries_def)
qed

text \<open>A file sent from the start is stored, whatever part file is there.\<close>

lemma fresh_end_to_end:
  assumes "sound L" and "wire_ok wire t" and "marshal_fits L (base_name p)" and "codec_ok L p c"
    and "fmlookup (fs_files (sn_fs t)) p = Some c" and "sn_pending t = None" and run: "stream_file L wire i p t = (Inr (), t')"
    and "rc_key r = sn_key t" and "rc_resume r = None" and "fs_faults (rw_fs w) = []"
    and n: "safe_filename (base_name p) = Inr n" and dest: "unique_path (rw_fs w) (join d n) = Some dest"
    and nd: "dest @ ''.part'' |\<notin>| fs_dirs (rw_fs w)"
  shows "\<exists>w'. recv_file L r d None (received_reads L (rc_key r) (frames_between wire t t') @ rest) w = (Inr dest, rest, w') \<and>
     fmlookup (fs_files (rw_fs w')) dest = Some c \<and> fmlookup (fs_files (rw_fs w')) (dest @ ''.part'') = None"
proof -
  obtain ms where ms: "carries L wire t t' ms" "file_sent L None p c ms"
    using stream_file_trace [OF run assms(1,2,3,5)] assms(6) by auto
  then obtain b cs where f: "lib_marshal_meta L (file_meta p c 0) = Some b" "concat cs = c"
      "ms = meta_message b # map new_chunk_message cs @ [new_complete_message]"
    by (auto simp: file_sent_def offset_ok_def)
  have "accepts L r d (rw_fs w) b = Some (dest, [])"
    using assms(4,9) f(1) n dest nd by (simp add: codec_ok_def accepts_def wants_resume_def file_meta_def)
  from recv_loop_accepts [OF assms(10) this, of cs rest] obtain w' where
    "recv_loop L r d (Inr (meta_message b) # file_reads cs rest) recv_init w = (Inr dest, rest, w')"
    "rw_fs w' = put_file dest c (rw_fs w)" using f(2) by auto
  moreover have "received_reads L (rc_key r) (frames_between wire t t') @ rest = Inr (meta_message b) # file_reads cs rest"
    using carries_reads [OF ms(1)] assms(8) f(3) by (simp add: file_reads_def comp_def)
  ultimately show ?thesis by (auto simp: recv_file_def put_file_def simp del: recv_loop.simps)
qed

section \<open>Cut transfers\<close>

text \<open>The messages that arrived before the connection broke: the metadata and a beginning of the file.\<close>

lemma cut_messages:
  assumes "file_cut L None p c ms \<or> file_sent L None p c ms" and "ms \<noteq> []" and "0 < k"
  shows "\<exists>b cs t. lib_marshal_meta L (file_meta p c 0) = Some b \<and> c = concat cs @ t \<and>
     (take k ms = meta_message b # map new_chunk_message cs \<or>
      take k ms = meta_message b # map new_chunk_message cs @ [new_complete_message] \<and> t = [])"
proof -
  obtain j where k: "k = Suc j" using assms(3) gr0_conv_Suc by auto
  have part: "\<exists>t. concat cs = concat (take j cs) @ t" for cs :: "bytes list"
    by (metis append_take_drop_id concat_append)
  have "\<exists>b cs t. lib_marshal_meta L (file_meta p c 0) = Some b \<and> concat cs @ t = c \<and>
     (ms = meta_message b # map new_chunk_message cs \<or>
      ms = meta_message b # map new_chunk_message cs @ [new_complete_message] \<and> t = [])"
    using assms(1)
  proof
    assume "file_cut L None p c ms"
    with assms(2) show ?thesis by (auto simp: file_cut_def offset_ok_def)
  next
    assume "file_sent L None p c ms"
    then obtain b cs where "lib_marshal_meta L (file_meta p c 0) = Some b" "concat cs = c"
        "ms = meta_message b # map new_chunk_message cs @ [new_complete_message]"
      by (auto simp: file_sent_def offset_ok_def)
    then show ?thesis by (intro exI [of _ b] exI [of _ cs] exI [of _ "[]"]) simp
  qed
  then obtain b cs t where b: "lib_marshal_meta L (file_meta p c 0) = Some b" "concat cs @ t = c"
    and ms: "ms = meta_message b # map new_chunk_message cs \<or>
      ms = meta_message b # map new_chunk_message cs @ [new_complete_message] \<and> t = []"
    by blast
  show ?thesis
  proof (cases "j < length cs \<or> ms = meta_message b # map new_chunk_message cs \<or> j = length cs")
    case True
    then have "take k ms = meta_message b # map new_chunk_message (take j cs)"
      using ms k by (auto simp: take_map)
    moreover obtain u where "concat cs = concat (take j cs) @ u" using part by blast
    ultimately show ?thesis
      using b by (intro exI [of _ b] exI [of _ "take j cs"] exI [of _ "u @ t"]) auto
  next
    case False
    with ms b k show ?thesis by (intro exI [of _ b] exI [of _ cs] exI [of _ "[]"]) auto
  qed
qed

lemma unique_path_fresh: "\<not> fs_exists fs p \<Longrightarrow> unique_path fs p = Some p"
  by (simp add: unique_path_def)

lemma cut_prefix: "c = x @ y \<Longrightarrow> take (length (cut_to_chunks x)) c = cut_to_chunks x \<and> length (cut_to_chunks x) \<le> length c"
proof -
  assume c: "c = x @ y"
  obtain z where "x = cut_to_chunks x @ z"
    unfolding cut_to_chunks_def by (metis append_take_drop_id)
  with c have "c = cut_to_chunks x @ z @ y" by (metis append.assoc)
  then show ?thesis by (metis append_eq_conv_conj length_append le_add1)
qed

section \<open>Interrupted and resumed\<close>

text \<open>The disk after a cut transfer: a beginning of the file in the part file, and nothing else changed.\<close>

lemma interrupted_disk:
  assumes "sound L" and codec: "codec_ok L p c" and fits: "marshal_fits L (base_name p)"
    and n: "safe_filename (base_name p) = Inr n" and ok: "wire_ok wire s"
    and fl: "fmlookup (fs_files (sn_fs s)) p = Some c" and "sn_pending s = None"
    and run: "stream_file L wire i p s = (res, s')" and "frames_between wire s s' \<noteq> []" and "0 < k"
    and cut: "recv_file L \<lparr>rc_key = sn_key s, rc_resume = None\<rparr> d None
        (take k (received_reads L (sn_key s) (frames_between wire s s')) @ Inl e # rest) w = (Inl err, rest1, w1)"
    and "fs_faults (rw_fs w) = []" and fresh: "\<not> fs_exists (rw_fs w) (join d n)"
    and nd: "join d n @ ''.part'' |\<notin>| fs_dirs (rw_fs w)"
  shows "\<exists>x y. c = x @ y \<and> rw_fs w1 = (rw_fs w)\<lparr>fs_files := fmupd (join d n @ ''.part'') x (fs_files (rw_fs w))\<rparr>"
proof -
  let ?r = "\<lparr>rc_key = sn_key s, rc_resume = None\<rparr>" and ?dest = "join d n"
  have "\<exists>ms. carries L wire s s' ms \<and> (file_cut L None p c ms \<or> file_sent L None p c ms)"
    using stream_file_trace [OF run assms(1) ok fits fl] assms(7) by (cases res) auto
  then obtain ms where ms: "carries L wire s s' ms" "file_cut L None p c ms \<or> file_sent L None p c ms" by blast
  have rds: "received_reads L (sn_key s) (frames_between wire s s') = map Inr ms" by (rule carries_reads [OF ms(1)])
  then have "ms \<noteq> []" using assms(9) by (auto simp: received_reads_def)
  from cut_messages [OF ms(2) this assms(10)] obtain b cs t where
    b: "lib_marshal_meta L (file_meta p c 0) = Some b" "c = concat cs @ t"
    and part: "take k ms = meta_message b # map new_chunk_message cs \<or>
      take k ms = meta_message b # map new_chunk_message cs @ [new_complete_message] \<and> t = []" by blast
  have u: "lib_unmarshal_meta L b = Some (file_meta p c 0)" using codec b(1) by (simp add: codec_ok_def)
  have dest: "unique_path (rw_fs w) (join d n) = Some ?dest" using fresh by (rule unique_path_fresh)
  have acc: "accepts L ?r d (rw_fs w) b = Some (?dest, [])"
    using u n dest nd by (simp add: accepts_def wants_resume_def file_meta_def)
  have not_done: "take k ms \<noteq> meta_message b # map new_chunk_message cs @ [new_complete_message]"
  proof
    assume a: "take k ms = meta_message b # map new_chunk_message cs @ [new_complete_message]"
    then have "take k (map Inr ms) @ Inl e # rest = Inr (meta_message b) # file_reads cs (Inl e # rest)"
      by (simp add: take_map file_reads_def comp_def)
    with cut rds recv_loop_accepts [OF assms(12) acc, of cs "Inl e # rest"] show False
      by (auto simp: recv_file_def simp del: recv_loop.simps)
  qed
  with part have "take k (map Inr ms) @ Inl e # rest =
      Inr (meta_message b) # map (\<lambda>c. Inr (new_chunk_message c)) cs @ Inl e # rest"
    by (simp add: take_map comp_def)
  with cut rds recv_file_cut [OF assms(12) u _ dest nd, of ?r cs e rest] n
  have "rw_fs w1 = (rw_fs w)\<lparr>fs_files := fmupd (?dest @ ''.part'') (concat cs) (fs_files (rw_fs w))\<rparr>"
    by (auto simp: file_meta_def)
  with b(2) show ?thesis by blast
qed

text \<open>
  C5: A transfer that breaks off and is resumed ends with the sender's file.  The first transfer may fail at any point on
  either side, the connection may break after any number of frames; from what is then on the disk
  \<open>FindResumeCandidate\<close> makes a request or none, and when the second transfer of the file returns, the receiver has
  exactly the sender's file under its name and no part file.  When there was a request it is for whole chunks, and a sender
  whose disk works grants it: only the rest of the file goes over the wire.
\<close>

theorem interrupted_resumed:
  assumes "sound L" and "codec_ok L p c" and "marshal_fits L (base_name p)" and n: "safe_filename (base_name p) = Inr n"
    and "wire_ok wire s" and "fmlookup (fs_files (sn_fs s)) p = Some c" and "sn_pending s = None"
    and "stream_file L wire i p s = (res, s')" and "frames_between wire s s' \<noteq> []" and "0 < k"
    and "recv_file L \<lparr>rc_key = sn_key s, rc_resume = None\<rparr> d None
        (take k (received_reads L (sn_key s) (frames_between wire s s')) @ Inl e # rest) w = (Inl err, rest1, w1)"
    and "fs_faults (rw_fs w) = []" and "\<not> fs_exists (rw_fs w) (join d n)" and "join d n @ ''.part'' |\<notin>| fs_dirs (rw_fs w)"
    and found: "find_resume_candidate d dirSize (rw_fs w1) = (found, fs)"
    and "wire_ok wire' t" and "fmlookup (fs_files (sn_fs t)) p = Some c" and pending: "found = Inr (sn_pending t)"
    and "stream_file L wire' j p t = (Inr (), t')"
  shows "(\<exists>w'. recv_file L \<lparr>rc_key = sn_key t, rc_resume = sn_pending t\<rparr> d None
       (received_reads L (sn_key t) (frames_between wire' t t') @ rest') (w1\<lparr>rw_fs := fs\<rparr>) = (Inr (join d n), rest', w') \<and>
       fmlookup (fs_files (rw_fs w')) (join d n) = Some c \<and> fmlookup (fs_files (rw_fs w')) (join d n @ ''.part'') = None) \<and>
     (case sn_pending t of None \<Rightarrow> True
      | Some q \<Rightarrow> rr_offset q > 0 \<and> rr_offset q mod ChunkSize = 0 \<and>
          (if fs_faults (sn_fs t) = []
           then \<exists>b cs. lib_marshal_meta L (file_meta p c (rr_offset q)) = Some b \<and> concat cs = drop (nat (rr_offset q)) c \<and>
             carries L wire' t t' (meta_message b # map new_chunk_message cs @ [new_complete_message])
           else True))"
proof -
  let ?dest = "join d n" and ?r = "\<lparr>rc_key = sn_key t, rc_resume = sn_pending t\<rparr>"
  let ?part = "?dest @ ''.part''"
  have nm: "plain_name n" "base_name p = n" using n by (simp_all add: result_iff)
  from interrupted_disk [OF assms(1-14)] obtain x y where
    c: "c = x @ y" and w1: "rw_fs w1 = (rw_fs w)\<lparr>fs_files := fmupd ?part x (fs_files (rw_fs w))\<rparr>" by blast
  have f1: "fs_faults (rw_fs w1) = []" "fmlookup (fs_files (rw_fs w1)) ?part = Some x"
    using assms(12) w1 by simp_all
  note cand = candidate_found [OF nm(1) f1 found]
  have free: "unique_path fs ?dest = Some ?dest" "?part |\<notin>| fs_dirs fs" "fs_faults fs = []"
    using cand assms(12-14) by (auto simp: w1 fs_exists_def intro!: unique_path_fresh)
  show ?thesis
  proof (cases "sn_pending t")
    case None
    from fresh_end_to_end [OF assms(1,16,3,2,17) None assms(19), where r = ?r and w = "w1\<lparr>rw_fs := fs\<rparr>" and d = d and n = n and dest = ?dest]
      None n free show ?thesis by auto
  next
    case (Some q)
    let ?old = "cut_to_chunks x"
    have q: "q = \<lparr>rr_filename = n, rr_offset = int (length ?old), rr_prefix_hash = hex_encode (sha256 ?old)\<rparr>"
      and old: "fmlookup (fs_files fs) ?part = Some ?old" "?old \<noteq> []"
      using cand pending Some by auto
    note pre = cut_prefix [OF c]
    have "\<exists>w'. recv_file L ?r d None (received_reads L (rc_key ?r) (frames_between wire' t t') @ rest') (w1\<lparr>rw_fs := fs\<rparr>)
       = (Inr ?dest, rest', w') \<and> fmlookup (fs_files (rw_fs w')) ?dest = Some c \<and> fmlookup (fs_files (rw_fs w')) ?part = None"
      by (rule resume_end_to_end [OF assms(1,16,3,2,17) Some assms(19)])
        (use Some n free old conjunct1 [OF pre] in \<open>auto simp: q\<close>)
    moreover have whole: "rr_offset q > 0" "rr_offset q mod ChunkSize = 0"
    proof -
      show "rr_offset q > 0" using old(2) by (simp add: q)
      show "rr_offset q mod ChunkSize = 0" unfolding q resume_request.select_convs length_cut by simp
    qed
    moreover have "\<exists>b cs. lib_marshal_meta L (file_meta p c (rr_offset q)) = Some b \<and> concat cs = drop (nat (rr_offset q)) c \<and>
       carries L wire' t t' (meta_message b # map new_chunk_message cs @ [new_complete_message])"
      if "fs_faults (sn_fs t) = []"
      by (rule stream_file_granted [OF that assms(17) Some _ _ _ _ _ assms(19,1,16,3)])
        (use nm pre whole in \<open>auto simp: q\<close>)
    ultimately show ?thesis using Some by simp
  qed
qed

text \<open>A file of two chunks: the connection breaks after the first, and the second transfer sends the other.\<close>

definition parted_disk :: filesys where
  "parted_disk = empty_disk\<lparr>fs_files := fmupd ''d/a.txt.part'' (fives 65536) fmempty\<rparr>"

lemma sample_part: "plain_name ''a.txt''" "join ''d'' ''a.txt'' @ ''.part'' = ''d/a.txt.part''"
  using sample_name by (simp_all add: result_iff)

lemma parted_glob: "glob_parts ''d'' parted_disk = {|''d/a.txt.part''|}"
proof -
  have "base_name ''d/a.txt.part'' = ''a.txt.part''" "base_name ''d'' = ''d''"
    using base_name_join [OF plain_part [OF sample_part(1)], of "''d''"] join_part [OF sample_part(1), of "''d''"] sample_part(2)
    by (simp_all add: base_name_def)
  moreover have "join ''d'' ''a.txt.part'' = ''d/a.txt.part''"
    using join_part [OF sample_part(1), of "''d''"] sample_part(2) by simp
  ultimately show ?thesis by (auto simp: glob_parts_def parted_disk_def empty_disk_def)
qed

lemma file_chunks_fives: "file_chunks (fives 65537) = [fives 65536, fives 1]"
  using file_chunks_step [of "fives 65537"] file_chunks_step [of "fives 1"]
  by (simp add: fives_simps fives_def drop_replicate del: file_chunks.simps) (simp add: file_chunks_step)

theorem interrupted_resumed_witness:
  "\<exists>s' w1 fs q t' w'. let p = ''a.txt''; c = fives 65537; L = one_file_libs p c; s = sample_sender (sample_disk p c);
       t = s\<lparr>sn_pending := Some q\<rparr> in
     stream_file L WSWire 0 p s = (Inr (), s') \<and>
     recv_file L \<lparr>rc_key = sample_key, rc_resume = None\<rparr> ''d'' None
       (take 2 (received_reads L sample_key (frames_between WSWire s s')) @ [Inl ReadEOF]) (sample_world empty_disk) =
       (Inl (ReadMessage ReadEOF), [], w1) \<and>
     find_resume_candidate ''d'' 0 (rw_fs w1) = (Inr (Some q), fs) \<and> rr_offset q = 65536 \<and>
     stream_file L WSWire 0 p t = (Inr (), t') \<and>
     recv_file L \<lparr>rc_key = sample_key, rc_resume = Some q\<rparr> ''d'' None
       (received_reads L sample_key (frames_between WSWire t t') @ []) (w1\<lparr>rw_fs := fs\<rparr>) = (Inr ''d/a.txt'', [], w') \<and>
     fmlookup (fs_files (rw_fs w')) ''d/a.txt'' = Some c"
proof -
  let ?p = "''a.txt''" and ?c = "fives 65537"
  let ?L = "one_file_libs ?p ?c" and ?s = "sample_sender (sample_disk ?p ?c)"
  have calm: "calm WSWire ?s" by (rule sample_sender_calm) simp
  have eq: "stream_file ?L WSWire 0 ?p ?s = send_body ?L WSWire 0 ?p (int (length ?c)) 0 (Some ?c) ?s"
    by (rule stream_file_calm_eq) simp_all
  from send_body_chunks [OF calm one_file_libs_ok(1) _ one_file_libs_ok(2) one_file_libs_ok(4), where i = 0] obtain s' where
    run: "stream_file ?L WSWire 0 ?p ?s = (Inr (), s')"
    and sent: "carries ?L WSWire ?s s' (meta_message [1] # map new_chunk_message (file_chunks ?c) @ [new_complete_message])"
    unfolding eq by auto
  have rds: "received_reads ?L sample_key (frames_between WSWire ?s s') =
      map Inr (meta_message [1] # map new_chunk_message [fives 65536, fives 1] @ [new_complete_message])"
    using carries_reads [OF sent] by (simp add: file_chunks_fives)
  have ne: "frames_between WSWire ?s s' \<noteq> []" using rds by (auto simp: received_reads_def)
  have name: "safe_filename (base_name ?p) = Inr ?p" by (simp add: sample_name)
  have disk: "\<not> fs_exists empty_disk (join ''d'' ?p)" "join ''d'' ?p @ ''.part'' |\<notin>| fs_dirs empty_disk"
    by (simp_all add: sample_name fs_exists_def empty_disk_def)
  have u: "lib_unmarshal_meta ?L [1] = Some (file_meta ?p ?c 0)" by (simp add: one_file_libs_def)
  have up: "unique_path empty_disk (join ''d'' ?p) = Some ''d/a.txt''" using sample_dest by (simp add: sample_name)
  let ?r = "\<lparr>rc_key = sample_key, rc_resume = None\<rparr>"
  have sn: "safe_filename (md_filename (file_meta ?p ?c 0)) = Inr ?p" by (simp add: file_meta_def sample_name)
  have "\<exists>w1. recv_file ?L ?r ''d'' None (Inr (meta_message [1]) # map (\<lambda>c. Inr (new_chunk_message c)) [fives 65536] @ [Inl ReadEOF])
       (sample_world empty_disk) = (Inl (ReadMessage ReadEOF), [], w1) \<and>
     rw_fs w1 = (rw_fs (sample_world empty_disk))\<lparr>fs_files := fmupd (''d/a.txt'' @ ''.part'') (concat [fives 65536])
       (fs_files (rw_fs (sample_world empty_disk)))\<rparr>"
    by (rule recv_file_cut [OF _ u sn]) (use up in \<open>simp_all add: empty_disk_def\<close>)
  then obtain w1 where first: "recv_file ?L ?r ''d'' None
       (take 2 (received_reads ?L sample_key (frames_between WSWire ?s s')) @ [Inl ReadEOF]) (sample_world empty_disk) =
       (Inl (ReadMessage ReadEOF), [], w1)" and w1: "rw_fs w1 = parted_disk"
    by (auto simp: rds parted_disk_def empty_disk_def)
  obtain found fs where found: "find_resume_candidate ''d'' 0 (rw_fs w1) = (found, fs)" by fastforce
  have "os_truncate ''d/a.txt.part'' 65536 parted_disk = (Inr (), parted_disk)"
    by (simp add: os_truncate_def parted_disk_def next_fault_none fives_simps fmupd_idle)
  moreover have "\<exists>h. file_prefix_hash ''d/a.txt.part'' 65536 parted_disk = (Inr h, parted_disk)"
    by (simp add: file_prefix_hash_calm parted_disk_def fives_simps)
  moreover have "fmlookup (fs_files parted_disk) ''d/a.txt.part'' = Some (fives 65536)" by (simp add: parted_disk_def)
  moreover have "fthe_elem {|x|} = x" "fcard {|x|} = 1" for x :: path by (simp_all add: fthe_elem.rep_eq fcard.rep_eq)
  moreover have "int (length (fives 65536)) div ChunkSize * ChunkSize = 65536" by (simp add: fives_simps ChunkSize_def)
  ultimately obtain q where q: "found = Inr (Some q)" "rr_offset q = 65536"
    using found unfolding w1 find_resume_candidate_def parted_glob Let_def by auto
  let ?t = "?s\<lparr>sn_pending := Some q\<rparr>"
  have calm2: "calm WSWire ?t" using calm by (simp add: calm_def wire_up_def)
  have fl: "fmlookup (fs_files (sn_fs ?t)) ?p = Some ?c" by simp
  have "\<exists>t'. stream_file ?L WSWire 0 ?p ?t = (Inr (), t') \<and> calm WSWire t'"
    by (rule stream_file_calm [OF calm2 fl]) (auto simp: offset_ok_def one_file_libs_ok q)
  then obtain t' where second: "stream_file ?L WSWire 0 ?p ?t = (Inr (), t')" by blast
  have key: "sn_key ?s = sample_key" "sn_key ?t = sample_key" "sn_pending ?t = Some q" by simp_all
  from interrupted_resumed [where rest' = "[]" and d = "''d''" and n = ?p and w = "sample_world empty_disk", OF one_file_libs_ok(1,3,2) name calm_ok [OF calm]
      _ _ run ne _ first [folded key(1)] _ _ _ found calm_ok [OF calm2] fl _ second]
  obtain w' where "recv_file ?L \<lparr>rc_key = sample_key, rc_resume = Some q\<rparr> ''d'' None
       (received_reads ?L sample_key (frames_between WSWire ?t t') @ []) (w1\<lparr>rw_fs := fs\<rparr>) = (Inr ''d/a.txt'', [], w')"
     "fmlookup (fs_files (rw_fs w')) ''d/a.txt'' = Some ?c"
    using disk q(1) by (auto simp: key sample_name)
  with run first found q second show ?thesis by (auto simp: Let_def)
qed

end
