(* ===== verification/GoStrings.thy ===== *)
theory GoStrings
  imports GoPath
begin

text \<open>
  The functions of Go's packages \<open>strings\<close> and \<open>strconv\<close> that the program uses, on byte
  strings.  White space is Go's: the ASCII spaces and the UTF-8 encodings of the Unicode
  space characters.  Only case mapping outside ASCII is left open, as an argument.
\<close>

section \<open>White space\<close>

definition codes :: "string \<Rightarrow> nat list" where
  "codes s = map of_char s"

text \<open>The number of bytes of the space character a string starts with, 0 if with none.\<close>

definition space_len :: "string \<Rightarrow> nat" where
  "space_len s =
     (let b = codes (take 3 s)
      in if take 1 b \<in> {[9], [10], [11], [12], [13], [32]} then 1
         else if take 2 b \<in> {[194, 133], [194, 160]} then 2
         else if b \<in> {[225, 154, 128], [226, 128, 168], [226, 128, 169], [226, 128, 175], [226, 129, 159],
                       [227, 128, 128]} then 3
         else if length b = 3 \<and> take 2 b = [226, 128] \<and> 128 \<le> b ! 2 \<and> b ! 2 \<le> 138 then 3
         else 0)"

text \<open>\<open>strings.Fields\<close>; the first argument is the field read so far.\<close>

function fields_from :: "string \<Rightarrow> string \<Rightarrow> string list" where
  "fields_from cur [] = (if cur = [] then [] else [cur])"
| "fields_from cur (c # cs) =
     (let n = space_len (c # cs)
      in if n = 0 then fields_from (cur @ [c]) cs
         else (if cur = [] then [] else [cur]) @ fields_from [] (drop (n - 1) cs))"
  by pat_completeness auto
termination
  by (relation "measure (\<lambda>(_, s). length s)") auto

definition split_fields :: "string \<Rightarrow> string list" where
  "split_fields s = fields_from [] s"

text \<open>\<open>strings.TrimSpace\<close>.\<close>

function trim_left :: "string \<Rightarrow> string" where
  "trim_left s =
     (if s = [] \<or> space_len s = 0 then s else trim_left (drop (space_len s) s))"
  by pat_completeness auto
termination
  by (relation "measure length") auto

fun trim_right :: "string \<Rightarrow> string" where
  "trim_right [] = []"
| "trim_right (c # cs) = (if trim_left (c # cs) = [] then [] else c # trim_right cs)"

definition trim_space :: "string \<Rightarrow> string" where
  "trim_space s = trim_right (trim_left s)"

declare trim_left.simps [simp del]

section \<open>Case\<close>

definition is_ascii :: "string \<Rightarrow> bool" where
  "is_ascii s = list_all (\<lambda>c. of_char c < (128 :: nat)) s"

definition upper_char :: "char \<Rightarrow> char" where
  "upper_char c =
     (let n = of_char c :: nat in if 97 \<le> n \<and> n \<le> 122 then char_of (n - 32) else c)"

definition lower_char :: "char \<Rightarrow> char" where
  "lower_char c =
     (let n = of_char c :: nat in if 65 \<le> n \<and> n \<le> 90 then char_of (n + 32) else c)"

definition to_upper :: "(string \<Rightarrow> string) \<Rightarrow> string \<Rightarrow> string" where
  "to_upper unicode_upper s = (if is_ascii s then map upper_char s else unicode_upper s)"

section \<open>Joining, splitting, replacing\<close>

fun join_with :: "string \<Rightarrow> string list \<Rightarrow> string" where
  "join_with d [] = []"
| "join_with d [e] = e"
| "join_with d (e # es) = e @ d @ join_with d es"

text \<open>\<open>strings.Cut\<close> at a one-character separator.\<close>

definition cut :: "char \<Rightarrow> string \<Rightarrow> (string \<times> string) option" where
  "cut c s =
     (case dropWhile (\<lambda>x. x \<noteq> c) s of [] \<Rightarrow> None | _ # after \<Rightarrow> Some (takeWhile (\<lambda>x. x \<noteq> c) s, after))"

text \<open>\<open>strings.Split\<close> at a one-character separator.\<close>

fun split_on :: "char \<Rightarrow> string \<Rightarrow> string list" where
  "split_on d [] = [[]]"
| "split_on d (c # cs) =
     (if c = d then [] # split_on d cs
      else case split_on d cs of [] \<Rightarrow> [[c]] | e # es \<Rightarrow> (c # e) # es)"

text \<open>\<open>strings.Replace\<close> of the first occurrence of a non-empty string.\<close>

fun replace_first :: "string \<Rightarrow> string \<Rightarrow> string \<Rightarrow> string" where
  "replace_first old_s new_s [] = []"
| "replace_first old_s new_s (c # cs) =
     (if take (length old_s) (c # cs) = old_s then new_s @ drop (length old_s) (c # cs)
      else c # replace_first old_s new_s cs)"

section \<open>Decimal numbers\<close>

text \<open>\<open>strconv.Atoi\<close>: an optional sign and digits, within 64 bits.\<close>

definition is_digit :: "char \<Rightarrow> bool" where
  "is_digit c = (48 \<le> (of_char c :: nat) \<and> (of_char c :: nat) \<le> 57)"

definition digits_value :: "string \<Rightarrow> int" where
  "digits_value s = foldl (\<lambda>v c. 10 * v + (of_char c - 48)) 0 s"

definition atoi :: "string \<Rightarrow> int option" where
  "atoi s =
     (let neg = (take 1 s = ''-'');
          ds = (if take 1 s = ''-'' \<or> take 1 s = ''+'' then drop 1 s else s);
          v = (if neg then - digits_value ds else digits_value ds)
      in if ds = [] \<or> \<not> list_all is_digit ds \<or> v < - (2 ^ 63) \<or> v \<ge> 2 ^ 63 then None else Some v)"

section \<open>Facts\<close>

lemma space_len_Nil [simp]: "space_len [] = 0"
  by (simp add: space_len_def codes_def)

lemma space_len_le: "space_len s \<le> length s"
proof -
  have "length (codes (take 3 s)) \<le> length s" by (simp add: codes_def)
  then show ?thesis
    by (auto simp: space_len_def Let_def) (auto simp: codes_def dest!: arg_cong [where f = length])
qed

text \<open>A letter, a digit or any other printable ASCII character is no space.\<close>

definition plain_char :: "char \<Rightarrow> bool" where
  "plain_char c = (33 \<le> (of_char c :: nat) \<and> (of_char c :: nat) \<le> 126)"

lemma space_len_plain: "plain_char c \<Longrightarrow> space_len (c # cs) = 0"
  by (cases cs; cases "tl cs") (auto simp: space_len_def codes_def plain_char_def Let_def)

lemma space_len_space: "space_len (CHR '' '' # cs) = 1"
  by (simp add: space_len_def codes_def Let_def)

lemma fields_from_plain:
  "list_all plain_char w \<Longrightarrow> fields_from cur (w @ s) = fields_from (cur @ w) s"
  by (induction w arbitrary: cur) (simp_all add: space_len_plain)

lemma fields_from_space: "fields_from cur (CHR '' '' # s) = (if cur = [] then [] else [cur]) @ fields_from [] s"
  by (simp add: space_len_space Let_def)

text \<open>Words joined by single spaces come apart again.\<close>

definition word_ok :: "string \<Rightarrow> bool" where
  "word_ok w = (w \<noteq> [] \<and> list_all plain_char w)"

lemma fields_join: "list_all word_ok ws \<Longrightarrow> split_fields (join_with '' '' ws) = ws"
proof (induction "'' ''" ws rule: join_with.induct)
  case (2 e)
  then show ?case
    using fields_from_plain [of e "[]" "[]"] by (simp add: split_fields_def word_ok_def)
next
  case (3 e e' es)
  then show ?case
    using fields_from_plain [of e "[]" "CHR '' '' # join_with '' '' (e' # es)"]
    by (simp add: split_fields_def word_ok_def fields_from_space del: fields_from.simps)
qed (simp add: split_fields_def)

lemma trim_left_plain: "plain_char c \<Longrightarrow> trim_left (c # cs) = c # cs"
  by (simp add: trim_left.simps space_len_plain)

lemma trim_left_id: "space_len s = 0 \<Longrightarrow> trim_left s = s"
  by (simp add: trim_left.simps)

lemma space_len_3: "space_len s \<le> 3"
  by (auto simp: space_len_def Let_def)

text \<open>A space character does not end in a plain one.\<close>

lemma space_len_before_plain:
  assumes "plain_char c"
  shows "space_len (s @ [c]) \<le> length s"
proof (cases "length s \<ge> 3")
  case True
  with space_len_3 [of "s @ [c]"] show ?thesis by simp
next
  case False
  then consider "s = []" | a where "s = [a]" | a b where "s = [a, b]"
    by (cases s; cases "tl s"; cases "tl (tl s)") auto
  then show ?thesis
    using assms by cases (auto simp: space_len_def codes_def plain_char_def Let_def)
qed

lemma trim_left_not_Nil: "plain_char c \<Longrightarrow> trim_left (s @ [c]) \<noteq> []"
proof (induction s rule: measure_induct_rule [where f = length])
  case (less s)
  show ?case
  proof (cases "space_len (s @ [c]) = 0")
    case True
    then show ?thesis by (simp add: trim_left.simps)
  next
    case False
    moreover from space_len_before_plain [OF less.prems, of s]
    have "drop (space_len (s @ [c])) (s @ [c]) = drop (space_len (s @ [c])) s @ [c]"
      by simp
    moreover from False space_len_before_plain [OF less.prems, of s]
    have "length (drop (space_len (s @ [c])) s) < length s"
      by simp
    ultimately show ?thesis
      using less by (subst trim_left.simps) auto
  qed
qed

lemma trim_right_plain: "plain_char c \<Longrightarrow> trim_right (s @ [c]) = s @ [c]"
proof (induction s)
  case Nil
  then show ?case by (simp add: trim_left_plain)
next
  case (Cons a s)
  with trim_left_not_Nil [of c "a # s"] show ?case by simp
qed

lemma trim_space_plain:
  assumes "plain_char (hd s)" and "plain_char (last s)" and "s \<noteq> []"
  shows "trim_space s = s"
proof -
  have "trim_left s = s"
    using assms(1,3) trim_left_plain by (cases s) simp_all
  moreover have "s = butlast s @ [last s]" using assms(3) by simp
  ultimately show ?thesis
    unfolding trim_space_def using trim_right_plain [OF assms(2), of "butlast s"] by metis
qed

lemma join_ends:
  assumes "list_all word_ok ws" and "ws \<noteq> []"
  shows "join_with '' '' ws \<noteq> [] \<and> plain_char (hd (join_with '' '' ws)) \<and> plain_char (last (join_with '' '' ws))"
  using assms
proof (induction "'' ''" ws rule: join_with.induct)
  case (3 e e' es)
  then show ?case
    by (auto simp: word_ok_def) (simp_all add: list_all_iff hd_append)
qed (auto simp: word_ok_def list_all_iff)

lemma trim_join: "list_all word_ok ws \<Longrightarrow> ws \<noteq> [] \<Longrightarrow> trim_space (join_with '' '' ws) = join_with '' '' ws"
  using join_ends trim_space_plain by blast

end
