(* ===== verification/Flags.thy ===== *)
theory Flags
  imports GoStrings
begin

text \<open>
  The command line of \<open>cmd/drop\<close>: \<open>main\<close>, the flags that package \<open>flag\<close> reads for it and for \<open>drop send\<close>,
  and the ones the other commands pick out of their arguments.  Printing usage is a constructor.
\<close>

section \<open>Flags picked out of the arguments\<close>

text \<open>\<open>parseStayOpenFlags\<close> and \<open>parseResumeFlag\<close>.\<close>

fun parse_flag :: "string \<Rightarrow> string list \<Rightarrow> bool \<times> string list" where
  "parse_flag flag [] = (False, [])"
| "parse_flag flag (a # as) =
     (case parse_flag flag as of
        (found, rest) \<Rightarrow> if a = flag then (True, rest) else (found, a # rest))"

definition parse_stay_open_flags :: "string list \<Rightarrow> bool \<times> string list" where
  "parse_stay_open_flags args = parse_flag ''--stay-open'' args"

definition parse_resume_flag :: "string list \<Rightarrow> bool \<times> string list" where
  "parse_resume_flag args = parse_flag ''--resume'' args"

definition to_http :: "string \<Rightarrow> string" where
  "to_http url = replace_first ''ws://'' ''http://'' (replace_first ''wss://'' ''https://'' url)"

definition to_ws :: "string \<Rightarrow> string" where
  "to_ws url = replace_first ''http://'' ''ws://'' (replace_first ''https://'' ''wss://'' url)"

section \<open>Package \<open>flag\<close>\<close>

text \<open>
  One argument as \<open>FlagSet.parseOne\<close> sees it: not a flag, the end of the flags, a malformed one, or a name and, after an equals
  sign that is not its first character, a value.
\<close>

datatype flag_error = BadSyntax string | UnknownFlag string | MissingValue string | BadBool string | HelpWanted

datatype flag_arg = Positional | Terminator | Malformed | Named string "string option"

definition split_flag :: "string \<Rightarrow> string \<times> string option" where
  "split_flag s = (case cut CHR ''='' s of None \<Rightarrow> (s, None) | Some (n, v) \<Rightarrow> (n, Some v))"

definition read_flag :: "string \<Rightarrow> flag_arg" where
  "read_flag a =
     (if length a < 2 \<or> hd a \<noteq> CHR ''-'' then Positional
      else if a = ''--'' then Terminator
      else let nm = (if a ! 1 = CHR ''-'' then drop 2 a else drop 1 a)
      in if nm = [] \<or> hd nm = CHR ''-'' \<or> hd nm = CHR ''='' then Malformed
      else case split_flag nm of (key, v) \<Rightarrow> Named key v)"

definition undefined_flag :: "string \<Rightarrow> flag_error" where
  "undefined_flag key = (if key = ''help'' \<or> key = ''h'' then HelpWanted else UnknownFlag key)"

definition parse_bool :: "string \<Rightarrow> bool option" where
  "parse_bool s =
     (if s \<in> {''1'', ''t'', ''T'', ''TRUE'', ''true'', ''True''} then Some True
      else if s \<in> {''0'', ''f'', ''F'', ''FALSE'', ''false'', ''False''} then Some False
      else None)"

section \<open>The flags of \<open>drop send\<close>\<close>

record send_flags =
  fl_mode :: string
  fl_stay_open :: bool
  fl_resume :: string

fun parse_send :: "string list \<Rightarrow> send_flags \<Rightarrow> flag_error + send_flags \<times> string list" where
  "parse_send [] f = Inr (f, [])"
| "parse_send (a # as) f =
     (case read_flag a of
        Positional \<Rightarrow> Inr (f, a # as)
      | Terminator \<Rightarrow> Inr (f, as)
      | Malformed \<Rightarrow> Inl (BadSyntax a)
      | Named key v \<Rightarrow>
          if key = ''stay-open'' then
            (case v of
               None \<Rightarrow> parse_send as (f\<lparr>fl_stay_open := True\<rparr>)
             | Some s \<Rightarrow>
                 (case parse_bool s of
                    None \<Rightarrow> Inl (BadBool s) | Some b \<Rightarrow> parse_send as (f\<lparr>fl_stay_open := b\<rparr>)))
          else if key = ''mode'' \<or> key = ''resume-passphrase'' then
            (let put = (\<lambda>s. if key = ''mode'' then f\<lparr>fl_mode := s\<rparr> else f\<lparr>fl_resume := s\<rparr>)
             in case v of
                  Some s \<Rightarrow> parse_send as (put s)
                | None \<Rightarrow> (case as of [] \<Rightarrow> Inl (MissingValue key) | s # rest \<Rightarrow> parse_send rest (put s)))
          else Inl (undefined_flag key))"

definition no_flags :: send_flags where
  "no_flags = \<lparr>fl_mode = [], fl_stay_open = False, fl_resume = []\<rparr>"

section \<open>\<open>main\<close>\<close>

text \<open>\<open>flag.Parse\<close> with the one flag \<open>relay\<close>.\<close>

fun parse_global :: "string list \<Rightarrow> string \<Rightarrow> flag_error + string \<times> string list" where
  "parse_global [] relay = Inr (relay, [])"
| "parse_global (a # as) relay =
     (case read_flag a of
        Positional \<Rightarrow> Inr (relay, a # as)
      | Terminator \<Rightarrow> Inr (relay, as)
      | Malformed \<Rightarrow> Inl (BadSyntax a)
      | Named key v \<Rightarrow>
          if key = ''relay'' then
            (case v of
               Some s \<Rightarrow> parse_global as s
             | None \<Rightarrow> (case as of [] \<Rightarrow> Inl (MissingValue key) | s # rest \<Rightarrow> parse_global rest s))
          else Inl (undefined_flag key))"

definition default_relay :: "(string \<Rightarrow> string) \<Rightarrow> string" where
  "default_relay getenv =
     (let env = trim_space (getenv ''DROP_RELAY'') in if env \<noteq> [] then env else ''https://drop.volt-logik.io'')"

text \<open>A command with what it is given; \<open>PrintUsage\<close> is any of the usage messages.\<close>

datatype command =
    Version | PrintUsage | CmdSend "string list" | CmdReceive path bool | CmdDownload "string list"
  | CmdDiscover "string list" | CmdUpdate | PrintHelp

definition main_command :: "string list \<Rightarrow> command" where
  "main_command args =
     (case args of
        [] \<Rightarrow> PrintUsage
      | c # rest \<Rightarrow>
          if c = ''send'' then (if rest = [] then PrintUsage else CmdSend rest)
          else if c = ''receive'' then
            (case parse_stay_open_flags rest of
               (stayOpen, ps) \<Rightarrow> CmdReceive (if ps \<noteq> [] then hd ps else ''.'') stayOpen)
          else if c = ''download'' then (if rest = [] then PrintUsage else CmdDownload rest)
          else if c = ''discover'' then CmdDiscover rest
          else if c = ''update'' then CmdUpdate
          else if c \<in> {''help'', ''--help'', ''-h''} then PrintHelp
          else CmdSend args)"

text \<open>\<open>argv\<close> is what follows the program's name; the result is the relay and the command.\<close>

definition main_program :: "(string \<Rightarrow> string) \<Rightarrow> string list \<Rightarrow> flag_error + string \<times> command" where
  "main_program getenv argv =
     (if argv \<noteq> [] \<and> hd argv \<in> {''version'', ''--version'', ''-v''} then Inr (default_relay getenv, Version)
      else case parse_global argv (default_relay getenv) of
        Inl e \<Rightarrow> Inl e
      | Inr (relay, args) \<Rightarrow> Inr (relay, main_command args))"

text \<open>
  The exit code: package \<open>flag\<close> exits with 2 on an error and with 0 after \<open>-h\<close>; \<open>failed\<close> says whether the command
  returned an error.
\<close>

definition exit_code :: "flag_error + string \<times> command \<Rightarrow> bool \<Rightarrow> nat" where
  "exit_code started failed =
     (case started of
        Inl e \<Rightarrow> if e = HelpWanted then 0 else 2
      | Inr (_, c) \<Rightarrow>
          if c = Version \<or> c = PrintHelp then 0 else if c = PrintUsage \<or> failed then 1 else 0)"

section \<open>What the flags mean\<close>

lemma read_flag_positional: "\<not> (length a \<ge> 2 \<and> hd a = CHR ''-'') \<Longrightarrow> read_flag a = Positional"
  by (auto simp: read_flag_def)

lemma parse_positional:
  "read_flag a = Positional \<Longrightarrow> parse_send (a # as) f = Inr (f, a # as)"
  "read_flag a = Positional \<Longrightarrow> parse_global (a # as) relay = Inr (relay, a # as)"
  by simp_all

lemma read_flag_long:
  assumes "n \<noteq> []" and "hd n \<noteq> CHR ''-''" and "hd n \<noteq> CHR ''=''"
  shows "read_flag (''--'' @ n) = (case split_flag n of (key, v) \<Rightarrow> Named key v)"
  using assms by (simp add: read_flag_def Let_def)

lemma cut_absent: "c \<notin> set n \<Longrightarrow> cut c n = None"
  unfolding cut_def by (subst dropWhile_eq_Nil_conv [THEN iffD2]) auto

lemma cut_first: "c \<notin> set n \<Longrightarrow> cut c (n @ c # v) = Some (n, v)"
  by (induction n) (auto simp: cut_def split: list.splits)

lemma read_flag_named:
  assumes "n \<noteq> []" and "CHR ''='' \<notin> set n" and "hd n \<noteq> CHR ''-''"
  shows "read_flag (''--'' @ n) = Named n None" and "read_flag (''--'' @ n @ ''='' @ v) = Named n (Some v)"
proof -
  have h: "hd n \<noteq> CHR ''=''" "hd (n @ ''='' @ v) = hd n" using assms(1,2) by (cases n; auto)+
  show "read_flag (''--'' @ n) = Named n None"
    unfolding read_flag_long [OF assms(1,3) h(1)] split_flag_def cut_absent [OF assms(2)] by simp
  have "read_flag (''--'' @ n @ ''='' @ v) = (case split_flag (n @ ''='' @ v) of (key, v) \<Rightarrow> Named key v)"
    by (rule read_flag_long) (use assms h in auto)
  then show "read_flag (''--'' @ n @ ''='' @ v) = Named n (Some v)"
    using cut_first [OF assms(2), of v] by (simp add: split_flag_def)
qed

text \<open>The flags of \<open>drop send\<close> written with their values are read back, whatever the values.\<close>

definition send_args :: "send_flags \<Rightarrow> string list" where
  "send_args f =
     [''--mode='' @ fl_mode f, ''--stay-open='' @ (if fl_stay_open f then ''true'' else ''false''),
      ''--resume-passphrase='' @ fl_resume f]"

lemma send_flags_roundtrip:
  assumes "files = [] \<or> read_flag (hd files) = Positional"
  shows "parse_send (send_args f @ files) no_flags = Inr (f, files)"
proof -
  note named = read_flag_named(2) [of "''mode''" "fl_mode f"] read_flag_named(2) [of "''stay-open''" "''true''"]
    read_flag_named(2) [of "''stay-open''" "''false''"] read_flag_named(2) [of "''resume-passphrase''" "fl_resume f"]
  have "parse_send files g = Inr (g, files)" for g
    using assms by (cases files) auto
  then show ?thesis
    using named by (cases f) (simp add: send_args_def no_flags_def parse_bool_def)
qed

text \<open>\<open>-h\<close> and \<open>--help\<close> never reach the \<open>switch\<close> of \<open>main\<close>, except behind \<open>--\<close>.\<close>

lemma help_flags:
  "main_program getenv (''--help'' # as) = Inl HelpWanted" "main_program getenv (''-h'' # as) = Inl HelpWanted"
  "main_program getenv [''help''] = Inr (default_relay getenv, PrintHelp)"
  "main_program getenv [''--'', ''--help''] = Inr (default_relay getenv, PrintHelp)"
  by (simp_all add: main_program_def read_flag_def split_flag_def cut_def undefined_flag_def main_command_def)

text \<open>\<open>version\<close> is a command only in front: behind \<open>--relay\<close> it is a file to send.\<close>

lemma version_behind_relay:
  "main_program getenv [''version''] = Inr (default_relay getenv, Version)"
  "main_program getenv [''--relay'', u, ''version''] = Inr (u, CmdSend [''version''])"
  by (simp_all add: main_program_def read_flag_def split_flag_def cut_def main_command_def)

section \<open>Property\<close>

text \<open>
  C40: Bare file arguments are an implicit send: for a first argument that is neither a flag nor a command,
  \<open>drop FILE ...\<close> runs what \<open>drop send FILE ...\<close> runs, with the relay of the environment, and \<open>--relay\<close> in front, in
  either spelling, replaces only the relay.
\<close>

theorem main_dispatch:
  assumes "read_flag a = Positional"
    and "a \<notin> {''version'', ''send'', ''receive'', ''download'', ''discover'', ''update'', ''help''}"
  shows "main_program getenv (a # as) = Inr (default_relay getenv, CmdSend (a # as))
   \<and> main_program getenv (''send'' # a # as) = Inr (default_relay getenv, CmdSend (a # as))
   \<and> main_program getenv (''--relay'' # u # a # as) = Inr (u, CmdSend (a # as))
   \<and> main_program getenv ((''--relay='' @ u) # ''send'' # a # as) = Inr (u, CmdSend (a # as))"
proof -
  have "a \<notin> {''--help'', ''-h'', ''--version'', ''-v''}"
    using assms(1) by (auto simp: read_flag_def split_flag_def cut_def)
  moreover have "read_flag (''--relay='' @ u) = Named ''relay'' (Some u)"
    using read_flag_named(2) [of "''relay''" u] by simp
  moreover have "read_flag ''send'' = Positional" "read_flag ''--relay'' = Named ''relay'' None"
    by (simp_all add: read_flag_def split_flag_def cut_def)
  ultimately show ?thesis
    using assms by (simp add: main_program_def main_command_def)
qed

theorem main_dispatch_witness:
  "main_program (\<lambda>_. '' '') [''a.txt'', ''b''] = Inr (''https://drop.volt-logik.io'', CmdSend [''a.txt'', ''b''])"
proof -
  have "default_relay (\<lambda>_. '' '') = ''https://drop.volt-logik.io''" by code_simp
  then show ?thesis
    using main_dispatch [of "''a.txt''" "\<lambda>_. '' ''" "[''b'']" "[]"] by (simp add: read_flag_def)
qed

end
