(* ===== verification/Mailbox.thy ===== *)
theory Mailbox
  imports Wire
begin

text \<open>
  \<open>internal/mailbox/payload.go\<close>: the plaintext layouts of a mailbox blob.  The legacy
  layout is one file, \<open>fnLen BE32 | name | contents\<close>; AMB2 is the magic, a 32-bit count,
  and for each entry \<open>fnLen BE32 | name | len BE64 | contents\<close>.  Slice expressions are
  written with \<open>cut_at\<close>, which is None where Go panics, and the panic is an error value:
  that no input reaches it is proved, not assumed.
\<close>

section \<open>Definitions\<close>

definition magicAMB2 :: bytes where "magicAMB2 = bytes_of ''AMB2''"
definition MaxFilesPerSend :: nat where "MaxFilesPerSend = 256"
definition MaxFilenameLen :: int where "MaxFilenameLen = 4095"
definition MaxFilePayload :: int where "MaxFilePayload = push_bit 20 500"

record entry =
  en_name :: string
  en_content :: bytes

datatype mailbox_error =
    InvalidFilename string
  | FileTooLarge string
  | NoEntries
  | TooManyFiles
  | CombinedSizeTooLarge
  | ErrInvalidPayload
  | MailboxSlicePanic

definition encode_v1 :: "string \<Rightarrow> bytes \<Rightarrow> mailbox_error + bytes" where
  "encode_v1 filename content =
     (let fn = bytes_of filename
      in if length fn < 1 \<or> int (length fn) > MaxFilenameLen then Inl (InvalidFilename filename)
         else if int (length content) > MaxFilePayload then Inl (FileTooLarge filename)
         else Inr (put32 (word_of_nat (length fn)) @ fn @ content))"

text \<open>The loop of \<open>EncodeAMB2\<close>: \<open>totalPayload\<close> is its accumulator.\<close>

fun encode_entries :: "int \<Rightarrow> entry list \<Rightarrow> mailbox_error + bytes" where
  "encode_entries totalPayload [] = Inr []"
| "encode_entries totalPayload (e # es) =
     (let fn = bytes_of (en_name e);
          total = totalPayload + int (length (en_content e))
      in if length fn < 1 \<or> int (length fn) > MaxFilenameLen then Inl (InvalidFilename (en_name e))
         else if int (length (en_content e)) > MaxFilePayload then Inl (FileTooLarge (en_name e))
         else if total > MaxFilePayload then Inl CombinedSizeTooLarge
         else case encode_entries total es of
           Inl err \<Rightarrow> Inl err
         | Inr rest \<Rightarrow>
             Inr (put32 (word_of_nat (length fn)) @ fn @
                  put64 (word_of_nat (length (en_content e))) @ en_content e @ rest))"

definition encode_amb2 :: "entry list \<Rightarrow> mailbox_error + bytes" where
  "encode_amb2 entries =
     (if length entries = 0 then Inl NoEntries
      else if length entries > MaxFilesPerSend then Inl TooManyFiles
      else case encode_entries 0 entries of
        Inl e \<Rightarrow> Inl e
      | Inr body \<Rightarrow> Inr (magicAMB2 @ put32 (word_of_nat (length entries)) @ body))"

text \<open>\<open>x := rest[:n]; rest = rest[n:]\<close>.\<close>

definition cut_at :: "int \<Rightarrow> bytes \<Rightarrow> (bytes \<times> bytes) option" where
  "cut_at n bs =
     (if 0 \<le> n \<and> n \<le> int (length bs) then Some (take (nat n) bs, drop (nat n) bs) else None)"

text \<open>The loop of \<open>decodeAMB2\<close>, with the number of entries still to read.\<close>

fun decode_entries :: "nat \<Rightarrow> bytes \<Rightarrow> mailbox_error + entry list" where
  "decode_entries 0 rest = (if length rest \<noteq> 0 then Inl ErrInvalidPayload else Inr [])"
| "decode_entries (Suc k) rest =
     (if length rest < 4 then Inl ErrInvalidPayload
      else case cut_at 4 rest of None \<Rightarrow> Inl MailboxSlicePanic | Some (lenField, rest1) \<Rightarrow>
      let fnLen = uint (get32 lenField)
      in if fnLen < 1 \<or> fnLen > MaxFilenameLen \<or> int (length rest1) < fnLen + 8
         then Inl ErrInvalidPayload
      else case cut_at fnLen rest1 of None \<Rightarrow> Inl MailboxSlicePanic | Some (name, rest2) \<Rightarrow>
      case cut_at 8 rest2 of None \<Rightarrow> Inl MailboxSlicePanic | Some (sizeField, rest3) \<Rightarrow>
      let payloadLen = sint (get64 sizeField)
      in if payloadLen < 0 \<or> int (length rest3) < payloadLen then Inl ErrInvalidPayload
      else case cut_at payloadLen rest3 of None \<Rightarrow> Inl MailboxSlicePanic | Some (content, rest4) \<Rightarrow>
      case decode_entries k rest4 of
        Inl err \<Rightarrow> Inl err
      | Inr es \<Rightarrow> Inr (\<lparr>en_name = string_of name, en_content = content\<rparr> # es))"

definition decode_amb2 :: "bytes \<Rightarrow> mailbox_error + entry list" where
  "decode_amb2 rest =
     (if length rest < 4 then Inl ErrInvalidPayload
      else case cut_at 4 rest of None \<Rightarrow> Inl MailboxSlicePanic | Some (countField, rest1) \<Rightarrow>
      let n = unat (get32 countField)
      in if n = 0 \<or> n > MaxFilesPerSend then Inl ErrInvalidPayload
         else decode_entries n rest1)"

definition decode_legacy_v1 :: "bytes \<Rightarrow> mailbox_error + entry list" where
  "decode_legacy_v1 plaintext =
     (if length plaintext < 4 then Inl ErrInvalidPayload
      else case cut_at 4 plaintext of None \<Rightarrow> Inl MailboxSlicePanic | Some (lenField, rest1) \<Rightarrow>
      let fnLen = uint (get32 lenField)
      in if fnLen \<le> 0 \<or> fnLen > MaxFilenameLen \<or> int (length plaintext) < 4 + fnLen
         then Inl ErrInvalidPayload
         else case cut_at fnLen rest1 of None \<Rightarrow> Inl MailboxSlicePanic
         | Some (name, content) \<Rightarrow> Inr [\<lparr>en_name = string_of name, en_content = content\<rparr>])"

definition decode :: "bytes \<Rightarrow> mailbox_error + entry list" where
  "decode decryptedPlaintext =
     (if length decryptedPlaintext < 4 then Inl ErrInvalidPayload
      else if take 4 decryptedPlaintext = magicAMB2 then decode_amb2 (drop 4 decryptedPlaintext)
      else decode_legacy_v1 decryptedPlaintext)"

section \<open>Numbers of the format\<close>

lemma MaxFilePayload_eq: "MaxFilePayload = 524288000"
  by (simp add: MaxFilePayload_def push_bit_eq_mult)

lemma length_magic [simp]: "length magicAMB2 = 4"
  by (simp add: magicAMB2_def)

lemma uint_len32:
  assumes "int n \<le> MaxFilenameLen"
  shows "uint (word_of_nat n :: 32 word) = int n"
  using assms by (simp add: MaxFilenameLen_def unsigned_of_nat take_bit_nat_eq_self)

lemma sint_len64:
  assumes "int n \<le> MaxFilePayload"
  shows "sint (word_of_nat n :: 64 word) = int n"
proof -
  have "sint (word_of_int (int n) :: 64 word) = int n"
    using assms by (simp only: sint_sbintrunc')
      (simp add: MaxFilePayload_eq signed_take_bit_int_eq_self)
  then show ?thesis by simp
qed

lemma cut_at_append [codec_simps]: "n = int (length xs) \<Longrightarrow> cut_at n (xs @ ys) = Some (xs, ys)"
  by (simp add: cut_at_def)

lemma cut_at_Some: "cut_at n bs = Some (xs, ys) \<Longrightarrow> bs = xs @ ys \<and> int (length xs) = n"
  by (auto simp: cut_at_def split: if_splits)

lemma cut_at_None_iff: "cut_at n bs = None \<longleftrightarrow> n < 0 \<or> int (length bs) < n"
  by (auto simp: cut_at_def)

section \<open>What the encoder accepts\<close>

definition entry_ok :: "entry \<Rightarrow> bool" where
  "entry_ok e \<longleftrightarrow> en_name e \<noteq> [] \<and> int (length (en_name e)) \<le> MaxFilenameLen"

definition content_total :: "entry list \<Rightarrow> int" where
  "content_total es = sum_list (map (\<lambda>e. int (length (en_content e))) es)"

lemma content_total_Cons [simp]:
  "content_total (e # es) = int (length (en_content e)) + content_total es"
  and content_total_Nil [simp]: "content_total [] = 0"
  by (simp_all add: content_total_def)

lemma content_total_nonneg: "0 \<le> content_total es"
  by (induction es) simp_all

fun entries_bytes :: "entry list \<Rightarrow> bytes" where
  "entries_bytes [] = []"
| "entries_bytes (e # es) =
     put32 (word_of_nat (length (en_name e))) @ bytes_of (en_name e) @
     put64 (word_of_nat (length (en_content e))) @ en_content e @ entries_bytes es"

lemma encode_entries_Inr:
  assumes "0 \<le> t" and "t \<le> MaxFilePayload"
  shows "encode_entries t es = Inr bs \<longleftrightarrow>
     (\<forall>e \<in> set es. entry_ok e) \<and> t + content_total es \<le> MaxFilePayload \<and> bs = entries_bytes es"
  using assms
proof (induction es arbitrary: t bs)
  case Nil
  then show ?case by auto
next
  case (Cons e es)
  let ?n = "int (length (en_content e))"
  show ?case
  proof (cases "t + ?n \<le> MaxFilePayload \<and> entry_ok e")
    case True
    have IH: "encode_entries (t + ?n) es = Inr bs' \<longleftrightarrow>
        (\<forall>e \<in> set es. entry_ok e) \<and> (t + ?n) + content_total es \<le> MaxFilePayload \<and>
        bs' = entries_bytes es" for bs'
      using True Cons.prems by (intro Cons.IH) auto
    show ?thesis
      using True Cons.prems IH IH [of "entries_bytes es"]
      by (cases "encode_entries (t + ?n) es") (auto simp: Let_def entry_ok_def add.assoc)
  next
    case False
    then show ?thesis
      using Cons.prems content_total_nonneg [of es]
      by (auto simp: Let_def entry_ok_def split: sum.splits if_splits)
  qed
qed

lemma encode_amb2_Inr [result_iff]:
  "encode_amb2 es = Inr bs \<longleftrightarrow>
     es \<noteq> [] \<and> length es \<le> MaxFilesPerSend \<and> (\<forall>e \<in> set es. entry_ok e) \<and>
     content_total es \<le> MaxFilePayload \<and>
     bs = magicAMB2 @ put32 (word_of_nat (length es)) @ entries_bytes es"
  using encode_entries_Inr [of 0 es] encode_entries_Inr [of 0 es "entries_bytes es"]
  by (cases "encode_entries 0 es") (auto simp: encode_amb2_def MaxFilePayload_eq)

section \<open>What the decoder reads\<close>

lemma decode_entries_bytes:
  assumes "\<forall>e \<in> set es. entry_ok e \<and> int (length (en_content e)) \<le> MaxFilePayload"
  shows "decode_entries (length es) (entries_bytes es) = Inr es"
  using assms
proof (induction es)
  case Nil
  then show ?case by simp
next
  case (Cons e es)
  let ?n = "length (en_name e)" and ?m = "length (en_content e)"
  from Cons.prems have n: "uint (word_of_nat ?n :: 32 word) = int ?n"
      and m: "sint (word_of_nat ?m :: 64 word) = int ?m"
    by (auto simp: entry_ok_def uint_len32 sint_len64)
  have c4: "cut_at 4 (put32 w @ r) = Some (put32 w, r)" for w r
    by (simp add: cut_at_append)
  have c8: "cut_at 8 (put64 w @ r) = Some (put64 w, r)" for w r
    by (simp add: cut_at_append)
  from Cons have "decode_entries (length es) (entries_bytes es) = Inr es"
    by simp
  with Cons.prems show ?case
    by (simp add: Let_def c4 c8 codec_simps n m entry_ok_def)
qed

lemma word_of_length32: "int n = uint (w :: 32 word) \<Longrightarrow> word_of_nat n = w"
  by (metis of_int_of_nat_eq word_of_int_uint)

lemma word_of_length64: "int n = sint (w :: 64 word) \<Longrightarrow> word_of_nat n = w"
  by (metis of_int_of_nat_eq scast_eq scast_id)

lemma decode_entries_InrD:
  "decode_entries k rest = Inr es \<Longrightarrow>
     rest = entries_bytes es \<and> length es = k \<and> (\<forall>e \<in> set es. entry_ok e)"
proof (induction k arbitrary: rest es)
  case 0
  then show ?case by (auto split: if_splits)
next
  case (Suc k)
  from Suc.prems obtain f1 r1 nm r2 f2 r3 c r4 es' where
      c1: "cut_at 4 rest = Some (f1, r1)"
    and c2: "cut_at (uint (get32 f1)) r1 = Some (nm, r2)"
    and c3: "cut_at 8 r2 = Some (f2, r3)"
    and c4: "cut_at (sint (get64 f2)) r3 = Some (c, r4)"
    and b: "1 \<le> uint (get32 f1)" "uint (get32 f1) \<le> MaxFilenameLen"
    and d: "decode_entries k r4 = Inr es'"
    and es: "es = \<lparr>en_name = string_of nm, en_content = c\<rparr> # es'"
    by (auto simp: Let_def split: if_splits option.splits sum.splits)
  from Suc.IH [OF d] have IH: "r4 = entries_bytes es'" "length es' = k" "\<forall>e \<in> set es'. entry_ok e"
    by auto
  from c1 c2 c3 c4 have parts: "rest = f1 @ nm @ f2 @ c @ r4" "length f1 = 4" "length f2 = 8"
      "int (length nm) = uint (get32 f1)" "int (length c) = sint (get64 f2)"
    by (auto dest!: cut_at_Some)
  have "put32 (word_of_nat (length nm)) = f1"
    using parts by (simp add: word_of_length32 put32_get32)
  moreover have "put64 (word_of_nat (length c)) = f2"
    using parts by (simp add: word_of_length64 put64_get64)
  moreover have "entry_ok \<lparr>en_name = string_of nm, en_content = c\<rparr>"
    using b parts(4) by (auto simp: entry_ok_def)
  ultimately show ?case
    using IH parts(1) by (simp add: es)
qed

lemma decode_entries_no_panic: "decode_entries k rest \<noteq> Inl MailboxSlicePanic"
proof (induction k arbitrary: rest)
  case 0
  then show ?case by simp
next
  case (Suc k)
  then show ?case
    by (auto simp: Let_def cut_at_None_iff split: if_splits option.splits sum.splits
        dest!: cut_at_Some)
qed

lemma count_field:
  assumes "length es \<le> MaxFilesPerSend"
  shows "unat (word_of_nat (length es) :: 32 word) = length es"
  using assms by (simp add: MaxFilesPerSend_def unsigned_of_nat take_bit_nat_eq_self)

lemma content_le_total: "e \<in> set es \<Longrightarrow> int (length (en_content e)) \<le> content_total es"
proof (induction es)
  case (Cons a es)
  then show ?case using content_total_nonneg [of es] by auto
qed simp

lemma decode_encoded:
  assumes "encode_amb2 es = Inr bs"
  shows "decode bs = Inr es"
proof -
  from assms have es: "es \<noteq> []" "length es \<le> MaxFilesPerSend" "\<forall>e \<in> set es. entry_ok e"
      "content_total es \<le> MaxFilePayload"
    and bs: "bs = magicAMB2 @ put32 (word_of_nat (length es)) @ entries_bytes es"
    by (auto simp: result_iff)
  have "decode_entries (length es) (entries_bytes es) = Inr es"
    using es content_le_total [of _ es] by (intro decode_entries_bytes) fastforce
  moreover have "cut_at 4 (put32 (word_of_nat (length es)) @ entries_bytes es) =
      Some (put32 (word_of_nat (length es)), entries_bytes es)"
    by (simp add: cut_at_append)
  ultimately show ?thesis
    using es by (simp add: bs decode_def decode_amb2_def Let_def codec_simps count_field)
qed

section \<open>Properties\<close>

text \<open>
  C12: Every bundle \<open>EncodeAMB2\<close> produces is read back by \<open>Decode\<close> as exactly the entries
  that went in: names, contents and order.
\<close>

theorem amb2_roundtrip:
  assumes "encode_amb2 es = Inr bs"
  shows "decode bs = Inr es"
  by (rule decode_encoded [OF assms])

theorem amb2_roundtrip_witness:
  "decode (magicAMB2 @ put32 1 @ put32 1 @ bytes_of ''a'' @ put64 2 @ [7, 8]) =
     Inr [\<lparr>en_name = ''a'', en_content = [7, 8]\<rparr>]"
proof -
  have "encode_amb2 [\<lparr>en_name = ''a'', en_content = [7, 8]\<rparr>] =
      Inr (magicAMB2 @ put32 1 @ put32 1 @ bytes_of ''a'' @ put64 2 @ [7, 8])"
    by (simp add: encode_amb2_def MaxFilesPerSend_def MaxFilePayload_eq MaxFilenameLen_def
        Let_def)
  then show ?thesis by (rule amb2_roundtrip)
qed

text \<open>
  AMB2 is canonical.  Whatever \<open>Decode\<close> accepts under the magic is, when its contents
  fit the size cap, byte for byte what \<open>EncodeAMB2\<close> produces for the decoded entries; no
  two blobs stand for the same bundle.
\<close>

lemma amb2_canonical:
  assumes "decode bs = Inr es" and "take 4 bs = magicAMB2" and "content_total es \<le> MaxFilePayload"
  shows "encode_amb2 es = Inr bs"
proof -
  have len: "4 \<le> length bs"
    using assms(1) by (auto simp: decode_def split: if_splits)
  with assms(1,2) have d: "decode_amb2 (drop 4 bs) = Inr es"
    by (simp add: decode_def)
  then obtain f r where c: "cut_at 4 (drop 4 bs) = Some (f, r)"
    and n: "unat (get32 f) \<noteq> 0" "unat (get32 f) \<le> MaxFilesPerSend"
    and e: "decode_entries (unat (get32 f)) r = Inr es"
    by (auto simp: decode_amb2_def Let_def split: if_splits option.splits)
  from decode_entries_InrD [OF e] have r: "r = entries_bytes es" "length es = unat (get32 f)"
      "\<forall>e \<in> set es. entry_ok e"
    by auto
  from c have f: "drop 4 bs = f @ r" "length f = 4"
    by (auto dest!: cut_at_Some)
  then have "put32 (word_of_nat (length es)) = f"
    using r(2) by (simp add: put32_get32)
  then have "bs = magicAMB2 @ put32 (word_of_nat (length es)) @ entries_bytes es"
    using f(1) r(1) assms(2) append_take_drop_id [of 4 bs] by simp
  moreover have "es \<noteq> []"
    using r(2) n(1) by auto
  ultimately show ?thesis
    using r n assms(3) by (simp add: result_iff)
qed

lemma amb2_canonical_witness:
  "encode_amb2 [\<lparr>en_name = ''a'', en_content = [7]\<rparr>] =
     Inr (magicAMB2 @ put32 1 @ put32 1 @ bytes_of ''a'' @ put64 1 @ [7])"
proof (rule amb2_canonical)
  let ?bs = "magicAMB2 @ put32 1 @ put32 1 @ bytes_of ''a'' @ put64 1 @ [7]"
  show "take 4 ?bs = magicAMB2" by simp
  show "content_total [\<lparr>en_name = ''a'', en_content = [7]\<rparr>] \<le> MaxFilePayload"
    by (simp add: MaxFilePayload_eq)
  have "decode_entries (length [\<lparr>en_name = ''a'', en_content = [7]\<rparr>])
      (entries_bytes [\<lparr>en_name = ''a'', en_content = [7]\<rparr>]) =
      Inr [\<lparr>en_name = ''a'', en_content = [7]\<rparr>]"
    by (rule decode_entries_bytes) (simp add: entry_ok_def MaxFilenameLen_def MaxFilePayload_eq)
  then show "decode ?bs = Inr [\<lparr>en_name = ''a'', en_content = [7]\<rparr>]"
    by (simp add: decode_def decode_amb2_def cut_at_append codec_simps MaxFilesPerSend_def)
qed

lemma decode_v1_bytes:
  assumes "name \<noteq> []" and "int (length name) \<le> MaxFilenameLen"
  shows "decode (put32 (word_of_nat (length name)) @ bytes_of name @ content) =
     Inr [\<lparr>en_name = name, en_content = content\<rparr>]"
proof -
  let ?l = "put32 (word_of_nat (length name))"
  have "?l \<noteq> magicAMB2"
  proof
    assume "?l = magicAMB2"
    then have "uint (get32 ?l) = uint (get32 magicAMB2)" by simp
    also have "\<dots> = 0x414D4232"
      by (simp add: magicAMB2_def bytes_of_def get32_def)
    finally show False
      using uint_len32 [OF assms(2)] assms(2) by (simp add: get32_put32 MaxFilenameLen_def)
  qed
  then show ?thesis
    using assms uint_len32 [OF assms(2)] length_greater_0_conv [of name]
    by (simp add: decode_def decode_legacy_v1_def Let_def cut_at_append codec_simps)
qed

text \<open>
  A legacy blob is never mistaken for a bundle: what \<open>EncodeV1\<close> produces is read back
  by \<open>Decode\<close> as the one file, since no accepted name length spells the AMB2 magic.
\<close>

lemma v1_roundtrip:
  assumes "encode_v1 name content = Inr bs"
  shows "decode bs = Inr [\<lparr>en_name = name, en_content = content\<rparr>]"
proof -
  from assms have "name \<noteq> []" "int (length name) \<le> MaxFilenameLen"
    and bs: "bs = put32 (word_of_nat (length name)) @ bytes_of name @ content"
    by (auto simp: encode_v1_def Let_def split: if_splits)
  then show ?thesis unfolding bs by (intro decode_v1_bytes)
qed

lemma v1_roundtrip_witness:
  "decode (put32 1 @ bytes_of ''f'' @ [1, 2, 3]) =
     Inr [\<lparr>en_name = ''f'', en_content = [1, 2, 3]\<rparr>]"
proof (rule v1_roundtrip)
  show "encode_v1 ''f'' [1, 2, 3] = Inr (put32 1 @ bytes_of ''f'' @ [1, 2, 3])"
    by (simp add: encode_v1_def MaxFilePayload_eq MaxFilenameLen_def)
qed

text \<open>
  C16: No decrypted blob, however malformed, makes \<open>Decode\<close> panic on a slice; and what it
  accepts has between 1 and 256 entries, each with a name of 1 to 4095 bytes.
\<close>

theorem decode_total:
  "decode bs \<noteq> Inl MailboxSlicePanic \<and>
   (case decode bs of
      Inl _ \<Rightarrow> True
    | Inr es \<Rightarrow> es \<noteq> [] \<and> length es \<le> MaxFilesPerSend \<and> list_all entry_ok es)"
proof -
  have "decode_legacy_v1 bs \<noteq> Inl MailboxSlicePanic"
    by (auto simp: decode_legacy_v1_def Let_def cut_at_None_iff
        split: option.splits if_splits dest!: cut_at_Some)
  moreover have "decode_amb2 r \<noteq> Inl MailboxSlicePanic" for r
    using decode_entries_no_panic
    by (auto simp: decode_amb2_def Let_def cut_at_None_iff split: option.splits if_splits)
  ultimately have "decode bs \<noteq> Inl MailboxSlicePanic"
    by (simp add: decode_def)
  moreover have "es \<noteq> [] \<and> length es \<le> MaxFilesPerSend \<and> list_all entry_ok es"
    if "decode bs = Inr es" for es
  proof (cases "take 4 bs = magicAMB2")
    case True
    with that have "decode_amb2 (drop 4 bs) = Inr es"
      by (auto simp: decode_def split: if_splits)
    then show ?thesis
      by (auto simp: decode_amb2_def Let_def list_all_iff split: if_splits option.splits
          dest!: decode_entries_InrD)
  next
    case False
    with that have "decode_legacy_v1 bs = Inr es"
      by (auto simp: decode_def split: if_splits)
    then show ?thesis
      by (auto simp: decode_legacy_v1_def Let_def entry_ok_def MaxFilesPerSend_def
          split: if_splits option.splits dest!: cut_at_Some)
  qed
  ultimately show ?thesis
    by (auto split: sum.splits)
qed

end
