(* ===== verification/Wordlist.thy ===== *)
theory Wordlist
  imports GoStrings
begin

text \<open>The word list of \<open>internal/passphrase/words.go\<close>, and what the passphrases need of it.\<close>

definition wordlist :: "string list" where
  "wordlist =
    [
     ''ACID'', ''ACORN'', ''ACRE'', ''ACTS'', ''AFAR'', ''AGED'', ''AGENT'', ''AGILE'',
     ''AGING'', ''AGONY'', ''AHEAD'', ''AJAR'', ''ALARM'', ''ALBUM'', ''ALERT'', ''ALIAS'',
     ''ALIEN'', ''ALIGN'', ''ALIKE'', ''ALIVE'', ''ALLEY'', ''ALLOT'', ''ALLOW'', ''ALMOND'',
     ''ALPHA'', ''ALTAR'', ''AMBER'', ''AMEND'', ''AMPLE'', ''AMUSE'', ''ANCHOR'', ''ANGEL'',
     ''ANGER'', ''ANGLE'', ''ANGRY'', ''ANKLE'', ''ANNEX'', ''ANVIL'', ''APART'', ''APEX'',
     ''APPLE'', ''APRIL'', ''APRON'', ''ARENA'', ''ARGUE'', ''ARISE'', ''ARMOR'', ''ARMY'',
     ''AROMA'', ''ARROW'', ''ARSON'', ''ASSET'', ''ATLAS'', ''ATOM'', ''ATTIC'', ''AUDIO'',
     ''AUDIT'', ''AVID'', ''AVOID'', ''AWAKE'', ''AWARD'', ''AZURE'', ''BADGE'', ''BAGEL'',
     ''BAKER'', ''BALM'', ''BAMBOO'', ''BANJO'', ''BANK'', ''BARN'', ''BARON'', ''BASE'',
     ''BASIC'', ''BASIN'', ''BATCH'', ''BEACH'', ''BEAST'', ''BEGIN'', ''BEING'', ''BELOW'',
     ''BENCH'', ''BERRY'', ''BIRTH'', ''BLACK'', ''BLADE'', ''BLAME'', ''BLAND'', ''BLANK'',
     ''BLAST'', ''BLAZE'', ''BLEAK'', ''BLEND'', ''BLESS'', ''BLIND'', ''BLINK'', ''BLISS'',
     ''BLOCK'', ''BLOOM'', ''BLOWN'', ''BLUFF'', ''BLUNT'', ''BLURT'', ''BLUSH'', ''BOARD'',
     ''BOAST'', ''BOLD'', ''BOLT'', ''BONUS'', ''BOOTH'', ''BOUND'', ''BRAIN'', ''BRAND'',
     ''BRAVE'', ''BREAD'', ''BREAK'', ''BRICK'', ''BRIDE'', ''BRIEF'', ''BRISK'', ''BROAD'',
     ''BROOK'', ''BRUSH'', ''BUDDY'', ''BUILD'', ''BULK'', ''BUNCH'', ''BURST'', ''BUYER'',
     ''CABIN'', ''CABLE'', ''CAMEL'', ''CANDY'', ''CARGO'', ''CAROL'', ''CARRY'', ''CATCH'',
     ''CAUSE'', ''CEDAR'', ''CHAIN'', ''CHAIR'', ''CHALK'', ''CHAMP'', ''CHARM'', ''CHART'',
     ''CHASE'', ''CHEAP'', ''CHECK'', ''CHESS'', ''CHEST'', ''CHIEF'', ''CHILD'', ''CHILL'',
     ''CHINA'', ''CHIP'', ''CHUNK'', ''CIVIC'', ''CIVIL'', ''CLAIM'', ''CLAMP'', ''CLASH'',
     ''CLASP'', ''CLASS'', ''CLEAN'', ''CLEAR'', ''CLERK'', ''CLIFF'', ''CLIMB'', ''CLING'',
     ''CLIP'', ''CLOAK'', ''CLOCK'', ''CLONE'', ''CLOSE'', ''CLOTH'', ''CLOUD'', ''CLOWN'',
     ''CLUB'', ''CLUMP'', ''COACH'', ''COAST'', ''COBRA'', ''COIN'', ''COMET'', ''COMIC'',
     ''COMMA'', ''CONCH'', ''COOK'', ''COPSE'', ''CORAL'', ''CORD'', ''CORE'', ''CORPS'',
     ''COUCH'', ''COUNT'', ''COURT'', ''COVER'', ''CRAFT'', ''CRANE'', ''CRASH'', ''CRAWL'',
     ''CRAZY'', ''CREAM'', ''CREST'', ''CRISP'', ''CROSS'', ''CROWD'', ''CROWN'', ''CRUDE'',
     ''CRUSH'', ''CUBIC'', ''CURVE'', ''CYCLE'', ''DAILY'', ''DANCE'', ''DARE'', ''DAWN'',
     ''DEALT'', ''DEATH'', ''DECAY'', ''DECOY'', ''DEEP'', ''DELAY'', ''DELTA'', ''DEMON'',
     ''DENSE'', ''DENY'', ''DEPTH'', ''DERBY'', ''DESK'', ''DETER'', ''DIARY'', ''DIGIT'',
     ''DINER'', ''DITCH'', ''DIZZY'', ''DOCK'', ''DODGE'', ''DONOR'', ''DOUBT'', ''DOUGH'',
     ''DRAFT'', ''DRAIN'', ''DRAKE'', ''DRAMA'', ''DRANK'', ''DRAPE'', ''DRAWN'', ''DREAM'',
     ''DRESS'', ''DRIED'', ''DRIFT'', ''DRILL'', ''DRINK'', ''DRIVE'', ''DROIT'', ''DRONE'',
     ''DROP'', ''DRUMS'', ''DRUNK'', ''DRYER'', ''DRYLY'', ''DUNE'', ''DUSK'', ''DWARF'',
     ''DWELL'', ''DYING'', ''EAGER'', ''EAGLE'', ''EARTH'', ''EASEL'', ''EATEN'', ''EAVES'',
     ''EBONY'', ''ECHO'', ''EDGE'', ''EDICT'', ''EIGHT'', ''ELBOW'', ''ELDER'', ''ELECT'',
     ''ELITE'', ''EMBER'', ''EMPTY'', ''ENACT'', ''ENDED'', ''ENEMY'', ''ENJOY'', ''ENTER'',
     ''ENTRY'', ''ENVOY'', ''EQUAL'', ''EQUIP'', ''ERASE'', ''ERROR'', ''ERUPT'', ''ESSAY'',
     ''EVENT'', ''EVERY'', ''EVICT'', ''EXACT'', ''EXILE'', ''EXIST'', ''EXPEL'', ''EXTRA'',
     ''FABLE'', ''FACED'', ''FACET'', ''FAITH'', ''FALSE'', ''FANCY'', ''FATAL'', ''FAULT'',
     ''FEAST'', ''FENCE'', ''FERRY'', ''FETCH'', ''FEVER'', ''FIBER'', ''FIELD'', ''FIFTH'',
     ''FIFTY'', ''FIGHT'', ''FINAL'', ''FINCH'', ''FIRST'', ''FIXED'', ''FIZZY'', ''FJORD'',
     ''FLAME'', ''FLANK'', ''FLARE'', ''FLASH'', ''FLASK'', ''FLEET'', ''FLESH'', ''FLICK'',
     ''FLING'', ''FLINT'', ''FLOAT'', ''FLOCK'', ''FLOOD'', ''FLOOR'', ''FLORA'', ''FLOUR'',
     ''FLUID'', ''FLUKE'', ''FLUNG'', ''FLUSH'', ''FLUTE'', ''FOCAL'', ''FOCUS'', ''FOGGY'',
     ''FOLIO'', ''FORCE'', ''FORGE'', ''FORGO'', ''FORTH'', ''FORUM'', ''FOSSIL'', ''FOUND'',
     ''FRAME'', ''FRANK'', ''FRAUD'', ''FRESH'', ''FRONT'', ''FROST'', ''FRUIT'', ''FULLY'',
     ''FUNGI'', ''FURRY'', ''FUSED'', ''GAMMA'', ''GAUGE'', ''GAVEL'', ''GAZE'', ''GEAR'',
     ''GHOST'', ''GIANT'', ''GIVEN'', ''GLAD'', ''GLAND'', ''GLARE'', ''GLASS'', ''GLEAM'',
     ''GLIDE'', ''GLOBE'', ''GLOOM'', ''GLORY'', ''GLOSS'', ''GLOVE'', ''GLYPH'', ''GOING'',
     ''GOODS'', ''GOOSE'', ''GORGE'', ''GRACE'', ''GRADE'', ''GRAIN'', ''GRAND'', ''GRANT'',
     ''GRAPE'', ''GRAPH'', ''GRASP'', ''GRASS'', ''GRAVE'', ''GREAT'', ''GREEN'', ''GRIEF'',
     ''GRILL'', ''GRIND'', ''GRIP'', ''GRIT'', ''GROAN'', ''GROOM'', ''GROSS'', ''GROUP'',
     ''GROVE'', ''GROWL'', ''GROWN'', ''GUARD'', ''GUESS'', ''GUIDE'', ''GUILD'', ''GUILT'',
     ''GUISE'', ''GULCH'', ''GULLY'', ''GUST'', ''HABIT'', ''HALF'', ''HALT'', ''HAPPY'',
     ''HARDY'', ''HARSH'', ''HASTE'', ''HAVEN'', ''HAZEL'', ''HEART'', ''HEAVY'', ''HEDGE'',
     ''HEFTY'', ''HELLO'', ''HERBS'', ''HERON'', ''HILLY'', ''HINGE'', ''HIPPO'', ''HOBBY'',
     ''HOIST'', ''HOLLY'', ''HONOR'', ''HORSE'', ''HOTEL'', ''HOUSE'', ''HUMAN'', ''HUMID'',
     ''HUMOR'', ''HUSKY'', ''HYENA'', ''HYMNS'', ''ICILY'', ''ICING'', ''IDEAL'', ''IMAGE'',
     ''IMPLY'', ''INBOX'', ''INDEX'', ''INDIE'', ''INNER'', ''INPUT'', ''INTRO'', ''IONIC'',
     ''IVORY'', ''JABOT'', ''JEWEL'', ''JOKER'', ''JOLLY'', ''JUDGE'', ''JUICE'', ''JUMBO'',
     ''JUROR'', ''KAYAK'', ''KEBAB'', ''KEYED'', ''KHAKI'', ''KINKY'', ''KIOSK'', ''KNACK'',
     ''KNEEL'', ''KNIFE'', ''KNOBS'', ''KNOCK'', ''KNOLL'', ''KNOWN'', ''KUDOS'', ''LABEL'',
     ''LABOR'', ''LACED'', ''LADEN'', ''LANCE'', ''LARGE'', ''LASER'', ''LATCH'', ''LATER'',
     ''LAUGH'', ''LAYER'', ''LEADS'', ''LEARN'', ''LEASE'', ''LEDGE'', ''LEGAL'', ''LEMON'',
     ''LEVEL'', ''LEVER'', ''LIGHT'', ''LILAC'', ''LINEN'', ''LINER'', ''LIONS'', ''LIVER'',
     ''LLAMA'', ''LOCAL'', ''LODGE'', ''LOFTY'', ''LOGIC'', ''LOVER'', ''LOWLY'', ''LOYAL'',
     ''LUCKY'', ''LUNAR'', ''LUNCH'', ''LUNGE'', ''LUSTY'', ''LYRIC'', ''MACAW'', ''MAGIC'',
     ''MAJOR'', ''MAKER'', ''MANOR'', ''MAPLE'', ''MARCH'', ''MARSH'', ''MASON'', ''MATCH'',
     ''MAYOR'', ''MEALY'', ''MEDAL'', ''MEDIA'', ''MERCY'', ''MERGE'', ''MERIT'', ''MERRY'',
     ''METAL'', ''METER'', ''MIGHT'', ''MINOR'', ''MINUS'', ''MIRTH'', ''MOCHA'', ''MODEL'',
     ''MOIST'', ''MOLAR'', ''MONEY'', ''MONTH'', ''MOOSE'', ''MORAL'', ''MOSSY'', ''MOTOR'',
     ''MOUNT'', ''MOURN'', ''MOUTH'', ''MOVED'', ''MOVER'', ''MOVIE'', ''MUDDY'', ''MURAL'',
     ''MUSIC'', ''NAIVE'', ''NAMED'', ''NAVAL'', ''NERVE'', ''NEVER'', ''NEWLY'', ''NEXUS'',
     ''NOBLE'', ''NOISE'', ''NORTH'', ''NOTCH'', ''NOTED'', ''NOVEL'', ''NURSE'', ''OASIS'',
     ''OCEAN'', ''OLIVE'', ''ONSET'', ''OPERA'', ''OPTED'', ''ORBIT'', ''ORDER'', ''ORGAN'',
     ''OTHER'', ''OUTER'', ''OXIDE'', ''OZONE'', ''PACED'', ''PAGAN'', ''PAINT'', ''PANEL'',
     ''PANIC'', ''PAPER'', ''PARSE'', ''PARTY'', ''PATCH'', ''PATIO'', ''PAUSE'', ''PEACH'',
     ''PEARL'', ''PECAN'', ''PEDAL'', ''PENNY'', ''PERCH'', ''PERIL'', ''PETTY'', ''PHASE'',
     ''PHONE'', ''PHOTO'', ''PIANO'', ''PIECE'', ''PILOT'', ''PINCH'', ''PINE'', ''PIXEL'',
     ''PIZZA'', ''PLACE'', ''PLAID'', ''PLAIN'', ''PLANE'', ''PLANK'', ''PLANT'', ''PLATE'',
     ''PLAZA'', ''PLEAD'', ''PLUCK'', ''PLUMB'', ''PLUME'', ''PLUMP'', ''PLUNGE'', ''POINT'',
     ''POLAR'', ''POLIO'', ''POUND'', ''POWER'', ''PRESS'', ''PRICE'', ''PRIDE'', ''PRIME'',
     ''PRINT'', ''PRIOR'', ''PRISM'', ''PRIZE'', ''PROBE'', ''PRONE'', ''PROOF'', ''PROSE'',
     ''PROUD'', ''PROVE'', ''PROXY'', ''PRUNE'', ''PSALM'', ''PULSE'', ''PUNCH'', ''PUPIL'',
     ''PURSE'', ''QUAIL'', ''QUALM'', ''QUART'', ''QUEEN'', ''QUERY'', ''QUEST'', ''QUEUE'',
     ''QUICK'', ''QUIET'', ''QUILT'', ''QUIRK'', ''QUOTA'', ''QUOTE'', ''RADAR'', ''RADIO'',
     ''RAISE'', ''RALLY'', ''RAMP'', ''RANCH'', ''RANGE'', ''RAPID'', ''RATIO'', ''RAVEN'',
     ''REACH'', ''REALM'', ''REBEL'', ''REIGN'', ''RELAX'', ''RELAY'', ''RENAL'', ''REPAY'',
     ''REPLY'', ''RETRY'', ''RIDER'', ''RIDGE'', ''RIFLE'', ''RIGID'', ''RIGOR'', ''RINSE'',
     ''RISEN'', ''RISKY'', ''RIVAL'', ''RIVER'', ''ROAST'', ''ROBIN'', ''ROCKY'', ''ROGUE'',
     ''ROMAN'', ''ROOST'', ''ROUND'', ''ROUTE'', ''ROYAL'', ''RUGBY'', ''RUIN'', ''RULER'',
     ''RUMOR'', ''RURAL'', ''RUSTY'', ''SADLY'', ''SAINT'', ''SALAD'', ''SALON'', ''SANDY'',
     ''SATIN'', ''SAUCE'', ''SAUNA'', ''SAVED'', ''SCALE'', ''SCENE'', ''SCENT'', ''SCOPE'',
     ''SCORE'', ''SCOUT'', ''SCRAP'', ''SEIZE'', ''SENSE'', ''SERVE'', ''SETUP'', ''SEVEN'',
     ''SHADE'', ''SHALL'', ''SHAME'', ''SHAPE'', ''SHARK'', ''SHARP'', ''SHAWL'', ''SHEEP'',
     ''SHEER'', ''SHELF'', ''SHELL'', ''SHIFT'', ''SHINE'', ''SHIRT'', ''SHOCK'', ''SHORE'',
     ''SHORT'', ''SHOUT'', ''SHOWN'', ''SHRUB'', ''SIEGE'', ''SIGHT'', ''SIGMA'', ''SILK'',
     ''SILLY'', ''SINCE'', ''SIXTH'', ''SIXTY'', ''SIZED'', ''SKATE'', ''SKILL'', ''SKULL'',
     ''SLASH'', ''SLATE'', ''SLEEP'', ''SLEPT'', ''SLICE'', ''SLIDE'', ''SLOPE'', ''SMART'',
     ''SMELL'', ''SMILE'', ''SMITH'', ''SMOKE'', ''SNAKE'', ''SOLAR'', ''SOLID'', ''SOLVE'',
     ''SONIC'', ''SORRY'', ''SOUND'', ''SOUTH'', ''SPACE'', ''SPARE'', ''SPARK'', ''SPEAK'',
     ''SPEED'', ''SPEND'', ''SPENT'', ''SPICE'', ''SPILL'', ''SPINE'', ''SPOKE'', ''SPOON'',
     ''SPORT'', ''SPRAY'', ''SQUAD'', ''STACK'', ''STAFF'', ''STAGE'', ''STAIN'', ''STAIR'',
     ''STAKE'', ''STALE'', ''STALL'', ''STAMP'', ''STAND'', ''STARK'', ''STATE'', ''STAYS'',
     ''STEAK'', ''STEAL'', ''STEAM'', ''STEEL'', ''STEEP'', ''STEER'', ''STEMS'', ''STERN'',
     ''STICK'', ''STIFF'', ''STILL'', ''STING'', ''STOCK'', ''STOLE'', ''STONE'', ''STOOD'',
     ''STOOL'', ''STORM'', ''STORY'', ''STOUT'', ''STOVE'', ''STRIP'', ''STUCK'', ''STUDY'',
     ''STUFF'', ''STUMP'', ''STYLE'', ''SUGAR'', ''SUITE'', ''SUNNY'', ''SUPER'', ''SURGE'',
     ''SWAMP'', ''SWARM'', ''SWEAR'', ''SWEEP'', ''SWEET'', ''SWEPT'', ''SWIFT'', ''SWING'',
     ''SWORD'', ''SYRUP'', ''TABLE'', ''TAKEN'', ''TALLY'', ''TALON'', ''TANGO'', ''TASTE'',
     ''TEACH'', ''TEMPO'', ''TENSE'', ''TENTH'', ''THEME'', ''THICK'', ''THING'', ''THINK'',
     ''THIRD'', ''THORN'', ''THREE'', ''THREW'', ''THROW'', ''THUMB'', ''TIDAL'', ''TIGER'',
     ''TIGHT'', ''TILTS'', ''TIMER'', ''TOAST'', ''TOKEN'', ''TOOTH'', ''TOPIC'', ''TORCH'',
     ''TOTAL'', ''TOUCH'', ''TOUGH'', ''TOWEL'', ''TOWER'', ''TOXIC'', ''TRACE'', ''TRACK'',
     ''TRADE'', ''TRAIL'', ''TRAIN'', ''TRAIT'', ''TRASH'', ''TREAD'', ''TREAT'', ''TREND'',
     ''TRIAL'', ''TRIBE'', ''TRICK'', ''TRIED'', ''TROOP'', ''TRUCK'', ''TRULY'', ''TRUMP'',
     ''TRUNK'', ''TRUST'', ''TRUTH'', ''TULIP'', ''TUMOR'', ''TUNES'', ''TURBO'', ''TURF'',
     ''TWIST'', ''TYPED'', ''ULTRA'', ''UNCLE'', ''UNDER'', ''UNION'', ''UNITE'', ''UNITY'',
     ''UNTIL'', ''UPPER'', ''UPSET'', ''URBAN'', ''USAGE'', ''USUAL'', ''UTTER'', ''VALID'',
     ''VALOR'', ''VALUE'', ''VALVE'', ''VAULT'', ''VENUE'', ''VERSE'', ''VIDEO'', ''VIGOR'',
     ''VILLA'', ''VINYL'', ''VIOLA'', ''VIPER'', ''VIRUS'', ''VISIT'', ''VISOR'', ''VISTA'',
     ''VITAL'', ''VIVID'', ''VOCAL'', ''VODKA'', ''VOICE'', ''VOTER'', ''VOWEL'', ''WAGON'',
     ''WAIST'', ''WASTE'', ''WATCH'', ''WATER'', ''WAVES'', ''WEARY'', ''WEDGE'', ''WEIRD'',
     ''WELLS'', ''WHALE'', ''WHEAT'', ''WHEEL'', ''WHERE'', ''WHILE'', ''WHIRL'', ''WHITE'',
     ''WHOLE'', ''WIDEN'', ''WIDTH'', ''WINDY'', ''WITCH'', ''WOMAN'', ''WORDS'', ''WORLD'',
     ''WORRY'', ''WORSE'', ''WORST'', ''WORTH'', ''WOULD'', ''WOUND'', ''WRATH'', ''WRIST'',
     ''YACHT'', ''YIELD'', ''YOUNG'', ''YOUTH'', ''ZEBRA'', ''ZIPPY'', ''ZONES'', ''ACRID'',
     ''BALMY'', ''BISON'', ''CADET'', ''DWELT'', ''FERAL'', ''FEMUR'', ''GECKO'', ''HELIX'']"

definition upper_word :: "string \<Rightarrow> bool" where
  "upper_word w = (w \<noteq> [] \<and> list_all (\<lambda>c. 65 \<le> (of_char c :: nat) \<and> of_char c \<le> (90 :: nat)) w)"

lemma length_wordlist: "length wordlist = 1024"
  by (simp add: wordlist_def)

lemma wordlist_upper: "list_all upper_word wordlist"
  by (simp add: wordlist_def upper_word_def)

text \<open>All words differ: three strictly increasing runs, of which the last two are short.\<close>

fun word_less :: "string \<Rightarrow> string \<Rightarrow> bool" where
  "word_less [] [] = False"
| "word_less [] (b # bs) = True"
| "word_less (a # as) [] = False"
| "word_less (a # as) (b # bs) = (if a = b then word_less as bs else (of_char a :: nat) < of_char b)"

fun increasing :: "string list \<Rightarrow> bool" where
  "increasing (a # b # ws) = (word_less a b \<and> increasing (b # ws))"
| "increasing _ = True"

lemma first_run: "increasing (take 1015 wordlist)"
  by (simp add: wordlist_def)

lemma word_less_trans: "word_less a b \<Longrightarrow> word_less b c \<Longrightarrow> word_less a c"
proof (induction a b arbitrary: c rule: word_less.induct)
  case (4 a as b bs)
  then show ?case by (cases c) (auto split: if_splits)
qed (case_tac c; auto)+

lemma word_less_irrefl: "\<not> word_less w w"
  by (induction w) auto

lemma increasing_less: "increasing (a # ws) \<Longrightarrow> b \<in> set ws \<Longrightarrow> word_less a b"
  by (induction ws arbitrary: a) (auto intro: word_less_trans)

lemma increasing_distinct: "increasing ws \<Longrightarrow> distinct ws"
proof (induction ws)
  case (Cons a ws)
  moreover from Cons have "increasing ws" by (cases ws) auto
  ultimately show ?case using increasing_less word_less_irrefl by auto
qed simp

lemma last_runs: "distinct (drop 1015 wordlist)"
  by (simp add: wordlist_def)

lemma runs_disjoint: "list_all (\<lambda>w. w \<notin> set (take 1015 wordlist)) (drop 1015 wordlist)"
  by (simp add: wordlist_def)

lemma distinct_wordlist: "distinct wordlist"
proof -
  have "distinct (take 1015 wordlist @ drop 1015 wordlist)"
    unfolding distinct_append
    using increasing_distinct [OF first_run] last_runs runs_disjoint by (auto simp: list_all_iff)
  then show ?thesis by (simp only: append_take_drop_id)
qed

end
