(* ===== verification/Passphrase.thy ===== *)
theory Passphrase
  imports Wordlist Sha256 Crypto
begin

text \<open>
  \<open>internal/passphrase\<close>: generating a passphrase, its normal form, and the room token, the
  receive token and the key derived from it with the concrete SHA-256 of the theory
  \<open>Sha256\<close>.  The results of the five calls of \<open>rand.Int\<close> are arguments (\<open>None\<close> is an error
  of the random source, on which \<open>Generate\<close> panics); upper case outside ASCII is too.
\<close>

section \<open>Definitions\<close>

fun pick_words :: "nat option list \<Rightarrow> string list option" where
  "pick_words [] = Some []"
| "pick_words (None # rs) = None"
| "pick_words (Some n # rs) =
     (case pick_words rs of None \<Rightarrow> None | Some ws \<Rightarrow> Some (wordlist ! n # ws))"

definition generate :: "nat option list \<Rightarrow> nat option \<Rightarrow> string option" where
  "generate rs r =
     (case pick_words rs of
        None \<Rightarrow> None
      | Some ws \<Rightarrow> (case r of None \<Rightarrow> None | Some num \<Rightarrow> Some (join_with '' '' ws @ '' '' @ itoa (num + 10))))"

definition normalize :: "(string \<Rightarrow> string) \<Rightarrow> string \<Rightarrow> string" where
  "normalize uc phrase = join_with '' '' (split_fields (to_upper uc (trim_space phrase)))"

definition derive_token :: "(string \<Rightarrow> string) \<Rightarrow> string \<Rightarrow> string" where
  "derive_token uc phrase = hex_encode (take 8 (sha256 (bytes_of (''drop:token:'' @ normalize uc phrase))))"

definition derive_receive_token :: "(string \<Rightarrow> string) \<Rightarrow> string \<Rightarrow> string" where
  "derive_receive_token uc phrase =
     hex_encode (take 8 (sha256 (bytes_of (''drop:receive-token:'' @ normalize uc phrase))))"

definition derive_key :: "(string \<Rightarrow> string) \<Rightarrow> string \<Rightarrow> bytes" where
  "derive_key uc phrase = sha256 (bytes_of (''drop:key:'' @ normalize uc phrase))"

text \<open>The relay's \<open>validToken\<close>, \<open>^[0-9a-f]{16}$\<close>.\<close>

definition valid_token :: "string \<Rightarrow> bool" where
  "valid_token t = (length t = 16 \<and> list_all (\<lambda>c. c \<in> set hex_digits) t)"

section \<open>Generated passphrases\<close>

text \<open>Exactly the draws \<open>rand.Int\<close> can give: four below 1024 and one below 90.\<close>

definition draws_ok :: "nat list \<Rightarrow> nat \<Rightarrow> bool" where
  "draws_ok ns num = (length ns = 4 \<and> list_all (\<lambda>n. n < 1024) ns \<and> num < 90)"

lemma pick_words_Some: "pick_words (map Some ns) = Some (map ((!) wordlist) ns)"
  by (induction ns) simp_all

lemma word_upper: "n < 1024 \<Longrightarrow> upper_word (wordlist ! n)"
  using wordlist_upper by (simp add: list_all_length length_wordlist)

lemma digits_ok: "n < 90 \<Longrightarrow> itoa (n + 10) = [digit_char ((n + 10) div 10), digit_char ((n + 10) mod 10)]"
  by (subst itoa.simps, subst itoa.simps) simp

definition keeps_upper :: "char \<Rightarrow> bool" where
  "keeps_upper c = (of_char c < (128 :: nat) \<and> upper_char c = c)"

lemma upper_word_ok: "upper_word w \<Longrightarrow> word_ok w \<and> list_all keeps_upper w"
  by (auto simp: upper_word_def word_ok_def list_all_iff plain_char_def keeps_upper_def upper_char_def Let_def)

lemma number_ok: "n < 90 \<Longrightarrow> word_ok (itoa (n + 10)) \<and> list_all keeps_upper (itoa (n + 10))"
  by (simp add: digits_ok)
    (auto simp: word_ok_def plain_char_def keeps_upper_def upper_char_def digit_char_def Let_def)

lemma keeps_upper_join: "list_all (list_all keeps_upper) ws \<Longrightarrow> list_all keeps_upper (join_with '' '' ws)"
  by (induction "'' ''" ws rule: join_with.induct) (auto simp: keeps_upper_def upper_char_def Let_def)

lemma to_upper_keeps: "list_all keeps_upper s \<Longrightarrow> to_upper uc s = s"
  by (auto simp: to_upper_def keeps_upper_def is_ascii_def list_all_iff map_idI)

lemma join_snoc: "ws \<noteq> [] \<Longrightarrow> join_with d (ws @ [w]) = join_with d ws @ d @ w"
  by (induction d ws rule: join_with.induct) auto

lemma generate_join:
  assumes "draws_ok ns num"
  shows "generate (map Some ns) (Some num) =
     Some (join_with '' '' (map ((!) wordlist) ns @ [itoa (num + 10)]))"
proof -
  from assms have "map ((!) wordlist) ns \<noteq> []" by (auto simp: draws_ok_def)
  then show ?thesis
    by (simp add: generate_def pick_words_Some join_snoc)
qed

lemma generated_words_ok:
  assumes "draws_ok ns num" and "w \<in> set (map ((!) wordlist) ns @ [itoa (num + 10)])"
  shows "word_ok w \<and> list_all keeps_upper w"
proof -
  from assms consider n where "w = wordlist ! n" "n < 1024" | "w = itoa (num + 10)" "num < 90"
    by (auto simp: draws_ok_def list_all_iff)
  then show ?thesis
    by cases (simp_all only: number_ok upper_word_ok [OF word_upper])
qed

lemma normalize_generated:
  assumes "draws_ok ns num" and "generate (map Some ns) (Some num) = Some p"
  shows "normalize uc p = p"
proof -
  let ?ws = "map ((!) wordlist) ns @ [itoa (num + 10)]"
  have ok: "list_all word_ok ?ws" "list_all (list_all keeps_upper) ?ws"
    using generated_words_ok [OF assms(1)] unfolding list_all_iff by blast+
  have p: "p = join_with '' '' ?ws"
    using assms generate_join by simp
  have "trim_space p = p"
    unfolding p by (rule trim_join [OF ok(1)]) simp
  moreover have "to_upper uc p = p"
    unfolding p by (rule to_upper_keeps [OF keeps_upper_join [OF ok(2)]])
  ultimately show ?thesis
    unfolding normalize_def p using fields_join [OF ok(1)] by simp
qed

lemma generate_words_back:
  assumes "draws_ok ns num" and "generate (map Some ns) (Some num) = Some p"
  shows "split_fields p = map ((!) wordlist) ns @ [itoa (num + 10)]"
proof -
  have "list_all word_ok (map ((!) wordlist) ns @ [itoa (num + 10)])"
    using generated_words_ok [OF assms(1)] unfolding list_all_iff by blast
  with assms generate_join show ?thesis
    by (metis fields_join option.inject)
qed

section \<open>Tokens\<close>

lemma hex_token: "length b = 8 \<Longrightarrow> valid_token (hex_encode b)"
  using hex_encode_chars [of b] by (auto simp: valid_token_def list_all_iff)

section \<open>Properties\<close>

text \<open>
  C27: A generated passphrase is its own normal form, so typing it as displayed derives the
  same secrets; and different draws give different passphrases: the 1024 words are distinct
  and free of spaces, which makes the space of passphrases 1024^4 * 90.
\<close>

theorem generated_phrases:
  assumes "draws_ok ns num" and "generate (map Some ns) (Some num) = Some p"
    and "draws_ok ms num'" and "generate (map Some ms) (Some num') = Some q"
  shows "normalize uc p = p \<and> (p = q \<longleftrightarrow> ns = ms \<and> num = num')"
proof -
  have "ns = ms \<and> num = num'" if "p = q"
  proof -
    have e: "map ((!) wordlist) ns = map ((!) wordlist) ms" "itoa (num + 10) = itoa (num' + 10)"
      using that generate_words_back [OF assms(1,2)] generate_words_back [OF assms(3,4)] by simp_all
    have "inj_on ((!) wordlist) (set ns \<union> set ms)"
      using assms(1,3) distinct_wordlist length_wordlist
      by (auto simp: draws_ok_def list_all_iff intro!: inj_onI) (metis nth_eq_iff_index_eq)+
    with e(1) have "ns = ms" by (rule map_inj_on)
    moreover from e(2) have "num = num'" using itoa_inject [of "num + 10" "num' + 10"] by simp
    ultimately show ?thesis by simp
  qed
  moreover have "p = q" if "ns = ms \<and> num = num'" using that assms by simp
  ultimately show ?thesis
    using normalize_generated [OF assms(1,2)] by blast
qed

theorem generated_phrases_witness:
  "normalize id ''ACID ACORN HELIX ACID 42'' = ''ACID ACORN HELIX ACID 42'' \<and>
   ''ACID ACORN HELIX ACID 42'' \<noteq> ''ACID ACRE HELIX ACID 42''"
proof -
  have w: "wordlist ! 0 = ''ACID''" "wordlist ! Suc 0 = ''ACORN''" "wordlist ! 2 = ''ACRE''" "wordlist ! 1023 = ''HELIX''"
    by (simp_all add: wordlist_def)
  have "draws_ok [0, 1, 1023, 0] 32" "draws_ok [0, 2, 1023, 0] 32"
    by (simp_all add: draws_ok_def)
  moreover have "itoa (32 + 10) = ''42''"
    by (simp add: itoa.simps [of 42] itoa.simps [of 4] digit_char_def char_of_eq_iff)
  then have "generate (map Some [0, 1, 1023, 0]) (Some 32) = Some ''ACID ACORN HELIX ACID 42''"
      "generate (map Some [0, 2, 1023, 0]) (Some 32) = Some ''ACID ACRE HELIX ACID 42''"
    by (simp_all add: generate_def w)
  ultimately show ?thesis
    using generated_phrases [of "[0, 1, 1023, 0]" 32 _ "[0, 2, 1023, 0]" 32 _ id] by simp
qed

text \<open>
  C28: Every derived token is one the relay accepts, every derived key has the size that
  \<open>Encrypt\<close> and \<open>Decrypt\<close> require, phrases with the same normal form derive the same three
  values, and the three derivations hash different inputs, whatever the phrases are.
\<close>

theorem derived_secrets:
  assumes "normalize uc phrase = normalize uc phrase'"
  shows "valid_token (derive_token uc phrase) \<and> valid_token (derive_receive_token uc phrase) \<and>
     length (derive_key uc phrase) = KeySize \<and>
     derive_token uc phrase = derive_token uc phrase' \<and>
     derive_receive_token uc phrase = derive_receive_token uc phrase' \<and>
     derive_key uc phrase = derive_key uc phrase' \<and>
     distinct [bytes_of (''drop:token:'' @ normalize uc other), bytes_of (''drop:receive-token:'' @ normalize uc phrase),
       bytes_of (''drop:key:'' @ normalize uc another)]"
  using assms by (auto simp: derive_token_def derive_receive_token_def derive_key_def KeySize_def hex_token)

theorem derived_secrets_witness:
  "valid_token (derive_token id '' red  fox '') \<and> derive_token id '' red  fox '' = derive_token id ''RED FOX'' \<and>
   derive_key id '' red  fox '' = derive_key id ''RED FOX''"
proof -
  have "normalize id '' red  fox '' = normalize id ''RED FOX''" by code_simp
  from derived_secrets [OF this] show ?thesis by blast
qed

end
