(* ===== verification/Store.thy ===== *)
theory Store
  imports FileSys Sha256 "HOL-Library.List_Lexorder" "HOL-Library.Char_ord"
begin

text \<open>
  \<open>FileStore\<close> of \<open>internal/relay/store.go\<close>: the encrypted mailbox blobs of the relay, a table
  from tokens to files on disk.  Times are nanoseconds.  The random part of a temporary
  file's name and the random bytes of a token are arguments.
\<close>

section \<open>Tables by token\<close>

text \<open>
  What the relay's two registries (blobs and rooms) promise: a lookup after an insertion or a
  removal.  The lemmas inside are what their clients use.
\<close>

locale token_table =
  fixes look :: "'s \<Rightarrow> string \<Rightarrow> 'v option"
    and ins :: "string \<Rightarrow> 'v \<Rightarrow> 's \<Rightarrow> 's"
    and del :: "string \<Rightarrow> 's \<Rightarrow> 's"
  assumes look_ins: "look (ins t v s) u = (if u = t then Some v else look s u)"
    and look_del: "look (del t s) u = (if u = t then None else look s u)"
begin

lemma ins_hit [simp]: "look (ins t v s) t = Some v"
  by (simp add: look_ins)

lemma ins_miss: "u \<noteq> t \<Longrightarrow> look (ins t v s) u = look s u"
  by (simp add: look_ins)

lemma del_hit [simp]: "look (del t s) t = None"
  by (simp add: look_del)

lemma del_miss: "u \<noteq> t \<Longrightarrow> look (del t s) u = look s u"
  by (simp add: look_del)

lemma look_del_all: "look (foldr del ts s) u = (if u \<in> set ts then None else look s u)"
  by (induction ts) (auto simp: look_del)

end

section \<open>Definitions\<close>

record stored_file =
  sf_path :: path
  sf_filename :: string
  sf_size :: int
  sf_created :: int

record file_store =
  st_files :: "(string, stored_file) fmap"
  st_dir :: path
  st_expiry :: int
  st_expired_total :: int
  st_disk :: filesys

datatype store_error = TokenExists | CreateTempFailed os_error | CopyFailed

definition gen_token :: "bytes \<Rightarrow> string" where
  "gen_token b = hex_encode b"

definition short_token :: "string \<Rightarrow> string" where
  "short_token t = (if length t \<le> 4 then t else take 4 t)"

definition get :: "file_store \<Rightarrow> string \<Rightarrow> stored_file option" where
  "get s token = fmlookup (st_files s) token"

definition insert_file :: "string \<Rightarrow> stored_file \<Rightarrow> file_store \<Rightarrow> file_store" where
  "insert_file token f s = s\<lparr>st_files := fmupd token f (st_files s)\<rparr>"

definition delete_file :: "string \<Rightarrow> file_store \<Rightarrow> file_store" where
  "delete_file token s = s\<lparr>st_files := fmdrop token (st_files s)\<rparr>"

interpretation blobs: token_table get insert_file delete_file
  by unfold_locales (simp_all add: get_def insert_file_def delete_file_def)

text \<open>\<open>os.CreateTemp\<close>: a new file with the pattern's star replaced by a random string; it never
  opens an existing file.\<close>

definition temp_path :: "path \<Rightarrow> string \<Rightarrow> path" where
  "temp_path d rnd = join d (''upload-'' @ rnd)"

definition create_temp :: "path \<Rightarrow> string \<Rightarrow> filesys \<Rightarrow> (os_error + path) \<times> filesys" where
  "create_temp d rnd fs =
     (let p = temp_path d rnd
      in if fs_exists fs p then (Inl IOError, fs)
         else case os_create p fs of (Inl e, fs1) \<Rightarrow> (Inl e, fs1) | (Inr _, fs1) \<Rightarrow> (Inr p, fs1))"

text \<open>
  \<open>Store\<close> takes the table's lock twice: once to look the token up, and again, after the
  upload was copied to disk, to insert it.  Its three parts are definitions of their own, so
  that uploads can be interleaved.  The reader is the bytes it gives and whether it then ends
  without an error.
\<close>

definition store_taken :: "string \<Rightarrow> file_store \<Rightarrow> bool" where
  "store_taken token s = (get s token \<noteq> None)"

definition store_copy ::
  "string \<Rightarrow> bytes \<times> bool \<Rightarrow> file_store \<Rightarrow> (store_error + path \<times> int) \<times> file_store" where
  "store_copy rnd r s =
     (case create_temp (st_dir s) rnd (st_disk s) of
        (Inl e, fs) \<Rightarrow> (Inl (CreateTempFailed e), s\<lparr>st_disk := fs\<rparr>)
      | (Inr p, fs) \<Rightarrow>
          (case os_append p (fst r) fs of
             ((n, err), fs1) \<Rightarrow>
               if err \<noteq> None \<or> \<not> snd r then
                 (Inl CopyFailed, s\<lparr>st_disk := snd (os_remove p fs1)\<rparr>)
               else (Inr (p, n), s\<lparr>st_disk := fs1\<rparr>)))"

definition store_insert :: "string \<Rightarrow> string \<Rightarrow> path \<times> int \<Rightarrow> int \<Rightarrow> file_store \<Rightarrow> file_store" where
  "store_insert token filename pn now s =
     insert_file token
       \<lparr>sf_path = fst pn, sf_filename = filename, sf_size = snd pn, sf_created = now\<rparr> s"

definition store_token :: "string \<Rightarrow> bytes \<Rightarrow> string" where
  "store_token clientToken rnd = (if clientToken = [] then gen_token rnd else clientToken)"

definition store ::
  "string \<Rightarrow> bytes \<times> bool \<Rightarrow> string \<Rightarrow> bytes \<Rightarrow> string \<Rightarrow> int \<Rightarrow> file_store \<Rightarrow>
     (store_error + string) \<times> file_store" where
  "store filename r clientToken rndToken rndName now s =
     (let token = store_token clientToken rndToken
      in if store_taken token s then (Inl TokenExists, s)
         else case store_copy rndName r s of
           (Inl e, s1) \<Rightarrow> (Inl e, s1)
         | (Inr pn, s1) \<Rightarrow> (Inr token, store_insert token filename pn now s1))"

definition tokens :: "file_store \<Rightarrow> string list" where
  "tokens s = sorted_list_of_fset (fmdom (st_files s))"

definition stats :: "file_store \<Rightarrow> int \<times> int" where
  "stats s =
     foldr (\<lambda>t (count, total_bytes).
         (count + 1, total_bytes + (case get s t of None \<Rightarrow> 0 | Some f \<Rightarrow> sf_size f)))
       (tokens s) (0, 0)"

text \<open>One tick of \<open>cleanupLoop\<close>, under the lock.\<close>

definition expire_one :: "int \<Rightarrow> string \<Rightarrow> file_store \<Rightarrow> file_store" where
  "expire_one now token s =
     (case get s token of
        None \<Rightarrow> s
      | Some f \<Rightarrow>
          if now - sf_created f > st_expiry s then
            delete_file token
              (s\<lparr>st_disk := snd (os_remove (sf_path f) (st_disk s)),
                 st_expired_total := st_expired_total s + 1\<rparr>)
          else s)"

definition cleanup_tick :: "int \<Rightarrow> file_store \<Rightarrow> file_store" where
  "cleanup_tick now s = foldr (expire_one now) (tokens s) s"

text \<open>\<open>Shutdown\<close>: the blobs, then the directory with whatever is left in it.\<close>

definition shutdown :: "file_store \<Rightarrow> file_store" where
  "shutdown s =
     (let fs = foldr (\<lambda>t fs. case get s t of None \<Rightarrow> fs | Some f \<Rightarrow> snd (os_remove (sf_path f) fs))
                 (tokens s) (st_disk s)
      in s\<lparr>st_disk := fs\<lparr>fs_files := fmfilter (\<lambda>p. take (Suc (length (st_dir s))) p \<noteq> st_dir s @ ''/'')
                            (fs_files fs),
                         fs_dirs := ffilter (\<lambda>p. p \<noteq> st_dir s \<and>
                             take (Suc (length (st_dir s))) p \<noteq> st_dir s @ ''/'') (fs_dirs fs)\<rparr>\<rparr>)"

section \<open>The invariant\<close>

text \<open>
  Every entry has its own blob, a file below the store's directory whose length is the
  recorded size.
\<close>

definition store_inv :: "file_store \<Rightarrow> bool" where
  "store_inv s \<longleftrightarrow>
     (\<forall>t f. get s t = Some f \<longrightarrow>
        (\<exists>rnd. sf_path f = temp_path (st_dir s) rnd) \<and>
        (\<exists>c. fmlookup (fs_files (st_disk s)) (sf_path f) = Some c \<and> sf_size f = int (length c))) \<and>
     (\<forall>t u f g. get s t = Some f \<longrightarrow> get s u = Some g \<longrightarrow> sf_path f = sf_path g \<longrightarrow> t = u)"

section \<open>Storing\<close>

lemma create_temp_Inr:
  "create_temp d rnd fs = (Inr p, fs') \<Longrightarrow>
     p = temp_path d rnd \<and> \<not> fs_exists fs p \<and> fmlookup (fs_files fs') p = Some [] \<and>
     same_except {p} fs fs'"
  using os_create_same [of "temp_path d rnd" fs]
  by (auto simp: create_temp_def Let_def os_create_def split: if_splits prod.splits sum.splits option.splits)

lemma create_temp_Inl: "create_temp d rnd fs = (Inl e, fs') \<Longrightarrow> same_except {} fs fs'"
  by (auto simp: create_temp_def Let_def os_create_def
      split: if_splits prod.splits sum.splits option.splits dest: same_except_next_fault)

lemma os_append_ok_content:
  "os_append p c fs = ((n, None), fs') \<Longrightarrow> fmlookup (fs_files fs) p = Some old \<Longrightarrow>
     n = int (length c) \<and> fmlookup (fs_files fs') p = Some (old @ c)"
  by (auto simp: os_append_def split: prod.splits option.splits dest!: next_fault_frame)

text \<open>A copied upload: a new file with the bytes of the reader, and nothing else changed.\<close>

lemma store_copy_Inr:
  assumes "store_copy rnd r s = (Inr (p, n), s')"
  shows "p = temp_path (st_dir s) rnd \<and> \<not> fs_exists (st_disk s) p \<and>
     fmlookup (fs_files (st_disk s')) p = Some (fst r) \<and> n = int (length (fst r)) \<and> snd r \<and>
     same_except {p} (st_disk s) (st_disk s') \<and> s' = s\<lparr>st_disk := st_disk s'\<rparr>"
proof -
  from assms obtain fs fs1 where c: "create_temp (st_dir s) rnd (st_disk s) = (Inr p, fs)"
    and a: "os_append p (fst r) fs = ((n, None), fs1)" and r: "snd r" and s': "s' = s\<lparr>st_disk := fs1\<rparr>"
    by (auto simp: store_copy_def split: prod.splits sum.splits if_splits)
  note ct = create_temp_Inr [OF c]
  from ct have "fmlookup (fs_files fs) p = Some []" by blast
  note ap = os_append_ok_content [OF a this]
  have "same_except {p} fs fs1" using os_append_same [of p fs "fst r"] a by simp
  with ct have "same_except {p} (st_disk s) fs1" by (blast intro: same_except_same)
  moreover have "s' = s\<lparr>st_disk := st_disk s'\<rparr>" "st_disk s' = fs1" using s' by simp_all
  ultimately show ?thesis using ct ap r by (metis append_Nil)
qed

lemma store_copy_Inl:
  assumes "store_copy rnd r s = (Inl e, s')"
  shows "st_files s' = st_files s \<and> st_dir s' = st_dir s \<and>
     same_except {temp_path (st_dir s) rnd} (st_disk s) (st_disk s') \<and>
     (fs_exists (st_disk s) (temp_path (st_dir s) rnd) \<longrightarrow> same_except {} (st_disk s) (st_disk s'))"
proof (cases "create_temp (st_dir s) rnd (st_disk s)")
  case (Pair x fs)
  show ?thesis
  proof (cases x)
    case (Inl y)
    with assms Pair create_temp_Inl [of "st_dir s" rnd "st_disk s" y fs] show ?thesis
      by (auto simp: store_copy_def same_except_def)
  next
    case (Inr p)
    with Pair have ct: "p = temp_path (st_dir s) rnd" "\<not> fs_exists (st_disk s) p"
        "same_except {p} (st_disk s) fs"
      using create_temp_Inr by auto
    obtain n err fs1 where a: "os_append p (fst r) fs = ((n, err), fs1)" by (metis surj_pair)
    have "same_except {p} fs fs1" using os_append_same [of p fs "fst r"] a by simp
    then have "same_except {p} (st_disk s) (snd (os_remove p fs1))"
      using same_except_same [OF same_except_same [OF ct(3)] os_remove_same] by blast
    with assms Pair Inr a ct(1,2) show ?thesis
      by (auto simp: store_copy_def split: if_splits)
  qed
qed

definition blob :: "file_store \<Rightarrow> string \<Rightarrow> bytes option" where
  "blob s t = (case get s t of None \<Rightarrow> None | Some f \<Rightarrow> fmlookup (fs_files (st_disk s)) (sf_path f))"

lemma store_inv_blob:
  "store_inv s \<Longrightarrow> get s t = Some f \<Longrightarrow> \<exists>c. blob s t = Some c \<and> sf_size f = int (length c)"
  by (auto simp: store_inv_def blob_def)

lemma store_inv_file:
  "store_inv s \<Longrightarrow> get s t = Some f \<Longrightarrow>
     \<exists>c. fmlookup (fs_files (st_disk s)) (sf_path f) = Some c \<and> sf_size f = int (length c)"
  by (simp add: store_inv_def)

lemma store_inv_exists:
  assumes "store_inv s" and "get s t = Some f"
  shows "fs_exists (st_disk s) (sf_path f)"
  using store_inv_file [OF assms] by (auto simp: fs_exists_def fmlookup_dom_iff)

lemma store_copy_keeps:
  assumes "store_copy rnd r s = (x, s')" and "store_inv s"
  shows "store_inv s' \<and> get s' = get s \<and> blob s' = blob s \<and> st_dir s' = st_dir s"
proof -
  let ?p = "temp_path (st_dir s) rnd"
  have f: "st_files s' = st_files s" "st_dir s' = st_dir s"
    using assms(1) by (auto simp: store_copy_def split: prod.splits sum.splits if_splits)
  have d: "fmlookup (fs_files (st_disk s')) q = fmlookup (fs_files (st_disk s)) q"
    if "fs_exists (st_disk s) q" for q
  proof (cases x)
    case (Inl e)
    with store_copy_Inl [of rnd r s e s'] assms(1) that show ?thesis
      by (cases "q = ?p") (auto simp: same_except_def)
  next
    case (Inr pn)
    obtain p n where "pn = (p, n)" by force
    with Inr store_copy_Inr [of rnd r s p n s'] assms(1) that show ?thesis
      by (cases "q = ?p") (auto simp: same_except_def)
  qed
  have g: "get s' = get s" by (simp add: get_def f fun_eq_iff)
  have b: "blob s' t = blob s t" for t
    using d store_inv_exists [OF assms(2)] by (auto simp: blob_def g split: option.split)
  have p: "fmlookup (fs_files (st_disk s')) (sf_path y) = fmlookup (fs_files (st_disk s)) (sf_path y)"
    if "get s t = Some y" for t y
    using d store_inv_exists [OF assms(2) that] by blast
  have "store_inv s'"
    using assms(2) p unfolding store_inv_def g f by metis
  with g b f show ?thesis by (auto simp: fun_eq_iff)
qed

lemma store_insert_inv:
  assumes "store_inv s" and "\<exists>rnd. p = temp_path (st_dir s) rnd"
    and "fmlookup (fs_files (st_disk s)) p = Some c" and "n = int (length c)"
    and "\<forall>t f. get s t = Some f \<longrightarrow> sf_path f \<noteq> p"
  shows "store_inv (store_insert token filename (p, n) now s)"
proof -
  have st: "st_dir (store_insert token filename (p, n) now s) = st_dir s"
      "st_disk (store_insert token filename (p, n) now s) = st_disk s"
    by (simp_all add: store_insert_def insert_file_def)
  show ?thesis
    using assms unfolding store_inv_def st
    by (simp add: store_insert_def blobs.look_ins) metis
qed

lemma store_ok:
  assumes "store filename r ct rt rn now s = (Inr token, s')" and "store_inv s"
  shows "get s token = None \<and> store_inv s' \<and> blob s' token = Some (fst r) \<and>
     get s' token = Some \<lparr>sf_path = temp_path (st_dir s) rn, sf_filename = filename,
        sf_size = int (length (fst r)), sf_created = now\<rparr> \<and>
     (\<forall>t. t \<noteq> token \<longrightarrow> get s' t = get s t \<and> blob s' t = blob s t)"
proof -
  from assms(1) obtain p n s1 where t: "get s token = None" "token = store_token ct rt"
    and c: "store_copy rn r s = (Inr (p, n), s1)" and s': "s' = store_insert token filename (p, n) now s1"
    by (auto simp: store_def store_taken_def Let_def split: if_splits prod.splits sum.splits)
  note k = store_copy_keeps [OF c assms(2)]
  note i = store_copy_Inr [OF c]
  have fresh: "get s1 u = Some f \<Longrightarrow> sf_path f \<noteq> p" for u f
    using store_inv_exists [OF assms(2), of u f] i k by metis
  have "store_inv s'"
    unfolding s' by (rule store_insert_inv) (use k i fresh in auto)
  moreover have d: "st_disk s' = st_disk s1" by (simp add: s' store_insert_def insert_file_def)
  moreover have g: "get s' u = (if u = token then Some \<lparr>sf_path = p, sf_filename = filename,
        sf_size = n, sf_created = now\<rparr> else get s u)" for u
    using k by (simp add: s' store_insert_def blobs.look_ins)
  moreover have lk: "fmlookup (fs_files (st_disk s1)) p = Some (fst r)" and p: "p = temp_path (st_dir s) rn"
    and n: "n = int (length (fst r))"
    using i by blast+
  have "blob s' token = Some (fst r)"
    by (simp add: blob_def g d lk)
  moreover have "blob s' u = blob s u" if "u \<noteq> token" for u
  proof -
    have "get s1 = get s" using k by blast
    then have "blob s' u = blob s1 u"
      using that by (cases "get s u") (simp_all add: blob_def g d)
    then show ?thesis using k by simp
  qed
  ultimately show ?thesis
    using t(1) \<open>blob s' token = Some (fst r)\<close> by (simp add: g n flip: p)
qed

lemma store_err:
  assumes "store filename r ct rt rn now s = (Inl e, s')" and "store_inv s"
  shows "store_inv s' \<and> get s' = get s \<and> blob s' = blob s"
  using assms store_copy_keeps [OF _ assms(2)]
  by (auto simp: store_def Let_def split: if_splits prod.splits sum.splits)

section \<open>Expiry\<close>

definition expired :: "int \<Rightarrow> file_store \<Rightarrow> string \<Rightarrow> bool" where
  "expired now s t \<longleftrightarrow> (case get s t of None \<Rightarrow> False | Some f \<Rightarrow> now - sf_created f > st_expiry s)"

lemma tokens_iff: "set (tokens s) = {t. get s t \<noteq> None}" and distinct_tokens: "distinct (tokens s)"
  by (auto simp: tokens_def get_def fmlookup_dom_iff sorted_list_of_fset.rep_eq)

lemma expire_one_alt:
  "expire_one now t s =
     (if expired now s t
      then delete_file t (s\<lparr>st_disk := snd (os_remove (sf_path (the (get s t))) (st_disk s)),
                            st_expired_total := st_expired_total s + 1\<rparr>)
      else s)"
  by (simp add: expire_one_def expired_def split: option.split)

lemma expire_one_fields [simp]:
  "st_expiry (expire_one now t s) = st_expiry s" "st_dir (expire_one now t s) = st_dir s"
  by (simp_all add: expire_one_def delete_file_def split: option.split)

lemma expire_one_get: "get (expire_one now t s) u = (if u = t \<and> expired now s t then None else get s u)"
  by (auto simp: expire_one_def expired_def blobs.look_del split: option.split)
    (simp_all add: get_def delete_file_def)

lemma expire_one_expired: "u \<noteq> t \<Longrightarrow> expired now (expire_one now t s) u = expired now s u"
  by (simp add: expired_def expire_one_get split: option.split)

lemma expire_fold:
  "distinct ts \<Longrightarrow>
     st_expiry (foldr (expire_one now) ts s) = st_expiry s \<and>
     st_dir (foldr (expire_one now) ts s) = st_dir s \<and>
     (\<forall>u. get (foldr (expire_one now) ts s) u = (if u \<in> set ts \<and> expired now s u then None else get s u)) \<and>
     (\<forall>u. u \<notin> set ts \<longrightarrow> expired now (foldr (expire_one now) ts s) u = expired now s u) \<and>
     st_expired_total (foldr (expire_one now) ts s) =
       st_expired_total s + int (length (filter (expired now s) ts))"
proof (induction ts)
  case (Cons t ts)
  let ?s = "foldr (expire_one now) ts s"
  from Cons have IH: "st_expiry ?s = st_expiry s" "st_dir ?s = st_dir s"
      "\<And>u. get ?s u = (if u \<in> set ts \<and> expired now s u then None else get s u)"
      "\<And>u. u \<notin> set ts \<Longrightarrow> expired now ?s u = expired now s u"
      "st_expired_total ?s = st_expired_total s + int (length (filter (expired now s) ts))"
    and t: "t \<notin> set ts"
    by auto
  have e: "expired now ?s t = expired now s t" using IH(4) t by blast
  have "st_expired_total (expire_one now t ?s) =
      st_expired_total ?s + (if expired now s t then 1 else 0)"
    using e by (simp add: expire_one_alt delete_file_def)
  then show ?case
    using IH e t by (auto simp: expire_one_get expire_one_expired)
qed simp

lemma cleanup_get:
  "get (cleanup_tick now s) t = (if expired now s t then None else get s t)"
  "st_expired_total (cleanup_tick now s) = st_expired_total s + int (length (filter (expired now s) (tokens s)))"
  "st_dir (cleanup_tick now s) = st_dir s" "st_expiry (cleanup_tick now s) = st_expiry s"
  using expire_fold [OF distinct_tokens [of s], of now s]
  by (auto simp: cleanup_tick_def tokens_iff expired_def split: option.splits)

text \<open>The disk: the blobs of expired tokens go, every other file stays as it is.\<close>

lemma expire_one_disk:
  "same_except (if expired now s t then {sf_path (the (get s t))} else {}) (st_disk s) (st_disk (expire_one now t s))"
  using os_remove_same [of "sf_path (the (get s t))" "st_disk s"]
  by (auto simp: expire_one_def expired_def delete_file_def split: option.split)

definition expired_paths :: "int \<Rightarrow> file_store \<Rightarrow> path set" where
  "expired_paths now s = {sf_path f |t f. get s t = Some f \<and> expired now s t}"

lemma expire_fold_disk:
  "distinct ts \<Longrightarrow> same_except (expired_paths now s) (st_disk s) (st_disk (foldr (expire_one now) ts s))"
proof (induction ts)
  case (Cons t ts)
  let ?s = "foldr (expire_one now) ts s"
  from Cons.prems have ef: "get ?s t = get s t" "expired now ?s t = expired now s t"
    using expire_fold [of ts now s] by auto
  have "same_except (expired_paths now s) (st_disk ?s) (st_disk (expire_one now t ?s))"
    using expire_one_disk [of now ?s t] ef
    by (auto simp: same_except_def expired_paths_def expired_def split: if_splits option.splits)
  with Cons show ?case
    by (auto intro: same_except_same)
qed auto

lemma cleanup_disk: "same_except (expired_paths now s) (st_disk s) (st_disk (cleanup_tick now s))"
  using expire_fold_disk [OF distinct_tokens] by (simp add: cleanup_tick_def)

lemma cleanup_blob:
  assumes "store_inv s" and "\<not> expired now s t"
  shows "blob (cleanup_tick now s) t = blob s t"
proof (cases "get s t")
  case (Some f)
  have "sf_path f \<notin> expired_paths now s"
    using assms Some unfolding expired_paths_def store_inv_def by blast
  with cleanup_disk [of now s] Some assms(2) show ?thesis
    by (simp add: blob_def cleanup_get same_except_def)
qed (use assms(2) in \<open>simp add: blob_def cleanup_get\<close>)

lemma cleanup_inv:
  assumes "store_inv s"
  shows "store_inv (cleanup_tick now s)"
proof -
  have sub: "get (cleanup_tick now s) t = Some f \<Longrightarrow> get s t = Some f \<and> \<not> expired now s t" for t f
    by (simp add: cleanup_get split: if_splits)
  have "fmlookup (fs_files (st_disk (cleanup_tick now s))) (sf_path f) = fmlookup (fs_files (st_disk s)) (sf_path f)"
    if "get (cleanup_tick now s) t = Some f" for t f
    using cleanup_blob [OF assms, of now t] sub [OF that] that by (simp add: blob_def)
  with assms sub show ?thesis
    unfolding store_inv_def cleanup_get(3) by metis
qed

text \<open>Without faults the expired blobs are gone.\<close>

lemma expire_one_gone:
  assumes "fs_faults (st_disk s) = []"
  shows "fs_faults (st_disk (expire_one now t s)) = [] \<and>
     (expired now s t \<longrightarrow> fmlookup (fs_files (st_disk (expire_one now t s))) (sf_path (the (get s t))) = None) \<and>
     (\<forall>q. fmlookup (fs_files (st_disk s)) q = None \<longrightarrow>
        fmlookup (fs_files (st_disk (expire_one now t s))) q = None)"
  using assms by (auto simp: expire_one_alt delete_file_def os_remove_def next_fault_none fmdom_notD)

lemma expire_fold_gone:
  "distinct ts \<Longrightarrow> fs_faults (st_disk s) = [] \<Longrightarrow>
     fs_faults (st_disk (foldr (expire_one now) ts s)) = [] \<and>
     (\<forall>t. t \<in> set ts \<and> expired now s t \<longrightarrow>
        fmlookup (fs_files (st_disk (foldr (expire_one now) ts s))) (sf_path (the (get s t))) = None)"
proof (induction ts)
  case (Cons t ts)
  have ef: "get (foldr (expire_one now) ts s) t = get s t"
      "expired now (foldr (expire_one now) ts s) t = expired now s t"
    using Cons.prems(1) expire_fold [of ts now s] by auto
  have "fs_faults (st_disk (foldr (expire_one now) ts s)) = []" using Cons by simp
  from expire_one_gone [OF this, of now t] Cons ef show ?case by auto
qed auto

lemma cleanup_gone:
  "fs_faults (st_disk s) = [] \<Longrightarrow> expired now s t \<Longrightarrow> get s t = Some f \<Longrightarrow>
     fmlookup (fs_files (st_disk (cleanup_tick now s))) (sf_path f) = None"
  using expire_fold_gone [OF distinct_tokens [of s], of s now] tokens_iff [of s]
  by (auto simp: cleanup_tick_def)

section \<open>Interleaved uploads\<close>

record upload =
  up_token :: string
  up_filename :: string
  up_reader :: "bytes \<times> bool"
  up_name :: string
  up_now :: int

datatype phase = PCheck | PCopy | PInsert "path \<times> int" | PDone "store_error + string"

text \<open>One upload's next step between two acquisitions of the lock.\<close>

fun upload_step :: "upload \<Rightarrow> phase \<Rightarrow> file_store \<Rightarrow> phase \<times> file_store" where
  "upload_step u PCheck s = ((if store_taken (up_token u) s then PDone (Inl TokenExists) else PCopy), s)"
| "upload_step u PCopy s =
     (case store_copy (up_name u) (up_reader u) s of
        (Inl e, s1) \<Rightarrow> (PDone (Inl e), s1) | (Inr pn, s1) \<Rightarrow> (PInsert pn, s1))"
| "upload_step u (PInsert pn) s =
     (PDone (Inr (up_token u)), store_insert (up_token u) (up_filename u) pn (up_now u) s)"
| "upload_step u (PDone r) s = (PDone r, s)"

text \<open>Two uploads and a schedule of their steps.\<close>

fun run_uploads ::
  "upload \<Rightarrow> upload \<Rightarrow> bool list \<Rightarrow> phase \<Rightarrow> phase \<Rightarrow> file_store \<Rightarrow> phase \<times> phase \<times> file_store" where
  "run_uploads u v [] p q s = (p, q, s)"
| "run_uploads u v (True # sched) p q s =
     (case upload_step u p s of (p1, s1) \<Rightarrow> run_uploads u v sched p1 q s1)"
| "run_uploads u v (False # sched) p q s =
     (case upload_step v q s of (q1, s1) \<Rightarrow> run_uploads u v sched p q1 s1)"

section \<open>Properties\<close>

definition empty_store :: file_store where
  "empty_store =
     \<lparr>st_files = fmempty, st_dir = ''t'', st_expiry = 600, st_expired_total = 0,
      st_disk = \<lparr>fs_files = fmempty, fs_dirs = {||}, fs_faults = []\<rparr>\<rparr>"

lemma empty_store_inv: "store_inv empty_store" "get empty_store t = None"
    "fs_faults (st_disk empty_store) = []"
  by (simp_all add: empty_store_def store_inv_def get_def)

text \<open>
  \<open>Store\<close> and \<open>Get\<close>, with any faults of the disk: a stored upload is found under its
  token with its name, size and exact bytes; a token that is taken is refused; and no outcome
  changes another token's entry or blob, or the agreement of the table with the disk.
\<close>

lemma store_then_get:
  assumes "store_inv s"
  shows "case store filename r clientToken rndToken rndName now s of
     (Inr token, s') \<Rightarrow>
        token = store_token clientToken rndToken \<and> get s token = None \<and> snd r \<and> store_inv s' \<and>
        blob s' token = Some (fst r) \<and>
        map_option (\<lambda>f. (sf_filename f, sf_size f, sf_created f)) (get s' token) =
          Some (filename, int (length (fst r)), now) \<and>
        (\<forall>t. if t = token then True else get s' t = get s t \<and> blob s' t = blob s t)
   | (Inl e, s') \<Rightarrow>
        (e = TokenExists) = (get s (store_token clientToken rndToken) \<noteq> None) \<and>
        store_inv s' \<and> get s' = get s \<and> blob s' = blob s"
proof -
  obtain x s' where run: "store filename r clientToken rndToken rndName now s = (x, s')"
    by (metis surj_pair)
  show ?thesis
  proof (cases x)
    case (Inl e)
    then have "(e = TokenExists) = (get s (store_token clientToken rndToken) \<noteq> None)"
      using run by (auto simp: store_def store_taken_def store_copy_def Let_def
          split: if_splits prod.splits sum.splits)
    with store_err [OF _ assms] run Inl show ?thesis by simp
  next
    case (Inr token)
    then have "token = store_token clientToken rndToken" "snd r"
      using run by (auto simp: store_def Let_def split: if_splits prod.splits sum.splits
          dest!: store_copy_Inr)
    with store_ok [OF _ assms] run Inr show ?thesis by auto
  qed
qed

lemma store_then_get_witness:
  "case store ''f'' ([1, 2], True) ''00112233445566aa'' [] ''x'' 5 empty_store of
     (Inr token, s') \<Rightarrow>
        token = store_token ''00112233445566aa'' [] \<and> get empty_store token = None \<and> snd ([1 :: byte, 2], True) \<and>
        store_inv s' \<and> blob s' token = Some (fst ([1, 2], True)) \<and>
        map_option (\<lambda>f. (sf_filename f, sf_size f, sf_created f)) (get s' token) =
          Some (''f'', int (length (fst ([1 :: byte, 2], True))), 5) \<and>
        (\<forall>t. if t = token then True else get s' t = get empty_store t \<and> blob s' t = blob empty_store t)
   | (Inl e, s') \<Rightarrow>
        (e = TokenExists) = (get empty_store (store_token ''00112233445566aa'' []) \<noteq> None) \<and>
        store_inv s' \<and> get s' = get empty_store \<and> blob s' = blob empty_store"
  by (rule store_then_get) (rule empty_store_inv)

text \<open>
  A tick of the cleanup removes exactly the entries older than the expiry, counts them, and
  deletes their blobs (unless the disk fails); every other blob is still there with the same
  bytes, and the table still agrees with the disk.
\<close>

lemma cleanup_exact:
  assumes "store_inv s"
  shows "store_inv (cleanup_tick now s) \<and>
     (\<forall>t. case get s t of
        None \<Rightarrow> get (cleanup_tick now s) t = None
      | Some f \<Rightarrow>
          if now - sf_created f > st_expiry s
          then get (cleanup_tick now s) t = None \<and>
               (fs_faults (st_disk s) \<noteq> [] \<or>
                fmlookup (fs_files (st_disk (cleanup_tick now s))) (sf_path f) = None)
          else get (cleanup_tick now s) t = Some f \<and> blob (cleanup_tick now s) t = blob s t)
     \<and> st_expired_total (cleanup_tick now s) =
         st_expired_total s + int (length (filter (expired now s) (tokens s)))"
  using cleanup_inv [OF assms] cleanup_blob [OF assms] cleanup_gone [of s now]
  by (auto simp: cleanup_get expired_def split: option.split)

text \<open>A store with an old and a fresh upload.\<close>

definition two_uploads :: file_store where
  "two_uploads = empty_store\<lparr>
     st_files := fmap_of_list
       [(''aa'', \<lparr>sf_path = ''t/upload-x'', sf_filename = ''f'', sf_size = 1, sf_created = 0\<rparr>),
        (''bb'', \<lparr>sf_path = ''t/upload-y'', sf_filename = ''g'', sf_size = 2, sf_created = 800\<rparr>)],
     st_disk := \<lparr>fs_files = fmap_of_list [(''t/upload-x'', [1]), (''t/upload-y'', [2, 3])], fs_dirs = {||}, fs_faults = []\<rparr>\<rparr>"

lemma sample_temp_path: "temp_path ''t'' ''x'' = ''t/upload-x''" "temp_path ''t'' ''y'' = ''t/upload-y''"
  by (simp_all add: temp_path_def join_def clean_def rooted_def render_def clean_elems_def clean_step_def)

lemma two_uploads_inv: "store_inv two_uploads"
  using sample_temp_path by (auto simp: store_inv_def two_uploads_def empty_store_def get_def split: if_splits) metis+

lemma cleanup_exact_witness:
  "get (cleanup_tick 900 two_uploads) ''aa'' = None \<and>
   map_option sf_filename (get (cleanup_tick 900 two_uploads) ''bb'') = Some ''g'' \<and>
   fmlookup (fs_files (st_disk (cleanup_tick 900 two_uploads))) ''t/upload-x'' = None \<and>
   blob (cleanup_tick 900 two_uploads) ''bb'' = Some [2, 3]"
proof -
  have "get two_uploads ''aa'' = Some \<lparr>sf_path = ''t/upload-x'', sf_filename = ''f'', sf_size = 1, sf_created = 0\<rparr>"
    "get two_uploads ''bb'' = Some \<lparr>sf_path = ''t/upload-y'', sf_filename = ''g'', sf_size = 2, sf_created = 800\<rparr>"
    "blob two_uploads ''bb'' = Some [2, 3]" "st_expiry two_uploads = 600" "fs_faults (st_disk two_uploads) = []"
    by (simp_all add: two_uploads_def get_def empty_store_def blob_def)
  then show ?thesis
    using cleanup_exact [OF two_uploads_inv, where now = 900, THEN conjunct2, THEN conjunct1, THEN spec, of "''aa''"]
      cleanup_exact [OF two_uploads_inv, where now = 900, THEN conjunct2, THEN conjunct1, THEN spec, of "''bb''"]
    by simp
qed

text \<open>
  C23: One upload alone makes exactly the steps of \<open>Store\<close>.  But the token is looked up before
  the copy and inserted after it, under separate locks: when two uploads of one token overlap,
  both succeed, the later insertion hides the earlier upload, whose blob stays on the disk
  with no entry that would ever expire it.
\<close>

theorem overlapping_uploads:
  assumes "get s (up_token u) = None" and "up_token v = up_token u" and "up_name v \<noteq> up_name u"
    and "store_copy (up_name u) (up_reader u) s = (Inr (pu, nu), s1)"
    and "store_copy (up_name v) (up_reader v) s1 = (Inr (pv, nv), s2)"
  shows "run_uploads u v [True, True, True] PCheck q s =
      (PDone (Inr (up_token u)), q, store_insert (up_token u) (up_filename u) (pu, nu) (up_now u) s1)
     \<and> (case run_uploads u v [True, False, True, False, True, False] PCheck PCheck s of
         (p, q, s') \<Rightarrow> p = PDone (Inr (up_token u)) \<and> q = PDone (Inr (up_token v)) \<and>
           get s' (up_token u) = Some \<lparr>sf_path = pv, sf_filename = up_filename v, sf_size = nv, sf_created = up_now v\<rparr> \<and>
           pu \<noteq> pv \<and> fmlookup (fs_files (st_disk s')) pu = Some (fst (up_reader u)) \<and>
           (\<forall>t. if t = up_token u then True else get s' t = get s t))"
proof -
  note a = store_copy_Inr [OF assms(4)] and b = store_copy_Inr [OF assms(5)]
  have ne: "pu \<noteq> pv"
  proof
    assume "pu = pv"
    moreover have "fs_exists (st_disk s1) pu" using a by (auto simp: fs_exists_def fmlookup_dom_iff)
    ultimately show False using b by metis
  qed
  have g1: "get s1 = get s" using a by (metis file_store.ext_inject file_store.surjective file_store.update_convs(5) get_def ext)
  have g2: "get s2 = get s1" using b by (metis file_store.ext_inject file_store.surjective file_store.update_convs(5) get_def ext)
  have pu: "fmlookup (fs_files (st_disk s2)) pu = Some (fst (up_reader u))"
    using a b ne by (metis same_except_def singletonD)
  show ?thesis
    using assms ne pu g1 g2
    by (simp add: store_taken_def store_insert_def blobs.look_ins) (simp add: insert_file_def)
qed

theorem overlapping_uploads_witness:
  "let u = \<lparr>up_token = ''aa'', up_filename = ''f'', up_reader = ([1], True), up_name = ''x'', up_now = 0\<rparr>;
       v = \<lparr>up_token = ''aa'', up_filename = ''g'', up_reader = ([2], True), up_name = ''y'', up_now = 0\<rparr>
   in case run_uploads u v [True, False, True, False, True, False] PCheck PCheck empty_store of
        (p, q, s') \<Rightarrow> p = PDone (Inr ''aa'') \<and> q = PDone (Inr ''aa'') \<and>
          map_option sf_filename (get s' ''aa'') = Some ''g'' \<and>
          fmlookup (fs_files (st_disk s')) ''t/upload-x'' = Some [1]"
proof -
  let ?u = "\<lparr>up_token = ''aa'', up_filename = ''f'', up_reader = ([1], True), up_name = ''x'', up_now = 0\<rparr>"
  let ?v = "\<lparr>up_token = ''aa'', up_filename = ''g'', up_reader = ([2], True), up_name = ''y'', up_now = 0\<rparr>"
  have p: "temp_path ''t'' ''x'' = ''t/upload-x''" "temp_path ''t'' ''y'' = ''t/upload-y''"
    by (simp_all add: temp_path_def join_def clean_def rooted_def render_def clean_elems_def clean_step_def)
  let ?s1 = "empty_store\<lparr>st_disk := (st_disk empty_store)\<lparr>fs_files := fmupd ''t/upload-x'' [1]
      (fmupd ''t/upload-x'' [] fmempty)\<rparr>\<rparr>"
  let ?s2 = "?s1\<lparr>st_disk := (st_disk ?s1)\<lparr>fs_files := fmupd ''t/upload-y'' [2]
      (fmupd ''t/upload-y'' [] (fs_files (st_disk ?s1)))\<rparr>\<rparr>"
  have c: "store_copy (up_name ?u) (up_reader ?u) empty_store = (Inr (''t/upload-x'', 1), ?s1)"
      "store_copy (up_name ?v) (up_reader ?v) ?s1 = (Inr (''t/upload-y'', 1), ?s2)"
    by (simp_all add: store_copy_def create_temp_def p fs_exists_def os_create_def os_append_def
        next_fault_none empty_store_def Let_def)
  have "get empty_store (up_token ?u) = None" "up_token ?v = up_token ?u" "up_name ?v \<noteq> up_name ?u"
    by (simp_all add: empty_store_inv)
  from overlapping_uploads [OF this c] show ?thesis
    by (auto simp: Let_def)
qed

end
