(* ===== verification/Rooms.thy ===== *)
theory Rooms
  imports Store
begin

text \<open>
  The WebSocket rooms of \<open>internal/relay/rooms.go\<close> and the handler \<open>handleWebSocket\<close> of
  \<open>internal/relay/server.go\<close> that drives them.  A room is a heap object that handlers keep a
  pointer to while the manager's table may forget it, so the state has both: \<open>mg_table\<close> maps
  tokens to room numbers, \<open>mg_heap\<close> room numbers to rooms.  Connections are numbers; what
  is done to them (messages, close frames, \<open>Close\<close>) is logged.  Handlers run concurrently:
  the step relation \<open>relay_step\<close> interleaves their steps, each one critical section.
\<close>

section \<open>Rooms and their manager\<close>

record room =
  rm_token :: string
  rm_clients :: "nat list"
  rm_activity :: int

record rooms =
  mg_table :: "(string, nat) fmap"
  mg_heap :: "(nat, room) fmap"
  mg_next :: nat
  mg_sent :: "(nat \<times> nat \<times> bytes) list"
  mg_kicked :: "nat list"
  mg_closed :: "nat list"

definition find_room :: "rooms \<Rightarrow> string \<Rightarrow> nat option" where
  "find_room m token = fmlookup (mg_table m) token"

definition put_room :: "string \<Rightarrow> nat \<Rightarrow> rooms \<Rightarrow> rooms" where
  "put_room token rid m = m\<lparr>mg_table := fmupd token rid (mg_table m)\<rparr>"

definition delete_room :: "string \<Rightarrow> rooms \<Rightarrow> rooms" where
  "delete_room token m = m\<lparr>mg_table := fmdrop token (mg_table m)\<rparr>"

interpretation room_table: token_table find_room put_room delete_room
  by unfold_locales (simp_all add: find_room_def put_room_def delete_room_def)

definition clients :: "rooms \<Rightarrow> nat \<Rightarrow> nat list" where
  "clients m rid = (case fmlookup (mg_heap m) rid of None \<Rightarrow> [] | Some r \<Rightarrow> rm_clients r)"

definition set_room :: "nat \<Rightarrow> nat list \<Rightarrow> int \<Rightarrow> rooms \<Rightarrow> rooms" where
  "set_room rid cs now m =
     (case fmlookup (mg_heap m) rid of
        None \<Rightarrow> m
      | Some r \<Rightarrow> m\<lparr>mg_heap := fmupd rid (r\<lparr>rm_clients := cs, rm_activity := now\<rparr>) (mg_heap m)\<rparr>)"

definition activity :: "rooms \<Rightarrow> nat \<Rightarrow> int" where
  "activity m rid = (case fmlookup (mg_heap m) rid of None \<Rightarrow> 0 | Some r \<Rightarrow> rm_activity r)"

definition get_or_create_room :: "string \<Rightarrow> int \<Rightarrow> rooms \<Rightarrow> nat \<times> rooms" where
  "get_or_create_room token now m =
     (case find_room m token of
        Some rid \<Rightarrow> (rid, m)
      | None \<Rightarrow>
          let rid = mg_next m
          in (rid, put_room token rid
                (m\<lparr>mg_heap := fmupd rid \<lparr>rm_token = token, rm_clients = [], rm_activity = now\<rparr> (mg_heap m),
                   mg_next := Suc rid\<rparr>)))"

definition waiting :: "string \<Rightarrow> rooms \<Rightarrow> bool" where
  "waiting token m =
     (case find_room m token of None \<Rightarrow> False | Some rid \<Rightarrow> length (clients m rid) = 1)"

definition active_rooms :: "rooms \<Rightarrow> nat" where
  "active_rooms m = fcard (fmdom (mg_table m))"

definition add_client :: "nat \<Rightarrow> nat \<Rightarrow> int \<Rightarrow> rooms \<Rightarrow> bool \<times> rooms" where
  "add_client rid conn now m =
     (if length (clients m rid) \<ge> 2 then (False, m)
      else (True, set_room rid (clients m rid @ [conn]) now m))"

text \<open>\<open>RemoveClient\<close>: the connection leaves, and a peer left alone is told and closed.\<close>

definition remove_client :: "nat \<Rightarrow> nat \<Rightarrow> rooms \<Rightarrow> rooms" where
  "remove_client rid conn m =
     (let nBefore = length (clients m rid)
      in if conn \<notin> set (clients m rid) then m
         else
           let rest = remove1 conn (clients m rid)
           in if nBefore = 2 \<and> length rest = 1 then
                (let m1 = set_room rid [] (activity m rid) m
                 in m1\<lparr>mg_kicked := mg_kicked m1 @ rest, mg_closed := mg_closed m1 @ rest\<rparr>)
              else set_room rid rest (activity m rid) m)"

text \<open>\<open>Broadcast\<close>; \<open>fails\<close> are the connections whose write fails.\<close>

definition broadcast :: "nat \<Rightarrow> nat \<Rightarrow> bytes \<Rightarrow> (nat \<Rightarrow> bool) \<Rightarrow> int \<Rightarrow> rooms \<Rightarrow> rooms" where
  "broadcast rid sender msg fails now m =
     (let m1 = set_room rid (clients m rid) now m;
          others = filter (\<lambda>c. c \<noteq> sender) (clients m rid)
      in m1\<lparr>mg_sent := mg_sent m1 @ map (\<lambda>c. (sender, c, msg)) (filter (\<lambda>c. \<not> fails c) others),
            mg_closed := mg_closed m1 @ filter fails others\<rparr>)"

text \<open>One tick of \<open>cleanupLoop\<close>: rooms idle for more than ten minutes.\<close>

definition idle_limit :: int where "idle_limit = 10 * 60 * 1000000000"

definition idle :: "int \<Rightarrow> rooms \<Rightarrow> string \<Rightarrow> bool" where
  "idle now m token =
     (case find_room m token of None \<Rightarrow> False | Some rid \<Rightarrow> now - activity m rid > idle_limit)"

definition room_clients :: "rooms \<Rightarrow> string list \<Rightarrow> nat list" where
  "room_clients m ts =
     concat (map (\<lambda>t. case find_room m t of None \<Rightarrow> [] | Some rid \<Rightarrow> clients m rid) ts)"

definition room_tokens :: "rooms \<Rightarrow> string list" where
  "room_tokens m = sorted_list_of_fset (fmdom (mg_table m))"

definition cleanup_rooms :: "int \<Rightarrow> rooms \<Rightarrow> rooms" where
  "cleanup_rooms now m =
     (let out = filter (idle now m) (room_tokens m)
      in foldr delete_room out (m\<lparr>mg_closed := mg_closed m @ room_clients m out\<rparr>))"

definition shutdown_rooms :: "rooms \<Rightarrow> rooms" where
  "shutdown_rooms m = m\<lparr>mg_closed := mg_closed m @ room_clients m (room_tokens m)\<rparr>"

section \<open>Handlers\<close>

text \<open>
  Where a handler is: before the room lookup, before \<open>AddClient\<close>, in the read loop, after a
  read error before the emptiness test, before \<open>DeleteRoom\<close>, before the deferred
  \<open>RemoveClient\<close>, returned.
\<close>

datatype pc = AtLookup | AtAdd nat | InLoop nat | AtCheck nat | AtDelete nat | AtRemove nat | Returned

record handler =
  hd_token :: string
  hd_pc :: pc

record relay =
  rl_rooms :: rooms
  rl_handlers :: "(nat, handler) fmap"

definition goto :: "nat \<Rightarrow> pc \<Rightarrow> relay \<Rightarrow> relay" where
  "goto c p s =
     (case fmlookup (rl_handlers s) c of
        None \<Rightarrow> s
      | Some h \<Rightarrow> s\<lparr>rl_handlers := fmupd c (h\<lparr>hd_pc := p\<rparr>) (rl_handlers s)\<rparr>)"

definition at_pc :: "relay \<Rightarrow> nat \<Rightarrow> string \<Rightarrow> pc \<Rightarrow> bool" where
  "at_pc s c token p = (fmlookup (rl_handlers s) c = Some \<lparr>hd_token = token, hd_pc = p\<rparr>)"

definition with_rooms :: "(rooms \<Rightarrow> rooms) \<Rightarrow> relay \<Rightarrow> relay" where
  "with_rooms f s = s\<lparr>rl_rooms := f (rl_rooms s)\<rparr>"

definition close_conn :: "nat \<Rightarrow> rooms \<Rightarrow> rooms" where
  "close_conn c m = m\<lparr>mg_closed := mg_closed m @ [c]\<rparr>"

inductive relay_step :: "relay \<Rightarrow> relay \<Rightarrow> bool" where
  upgrade: "c |\<notin>| fmdom (rl_handlers s) \<Longrightarrow> token \<noteq> [] \<Longrightarrow>
     relay_step s (s\<lparr>rl_handlers := fmupd c \<lparr>hd_token = token, hd_pc = AtLookup\<rparr> (rl_handlers s)\<rparr>)"
| lookup: "at_pc s c token AtLookup \<Longrightarrow> get_or_create_room token now (rl_rooms s) = (rid, m) \<Longrightarrow>
     relay_step s (goto c (AtAdd rid) (s\<lparr>rl_rooms := m\<rparr>))"
| joined: "at_pc s c token (AtAdd rid) \<Longrightarrow> add_client rid c now (rl_rooms s) = (True, m) \<Longrightarrow>
     relay_step s (goto c (InLoop rid) (s\<lparr>rl_rooms := m\<rparr>))"
| refused: "at_pc s c token (AtAdd rid) \<Longrightarrow> add_client rid c now (rl_rooms s) = (False, m) \<Longrightarrow>
     relay_step s (goto c Returned (s\<lparr>rl_rooms := close_conn c m\<rparr>))"
| message: "at_pc s c token (InLoop rid) \<Longrightarrow>
     relay_step s (with_rooms (broadcast rid c msg fails now) s)"
| read_error: "at_pc s c token (InLoop rid) \<Longrightarrow> relay_step s (goto c (AtCheck rid) s)"
| check: "at_pc s c token (AtCheck rid) \<Longrightarrow>
     relay_step s (goto c (if length (clients (rl_rooms s) rid) = 0 then AtDelete rid else AtRemove rid) s)"
| delete: "at_pc s c token (AtDelete rid) \<Longrightarrow>
     relay_step s (goto c (AtRemove rid) (with_rooms (delete_room token) s))"
| remove: "at_pc s c token (AtRemove rid) \<Longrightarrow>
     relay_step s (goto c Returned (with_rooms (\<lambda>m. close_conn c (remove_client rid c m)) s))"
| tick: "relay_step s (with_rooms (cleanup_rooms now) s)"
| stop: "relay_step s (with_rooms shutdown_rooms s)"

inductive_cases relay_stepE: "relay_step s s'"

text \<open>
  The same steps as a function, to run a schedule: a new connection, the next step of a
  handler (for a handler in its read loop: a read error), a frame, a tick of the cleanup, the
  shutdown of the relay.
\<close>

datatype action = Upgrade nat string | Advance nat int | Frame nat bytes "nat list" int | Tick int | Stop

definition advance :: "nat \<Rightarrow> handler \<Rightarrow> int \<Rightarrow> relay \<Rightarrow> relay option" where
  "advance c h now s =
     (case hd_pc h of
        AtLookup \<Rightarrow>
          (case get_or_create_room (hd_token h) now (rl_rooms s) of
             (rid, m) \<Rightarrow> Some (goto c (AtAdd rid) (s\<lparr>rl_rooms := m\<rparr>)))
      | AtAdd rid \<Rightarrow>
          (case add_client rid c now (rl_rooms s) of
             (True, m) \<Rightarrow> Some (goto c (InLoop rid) (s\<lparr>rl_rooms := m\<rparr>))
           | (False, m) \<Rightarrow> Some (goto c Returned (s\<lparr>rl_rooms := close_conn c m\<rparr>)))
      | InLoop rid \<Rightarrow> Some (goto c (AtCheck rid) s)
      | AtCheck rid \<Rightarrow>
          Some (goto c (if length (clients (rl_rooms s) rid) = 0 then AtDelete rid else AtRemove rid) s)
      | AtDelete rid \<Rightarrow> Some (goto c (AtRemove rid) (with_rooms (delete_room (hd_token h)) s))
      | AtRemove rid \<Rightarrow>
          Some (goto c Returned (with_rooms (\<lambda>m. close_conn c (remove_client rid c m)) s))
      | Returned \<Rightarrow> None)"

fun act :: "action \<Rightarrow> relay \<Rightarrow> relay option" where
  "act (Upgrade c token) s =
     (if fmlookup (rl_handlers s) c \<noteq> None \<or> token = [] then None
      else Some (s\<lparr>rl_handlers := fmupd c \<lparr>hd_token = token, hd_pc = AtLookup\<rparr> (rl_handlers s)\<rparr>))"
| "act (Advance c now) s =
     (case fmlookup (rl_handlers s) c of None \<Rightarrow> None | Some h \<Rightarrow> advance c h now s)"
| "act (Frame c msg failing now) s =
     (case fmlookup (rl_handlers s) c of
        None \<Rightarrow> None
      | Some h \<Rightarrow>
          (case hd_pc h of
             InLoop rid \<Rightarrow> Some (with_rooms (broadcast rid c msg (\<lambda>d. d \<in> set failing) now) s)
           | _ \<Rightarrow> None))"
| "act (Tick now) s = Some (with_rooms (cleanup_rooms now) s)"
| "act Stop s = Some (with_rooms shutdown_rooms s)"

fun run_acts :: "action list \<Rightarrow> relay \<Rightarrow> relay option" where
  "run_acts [] s = Some s"
| "run_acts (a # as) s = (case act a s of None \<Rightarrow> None | Some s' \<Rightarrow> run_acts as s')"

definition empty_rooms :: rooms where
  "empty_rooms =
     \<lparr>mg_table = fmempty, mg_heap = fmempty, mg_next = 0, mg_sent = [], mg_kicked = [], mg_closed = []\<rparr>"

definition relay_init :: relay where
  "relay_init = \<lparr>rl_rooms = empty_rooms, rl_handlers = fmempty\<rparr>"

definition reachable :: "relay \<Rightarrow> bool" where
  "reachable s = relay_step\<^sup>*\<^sup>* relay_init s"

end
