(* ===== verification/Config.thy ===== *)
theory Config
  imports GoStrings
begin

text \<open>
  \<open>internal/relay/config.go\<close>: the relay's configuration from the environment, a function from
  variable names to values (empty when unset).  \<open>time.ParseDuration\<close>, which computes with
  floating point numbers, is an argument that gives nanoseconds or an error.
\<close>

section \<open>Definitions\<close>

record config =
  cf_port :: string
  cf_origins :: "string list"
  cf_any_origin :: bool
  cf_rate_per_min :: int
  cf_log_format :: string
  cf_max_upload :: int
  cf_expiry :: int
  cf_push_token :: string
  cf_push_user :: string

type_synonym env = "string \<Rightarrow> string"

definition getenv :: "env \<Rightarrow> string \<Rightarrow> string \<Rightarrow> string" where
  "getenv E key fallback = (if E key \<noteq> [] then E key else fallback)"

definition getenv_int :: "env \<Rightarrow> string \<Rightarrow> int \<Rightarrow> int" where
  "getenv_int E key fallback =
     (if E key \<noteq> [] then
        (case atoi (E key) of None \<Rightarrow> fallback | Some n \<Rightarrow> if n > 0 then n else fallback)
      else fallback)"

definition getenv_duration :: "(string \<Rightarrow> int option) \<Rightarrow> env \<Rightarrow> string \<Rightarrow> int \<Rightarrow> int" where
  "getenv_duration parse_duration E key fallback =
     (if E key \<noteq> [] then
        (case parse_duration (E key) of None \<Rightarrow> fallback | Some d \<Rightarrow> if d > 0 then d else fallback)
      else fallback)"

definition minute :: int where "minute = 60 * 1000000000"

text \<open>The list of origins: what \<open>LoadConfig\<close> does with \<open>DROP_ALLOWED_ORIGINS\<close>.\<close>

definition load_origins :: "string \<Rightarrow> string list \<times> bool" where
  "load_origins value =
     (let raw = trim_space value
      in if raw = [] then ([], False)
         else if raw = ''*'' then ([], True)
         else (filter (\<lambda>v. v \<noteq> []) (map trim_space (split_on CHR '','' raw)), False))"

definition load_config :: "(string \<Rightarrow> int option) \<Rightarrow> env \<Rightarrow> config" where
  "load_config parse_duration E =
     (let origins = load_origins (E ''DROP_ALLOWED_ORIGINS'')
      in \<lparr>cf_port = getenv E ''PORT'' ''8080'',
          cf_origins = fst origins,
          cf_any_origin = snd origins,
          cf_rate_per_min = getenv_int E ''DROP_RATE_LIMIT_PER_MIN'' 60,
          cf_log_format = getenv E ''DROP_LOG_FORMAT'' ''json'',
          cf_max_upload = to_i64 (push_bit 20 (getenv_int E ''DROP_MAX_UPLOAD_MB'' 500)),
          cf_expiry = getenv_duration parse_duration E ''DROP_FILE_EXPIRY'' (10 * minute),
          cf_push_token = E ''PUSHOVER_TOKEN'',
          cf_push_user = E ''PUSHOVER_USER''\<rparr>)"

section \<open>Facts\<close>

lemma getenv_int_pos: "0 < d \<Longrightarrow> 0 < getenv_int E k d"
  by (simp add: getenv_int_def split: option.split)

lemma getenv_duration_pos: "0 < d \<Longrightarrow> 0 < getenv_duration pd E k d"
  by (simp add: getenv_duration_def split: option.split)

lemma getenv_not_Nil: "d \<noteq> [] \<Longrightarrow> getenv E k d \<noteq> []"
  by (simp add: getenv_def)

lemma shifted_megabytes:
  "0 < n \<Longrightarrow> n < 2 ^ 43 \<Longrightarrow> to_i64 (push_bit 20 n) = n * 1048576"
  by (subst to_i64_id) (simp_all add: push_bit_eq_mult)

text \<open>
  C29: Whatever the environment, the port is not empty, the rate and the expiry are positive,
  and no allowed origin is empty.  The upload limit is the configured number of megabytes
  when that is below 2^43; above, the shift wraps around, and a larger number turns the limit
  into zero, which refuses every upload, or negative.
\<close>

theorem config_bounds:
  fixes pd E
  defines "c \<equiv> load_config pd E" and "mb \<equiv> getenv_int E ''DROP_MAX_UPLOAD_MB'' 500"
  shows "cf_port c \<noteq> [] \<and> 0 < cf_rate_per_min c \<and> 0 < cf_expiry c \<and> [] \<notin> set (cf_origins c) \<and>
     (cf_any_origin c \<longrightarrow> cf_origins c = []) \<and>
     (mb < 2 ^ 43 \<longrightarrow> cf_max_upload c = mb * 1048576 \<and> 0 < cf_max_upload c) \<and>
     cf_max_upload (load_config pd (\<lambda>k. if k = ''DROP_MAX_UPLOAD_MB'' then ''17592186044416'' else [])) = 0"
proof -
  have mb: "0 < mb" unfolding mb_def by (rule getenv_int_pos) simp
  have "atoi ''17592186044416'' = Some 17592186044416"
    by (simp add: atoi_def digits_value_def is_digit_def Let_def)
  then have "cf_max_upload (load_config pd (\<lambda>k. if k = ''DROP_MAX_UPLOAD_MB'' then ''17592186044416'' else [])) = 0"
    by (simp add: load_config_def Let_def getenv_int_def to_i64_def push_bit_eq_mult word_of_int_eq_0_iff)
  moreover have "cf_max_upload c = mb * 1048576 \<and> 0 < cf_max_upload c" if "mb < 2 ^ 43"
    using that mb shifted_megabytes [of mb] by (simp add: c_def mb_def load_config_def Let_def)
  moreover have "[] \<notin> set (cf_origins c)" "cf_any_origin c \<Longrightarrow> cf_origins c = []"
    by (auto simp: c_def load_config_def load_origins_def Let_def split: if_splits)
  moreover have "cf_port c \<noteq> []" "0 < cf_rate_per_min c" "0 < cf_expiry c"
    by (simp_all add: c_def load_config_def Let_def getenv_int_pos getenv_duration_pos getenv_not_Nil minute_def)
  ultimately show ?thesis by blast
qed

theorem config_bounds_witness:
  "cf_max_upload (load_config (\<lambda>_. None) (\<lambda>_. [])) = 500 * 1048576 \<and>
   0 < cf_rate_per_min (load_config (\<lambda>_. None) (\<lambda>_. []))"
  using config_bounds [of "\<lambda>_. None" "\<lambda>_. []"] by (simp add: getenv_int_def)

end
