(* ===== verification/Middleware.thy ===== *)
theory Middleware
  imports Config
begin

text \<open>
  \<open>internal/relay/middleware.go\<close>: the rate limiter per client address, the address a request
  is counted under, and the origin check of the WebSocket upgrade.  A limiter of
  \<open>golang.org/x/time/rate\<close> is a value of a type parameter, with its constructor (given the
  requests per minute) and its \<open>Allow\<close> as arguments; \<open>url.Parse\<close> and case folding outside
  ASCII are arguments.  Times are nanoseconds.
\<close>

section \<open>The limiter\<close>

record 'l ip_limiter =
  il_clients :: "(string, 'l) fmap"
  il_per_min :: int
  il_cleanup :: "int option"
  il_ttl :: int

definition new_ip_limiter :: "int \<Rightarrow> 'l ip_limiter" where
  "new_ip_limiter perMin =
     \<lparr>il_clients = fmempty, il_per_min = perMin, il_cleanup = None, il_ttl = 10 * minute\<rparr>"

text \<open>The zero time, \<open>None\<close>, is longer ago than any duration.\<close>

definition flush_due :: "int \<Rightarrow> 'l ip_limiter \<Rightarrow> bool" where
  "flush_due now il = (case il_cleanup il of None \<Rightarrow> True | Some t \<Rightarrow> now - t > il_ttl il)"

definition flushed :: "int \<Rightarrow> 'l ip_limiter \<Rightarrow> 'l ip_limiter" where
  "flushed now il =
     (if flush_due now il then il\<lparr>il_clients := fmempty, il_cleanup := Some now\<rparr> else il)"

definition limiter_of :: "(int \<Rightarrow> 'l) \<Rightarrow> string \<Rightarrow> 'l ip_limiter \<Rightarrow> 'l" where
  "limiter_of new_limiter ip il =
     (case fmlookup (il_clients il) ip of None \<Rightarrow> new_limiter (il_per_min il) | Some l \<Rightarrow> l)"

definition allow ::
  "(int \<Rightarrow> 'l) \<Rightarrow> (int \<Rightarrow> 'l \<Rightarrow> bool \<times> 'l) \<Rightarrow> string \<Rightarrow> int \<Rightarrow> 'l ip_limiter \<Rightarrow> bool \<times> 'l ip_limiter" where
  "allow new_limiter lim_allow ip now il =
     (let il1 = flushed now il
      in case lim_allow now (limiter_of new_limiter ip il1) of
           (ok, l) \<Rightarrow> (ok, il1\<lparr>il_clients := fmupd ip l (il_clients il1)\<rparr>))"

section \<open>The address of a request\<close>

text \<open>What the handlers read of an \<open>http.Request\<close>.\<close>

record http_request =
  rq_method :: string
  rq_header :: "string \<Rightarrow> string"
  rq_remote :: string
  rq_host :: string
  rq_tls :: bool
  rq_path :: string
  rq_token :: string

text \<open>The host part of \<open>net.SplitHostPort\<close>; \<open>None\<close> is its error.\<close>

definition before_last :: "char \<Rightarrow> string \<Rightarrow> string" where
  "before_last c s = rev (tl (dropWhile (\<lambda>x. x \<noteq> c) (rev s)))"

definition split_host :: "string \<Rightarrow> string option" where
  "split_host s =
     (if CHR '':'' \<notin> set s then None
      else if take 1 s = ''['' then
        (if CHR '']'' \<notin> set s then None
         else let host = takeWhile (\<lambda>x. x \<noteq> CHR '']'') (drop 1 s);
                  rest = drop 1 (dropWhile (\<lambda>x. x \<noteq> CHR '']'') s)
              in if take 1 rest \<noteq> '':'' \<or> CHR '':'' \<in> set (drop 1 rest) then None
                 else if CHR ''['' \<in> set (drop 1 s) \<or> CHR '']'' \<in> set rest then None
                 else Some host)
      else let host = before_last CHR '':'' s
           in if CHR '':'' \<in> set host \<or> CHR ''['' \<in> set s \<or> CHR '']'' \<in> set s then None
              else Some host)"

definition client_ip :: "http_request \<Rightarrow> string" where
  "client_ip r =
     (let cf = rq_header r ''Cf-Connecting-Ip''; xff = rq_header r ''X-Forwarded-For''
      in if cf \<noteq> [] then cf
         else if xff \<noteq> [] then
           (case cut CHR '','' xff of Some (before, _) \<Rightarrow> trim_space before | None \<Rightarrow> trim_space xff)
         else case split_host (rq_remote r) of None \<Rightarrow> rq_remote r | Some host \<Rightarrow> host)"

section \<open>The origin check\<close>

definition equal_fold :: "(string \<Rightarrow> string \<Rightarrow> bool) \<Rightarrow> string \<Rightarrow> string \<Rightarrow> bool" where
  "equal_fold unicode_fold a b =
     (if is_ascii a \<and> is_ascii b then map lower_char a = map lower_char b else unicode_fold a b)"

definition to_lower :: "(string \<Rightarrow> string) \<Rightarrow> string \<Rightarrow> string" where
  "to_lower unicode_lower s = (if is_ascii s then map lower_char s else unicode_lower s)"

record url_lib =
  ul_parse :: "string \<Rightarrow> (string \<times> string) option"
  ul_fold :: "string \<Rightarrow> string \<Rightarrow> bool"
  ul_lower :: "string \<Rightarrow> string"

definition check_origin :: "url_lib \<Rightarrow> config \<Rightarrow> http_request \<Rightarrow> bool" where
  "check_origin U cfg r =
     (if cf_any_origin cfg then True
      else let origin = rq_header r ''Origin''
      in if origin = [] then True
      else case ul_parse U origin of
        None \<Rightarrow> False
      | Some (scheme, host) \<Rightarrow>
          if equal_fold (ul_fold U) host (rq_host r) then True
          else list_ex (equal_fold (ul_fold U) (to_lower (ul_lower U) (scheme @ ''://'' @ host))) (cf_origins cfg))"

section \<open>Facts\<close>

lemma flushed_keeps: "\<not> flush_due now il \<Longrightarrow> flushed now il = il"
  by (simp add: flushed_def)

lemma equal_fold_refl_ascii: "is_ascii s \<Longrightarrow> equal_fold f s s"
  by (simp add: equal_fold_def)

text \<open>A page of another host is accepted only if its origin is listed.\<close>

lemma check_origin_foreign:
  assumes "check_origin U cfg r" and "\<not> cf_any_origin cfg" and "rq_header r ''Origin'' \<noteq> []"
  obtains scheme host where "ul_parse U (rq_header r ''Origin'') = Some (scheme, host)"
    and "equal_fold (ul_fold U) host (rq_host r) \<or>
      (\<exists>x \<in> set (cf_origins cfg). equal_fold (ul_fold U) (to_lower (ul_lower U) (scheme @ ''://'' @ host)) x)"
  using assms by (auto simp: check_origin_def list_ex_iff Let_def split: option.splits if_splits)

section \<open>Sequences of requests\<close>

fun run_limiter ::
  "(int \<Rightarrow> 'l) \<Rightarrow> (int \<Rightarrow> 'l \<Rightarrow> bool \<times> 'l) \<Rightarrow> (string \<times> int) list \<Rightarrow> 'l ip_limiter \<Rightarrow> (string \<times> bool) list" where
  "run_limiter new_limiter lim_allow [] il = []"
| "run_limiter new_limiter lim_allow ((ip, now) # rs) il =
     (case allow new_limiter lim_allow ip now il of
        (ok, il1) \<Rightarrow> (ip, ok) # run_limiter new_limiter lim_allow rs il1)"

text \<open>The reference: one limiter of the library, asked at the given times.\<close>

fun run_own :: "(int \<Rightarrow> 'l \<Rightarrow> bool \<times> 'l) \<Rightarrow> int list \<Rightarrow> 'l \<Rightarrow> bool list" where
  "run_own lim_allow [] l = []"
| "run_own lim_allow (now # ts) l =
     (case lim_allow now l of (ok, l1) \<Rightarrow> ok # run_own lim_allow ts l1)"

definition answers :: "string \<Rightarrow> (string \<times> bool) list \<Rightarrow> bool list" where
  "answers ip rs = map snd (filter (\<lambda>(i, _). i = ip) rs)"

definition times_of :: "string \<Rightarrow> (string \<times> int) list \<Rightarrow> int list" where
  "times_of ip rs = map snd (filter (\<lambda>(i, _). i = ip) rs)"

lemma run_limiter_own:
  assumes "il_cleanup il = Some start" and "\<forall>(i, t) \<in> set rs. t - start \<le> il_ttl il"
  shows "answers ip (run_limiter new_limiter lim_allow rs il) =
     run_own lim_allow (times_of ip rs) (limiter_of new_limiter ip il)"
  using assms
proof (induction rs arbitrary: il)
  case (Cons r rs)
  obtain i now where r: "r = (i, now)" by fastforce
  obtain ok l where a: "lim_allow now (limiter_of new_limiter i il) = (ok, l)" by fastforce
  let ?il = "il\<lparr>il_clients := fmupd i l (il_clients il)\<rparr>"
  have "flushed now il = il"
    using Cons.prems r by (intro flushed_keeps) (simp add: flush_due_def)
  then have al: "allow new_limiter lim_allow i now il = (ok, ?il)"
    by (simp add: allow_def a Let_def)
  have "limiter_of new_limiter ip ?il = (if ip = i then l else limiter_of new_limiter ip il)"
    by (simp add: limiter_of_def split: option.split)
  with Cons.IH [of ?il] Cons.prems al a show ?case
    by (auto simp: r answers_def times_of_def)
qed (simp add: answers_def times_of_def)

text \<open>
  C30: Within one cleanup window the answers that an address gets are those of a limiter of its
  own that never sees the others' requests; and the first request, like any that comes after
  the window, forgets every address, so that all start with a fresh limiter.
\<close>

theorem limiter_per_address:
  assumes "flush_due start il" and "\<forall>(i, t) \<in> set rs. t - start \<le> il_ttl il"
  shows "answers ip (run_limiter new_limiter lim_allow ((who, start) # rs) il) =
     run_own lim_allow (times_of ip ((who, start) # rs)) (new_limiter (il_per_min il))"
proof -
  obtain ok l where a: "lim_allow start (new_limiter (il_per_min il)) = (ok, l)" by fastforce
  let ?il = "il\<lparr>il_clients := fmupd who l fmempty, il_cleanup := Some start\<rparr>"
  have al: "allow new_limiter lim_allow who start il = (ok, ?il)"
    using assms(1) a by (simp add: allow_def flushed_def limiter_of_def Let_def)
  have "answers ip (run_limiter new_limiter lim_allow rs ?il) =
     run_own lim_allow (times_of ip rs) (limiter_of new_limiter ip ?il)"
    by (rule run_limiter_own) (use assms in simp_all)
  moreover have "limiter_of new_limiter ip ?il = (if ip = who then l else new_limiter (il_per_min il))"
    by (simp add: limiter_of_def)
  ultimately show ?thesis
    using al a by (auto simp: answers_def times_of_def)
qed

text \<open>The witness: a limiter that allows two requests in all.\<close>

theorem limiter_per_address_witness:
  "answers ''a'' (run_limiter (\<lambda>_. 2) (\<lambda>_ n. (0 < n, n - (1 :: int)))
      [(''a'', 5), (''b'', 6), (''b'', 7), (''b'', 8), (''a'', 9), (''a'', 10)] (new_ip_limiter 60)) = [True, True, False]"
  using limiter_per_address [where ip = "''a''" and il = "new_ip_limiter 60" and start = 5 and who = "''a''"
      and rs = "[(''b'', 6), (''b'', 7), (''b'', 8), (''a'', 9), (''a'', 10)]"
      and new_limiter = "\<lambda>_. 2" and lim_allow = "\<lambda>_ n. (0 < n, n - (1 :: int))"]
  by (simp add: new_ip_limiter_def flush_due_def times_of_def minute_def)

end
