(* ===== verification/Server.thy ===== *)
theory Server
  imports Rooms Passphrase Middleware Protocol
begin

text \<open>
  The HTTP side of the relay: \<open>internal/relay/server.go\<close> (all handlers but the WebSocket one,
  which is in the theory \<open>Rooms\<close>) and \<open>metrics.go\<close>.  A handler takes a request and the
  server's state and returns the response and the new state.  Requests come parsed: path
  values, headers, and the multipart form of an upload.  Logging and push notifications are
  left out.
\<close>

section \<open>State and messages\<close>

record 'l server =
  sv_cfg :: config
  sv_version :: string
  sv_started :: int
  sv_store :: file_store
  sv_rooms :: rooms
  sv_limiter :: "'l ip_limiter"
  sv_uploads :: int
  sv_upload_bytes :: int
  sv_downloads :: int
  sv_download_bytes :: int
  sv_ws_connections :: int
  sv_rate_limited :: int

text \<open>
  An upload: the length of the whole body, the field \<open>file\<close> (its name and what reading it
  gives) and the field \<open>token\<close>, empty when missing.
\<close>

record upload_request = http_request +
  up_body_len :: int
  up_file :: "(string \<times> bytes \<times> bool) option"
  up_client_token :: string

datatype body =
    ErrorText string
  | UploadReply string string
  | RawBytes bytes
  | NoBody
  | WaitingReply bool
  | HealthReply "(string \<times> string) list" "(string \<times> int) list"
  | Page string
  | PlainText string

record response =
  rs_status :: int
  rs_body :: body

definition reply :: "int \<Rightarrow> body \<Rightarrow> response" where
  "reply status b = \<lparr>rs_status = status, rs_body = b\<rparr>"

section \<open>Handlers\<close>

text \<open>\<open>http.MaxBytesReader\<close> and \<open>FormFile\<close>: the form is read to its end before anything else.\<close>

definition form_file :: "int \<Rightarrow> upload_request \<Rightarrow> (string \<times> bytes \<times> bool) option" where
  "form_file limit r = (if up_body_len r > max 0 limit then None else up_file r)"

definition handle_upload_file ::
  "bytes \<Rightarrow> string \<Rightarrow> int \<Rightarrow> upload_request \<Rightarrow> 'l server \<Rightarrow> response \<times> 'l server" where
  "handle_upload_file rndToken rndName now r s =
     (case form_file (cf_max_upload (sv_cfg s)) r of
        None \<Rightarrow> (reply 400 (ErrorText ''upload failed''), s)
      | Some (filename, reader) \<Rightarrow>
          if up_client_token r \<noteq> [] \<and> \<not> valid_token (up_client_token r) then
            (reply 400 (ErrorText ''invalid token format''), s)
          else
            (case store filename reader (up_client_token r) rndToken rndName now (sv_store s) of
               (Inl TokenExists, st) \<Rightarrow> (reply 409 (ErrorText ''token conflict''), s\<lparr>sv_store := st\<rparr>)
             | (Inl _, st) \<Rightarrow> (reply 500 (ErrorText ''storage failed''), s\<lparr>sv_store := st\<rparr>)
             | (Inr token, st) \<Rightarrow>
                 let s1 = s\<lparr>sv_store := st\<rparr>;
                     s2 = (case get st token of
                             None \<Rightarrow> s1
                           | Some sf \<Rightarrow> s1\<lparr>sv_uploads := sv_uploads s1 + 1,
                                          sv_upload_bytes := sv_upload_bytes s1 + sf_size sf\<rparr>)
                 in (reply 200 (UploadReply token filename), s2)))"

text \<open>\<open>http.ServeContent\<close> for a request without range or condition headers.\<close>

definition handle_raw_download :: "http_request \<Rightarrow> 'l server \<Rightarrow> response \<times> 'l server" where
  "handle_raw_download r s =
     (if rq_token r = [] then (reply 400 (ErrorText ''missing token''), s)
      else case get (sv_store s) (rq_token r) of
        None \<Rightarrow> (reply 404 (ErrorText ''not found or expired''), s)
      | Some sf \<Rightarrow>
          (case os_open (sf_path sf) (st_disk (sv_store s)) of
             (Inr (Some content), fs) \<Rightarrow>
               let s1 = s\<lparr>sv_store := (sv_store s)\<lparr>st_disk := fs\<rparr>\<rparr>
               in if rq_method r = ''HEAD'' then (reply 200 NoBody, s1)
                  else (reply 200 (RawBytes content),
                        s1\<lparr>sv_downloads := sv_downloads s1 + 1,
                           sv_download_bytes := sv_download_bytes s1 + sf_size sf\<rparr>)
           | (_, fs) \<Rightarrow>
               (reply 500 (ErrorText ''file unavailable''), s\<lparr>sv_store := (sv_store s)\<lparr>st_disk := fs\<rparr>\<rparr>)))"

text \<open>The embedded pages are a function from names to contents.\<close>

type_synonym pages = "string \<Rightarrow> string option"

definition write_static :: "pages \<Rightarrow> string \<Rightarrow> response" where
  "write_static pages name =
     (case pages name of None \<Rightarrow> reply 404 (ErrorText ''page not found'') | Some c \<Rightarrow> reply 200 (Page c))"

definition handle_download_page :: "pages \<Rightarrow> http_request \<Rightarrow> response" where
  "handle_download_page pages r =
     (if rq_token r = [] then reply 400 (ErrorText ''missing token'') else write_static pages ''download.html'')"

definition handle_upload_page :: "pages \<Rightarrow> http_request \<Rightarrow> response" where
  "handle_upload_page pages r =
     (if rq_token r = [] then reply 400 (ErrorText ''missing token'') else write_static pages ''sender.html'')"

definition handle_live_receive_page :: "pages \<Rightarrow> http_request \<Rightarrow> response" where
  "handle_live_receive_page pages r =
     (if rq_token r = [] \<or> \<not> valid_token (rq_token r) then reply 400 (ErrorText ''invalid token'')
      else write_static pages ''live-receive.html'')"

definition handle_landing_page :: "pages \<Rightarrow> http_request \<Rightarrow> response" where
  "handle_landing_page site r =
     (if rq_path r \<noteq> ''/'' then reply 404 (ErrorText ''404 page not found'') else write_static site ''index.html'')"

definition handle_install :: "pages \<Rightarrow> http_request \<Rightarrow> response" where
  "handle_install pages r =
     (case pages ''install.sh'' of
        None \<Rightarrow> reply 404 (ErrorText ''not found'')
      | Some content \<Rightarrow>
          let proto = rq_header r ''X-Forwarded-Proto'';
              scheme = (if proto \<noteq> [] then proto else if rq_tls r then ''https'' else ''http'')
          in reply 200 (PlainText (replace_first ''__RELAY_URL__'' (scheme @ ''://'' @ rq_host r) content)))"

definition handle_room_status :: "http_request \<Rightarrow> 'l server \<Rightarrow> response" where
  "handle_room_status r s =
     (if \<not> valid_token (rq_token r) then reply 400 (ErrorText ''invalid token'')
      else reply 200 (WaitingReply (waiting (rq_token r) (sv_rooms s))))"

text \<open>Seconds of a duration are computed in floating point: an argument.\<close>

definition handle_health :: "(int \<Rightarrow> int) \<Rightarrow> int \<Rightarrow> 'l server \<Rightarrow> response" where
  "handle_health seconds now s =
     reply 200 (HealthReply [(''status'', ''ok''), (''version'', sv_version s)]
       [(''uptime_seconds'', seconds (now - sv_started s)),
        (''active_files'', fst (stats (sv_store s))),
        (''active_bytes'', snd (stats (sv_store s))),
        (''active_ws_rooms'', int (active_rooms (sv_rooms s))),
        (''protocol_version'', uint ProtocolVersion),
        (''max_upload_bytes'', cf_max_upload (sv_cfg s)),
        (''expiry_seconds'', seconds (cf_expiry (sv_cfg s)))])"

definition rate_limit ::
  "(int \<Rightarrow> 'l) \<Rightarrow> (int \<Rightarrow> 'l \<Rightarrow> bool \<times> 'l) \<Rightarrow> int \<Rightarrow> http_request \<Rightarrow>
     ('l server \<Rightarrow> response \<times> 'l server) \<Rightarrow> 'l server \<Rightarrow> response \<times> 'l server" where
  "rate_limit new_limiter lim_allow now r next_handler s =
     (case allow new_limiter lim_allow (client_ip r) now (sv_limiter s) of
        (ok, il) \<Rightarrow>
          let s1 = s\<lparr>sv_limiter := il\<rparr>
          in if \<not> ok then (reply 429 (ErrorText ''rate limited''), s1\<lparr>sv_rate_limited := sv_rate_limited s1 + 1\<rparr>)
             else next_handler s1)"

section \<open>Metrics\<close>

definition newline :: string where "newline = [char_of (10 :: nat)]"

definition itoa_int :: "int \<Rightarrow> string" where
  "itoa_int n = (if n < 0 then ''-'' @ itoa (nat (- n)) else itoa (nat n))"

definition metric :: "string \<Rightarrow> string \<Rightarrow> string \<Rightarrow> int \<Rightarrow> string" where
  "metric kind name help_text v =
     ''# HELP '' @ name @ '' '' @ help_text @ newline @ ''# TYPE '' @ name @ '' '' @ kind @ newline @
     name @ '' '' @ itoa_int v @ newline"

text \<open>\<open>quote\<close> is the verb \<open>%q\<close> on the version.\<close>

definition handle_metrics :: "(string \<Rightarrow> string) \<Rightarrow> (int \<Rightarrow> int) \<Rightarrow> int \<Rightarrow> 'l server \<Rightarrow> response" where
  "handle_metrics quote seconds now s =
     reply 200 (PlainText (
       ''# HELP drop_build_info Build metadata.'' @ newline @ ''# TYPE drop_build_info gauge'' @ newline @
       ''drop_build_info{version='' @ quote (sv_version s) @ '',protocol='' @ [char_of (34 :: nat)] @
       itoa_int (uint ProtocolVersion) @ [char_of (34 :: nat)] @ ''} 1'' @ newline @
       metric ''gauge'' ''drop_uptime_seconds'' ''Seconds since the relay started.'' (seconds (now - sv_started s)) @
       metric ''gauge'' ''drop_active_files'' ''Mailbox blobs currently held.'' (fst (stats (sv_store s))) @
       metric ''gauge'' ''drop_active_file_bytes'' ''Total bytes of mailbox blobs currently held.'' (snd (stats (sv_store s))) @
       metric ''gauge'' ''drop_active_ws_rooms'' ''Live WebSocket rooms.'' (int (active_rooms (sv_rooms s))) @
       metric ''counter'' ''drop_uploads_total'' ''Mailbox uploads accepted.'' (sv_uploads s) @
       metric ''counter'' ''drop_upload_bytes_total'' ''Bytes accepted into the mailbox.'' (sv_upload_bytes s) @
       metric ''counter'' ''drop_downloads_total'' ''Mailbox downloads served.'' (sv_downloads s) @
       metric ''counter'' ''drop_download_bytes_total'' ''Bytes served from the mailbox.'' (sv_download_bytes s) @
       metric ''counter'' ''drop_ws_connections_total'' ''WebSocket clients that joined a room.'' (sv_ws_connections s) @
       metric ''counter'' ''drop_rate_limited_total'' ''Requests rejected by the per-IP rate limit.'' (sv_rate_limited s) @
       metric ''counter'' ''drop_expired_files_total'' ''Mailbox blobs deleted by expiry.'' (st_expired_total (sv_store s))))"

section \<open>What a download serves\<close>

lemma get_disk [simp]: "get (s\<lparr>st_disk := fs\<rparr>) = get s"
  by (simp add: get_def fun_eq_iff)

lemma stored_token: "length rt = 8 \<Longrightarrow> ct = [] \<or> valid_token ct \<Longrightarrow> valid_token (store_token ct rt)"
  by (auto simp: store_token_def gen_token_def hex_token)

lemma valid_token_not_Nil: "valid_token t \<Longrightarrow> t \<noteq> []"
  by (auto simp: valid_token_def)

text \<open>Without disk faults, what a download answers is decided by the blob of the token.\<close>

lemma raw_download:
  assumes "store_inv (sv_store s)" and "fs_faults (st_disk (sv_store s)) = []"
  shows "fst (handle_raw_download r s) =
     (if rq_token r = [] then reply 400 (ErrorText ''missing token'')
      else case blob (sv_store s) (rq_token r) of
        None \<Rightarrow> reply 404 (ErrorText ''not found or expired'')
      | Some c \<Rightarrow> reply 200 (if rq_method r = ''HEAD'' then NoBody else RawBytes c))"
proof (cases "get (sv_store s) (rq_token r)")
  case (Some f)
  then obtain c where "fmlookup (fs_files (st_disk (sv_store s))) (sf_path f) = Some c"
    using store_inv_file [OF assms(1)] by blast
  with Some assms(2) show ?thesis
    by (auto simp: handle_raw_download_def blob_def os_open_def next_fault_none Let_def)
qed (simp add: handle_raw_download_def blob_def)

lemma raw_download_store:
  assumes "fs_faults (st_disk (sv_store s)) = []"
  shows "sv_store (snd (handle_raw_download r s)) = sv_store s"
  using assms by (auto simp: handle_raw_download_def os_open_def next_fault_none Let_def split: option.split)

lemma store_no_faults:
  assumes "fs_faults (st_disk s) = []"
  shows "fs_faults (st_disk (snd (store f r ct rt rn now s))) = []"
  using assms
  by (auto simp: store_def store_copy_def store_insert_def insert_file_def create_temp_def os_create_def
      os_append_def os_remove_def next_fault_none Let_def split: prod.splits sum.splits option.splits)

section \<open>Properties\<close>

text \<open>
  C26: Every outcome of an upload, with any faults of the disk: it is accepted exactly when the
  answer is 200, and then the token has the format the relay demands, was free, and now holds
  exactly the uploaded bytes, counted once; a body over the limit, a missing file or a
  malformed token is answered 400 before the store is touched; 409 is answered exactly when
  the token is taken; and no outcome changes or removes what is stored under another token.
\<close>

theorem upload_outcomes:
  assumes "store_inv (sv_store s)" and "length rndToken = 8"
  shows "case handle_upload_file rndToken rndName now u s of (resp, s') \<Rightarrow>
     store_inv (sv_store s') \<and>
     (case rs_body resp of
        UploadReply token filename \<Rightarrow>
          rs_status resp = 200 \<and> valid_token token \<and> get (sv_store s) token = None \<and>
          up_body_len u \<le> max 0 (cf_max_upload (sv_cfg s)) \<and>
          map_option fst (up_file u) = Some filename \<and>
          blob (sv_store s') token = map_option (fst \<circ> snd) (up_file u) \<and>
          sv_uploads s' = sv_uploads s + 1 \<and>
          (\<forall>t. if t = token then True else get (sv_store s') t = get (sv_store s) t \<and>
             blob (sv_store s') t = blob (sv_store s) t)
      | _ \<Rightarrow>
          rs_status resp \<in> {400, 409, 500} \<and> get (sv_store s') = get (sv_store s) \<and>
          blob (sv_store s') = blob (sv_store s) \<and>
          (rs_status resp = 400) = (form_file (cf_max_upload (sv_cfg s)) u = None \<or>
             up_client_token u \<noteq> [] \<and> \<not> valid_token (up_client_token u)) \<and>
          (rs_status resp = 409) = (rs_status resp \<noteq> 400 \<and>
             get (sv_store s) (store_token (up_client_token u) rndToken) \<noteq> None))"
proof (cases "form_file (cf_max_upload (sv_cfg s)) u")
  case None
  then show ?thesis using assms by (simp add: handle_upload_file_def reply_def)
next
  case (Some fr)
  obtain fname reader where fr: "fr = (fname, reader)" by (rule prod.exhaust)
  show ?thesis
  proof (cases "up_client_token u \<noteq> [] \<and> \<not> valid_token (up_client_token u)")
    case True
    with Some fr assms show ?thesis by (simp add: handle_upload_file_def reply_def)
  next
    case False
    obtain x st where run: "store fname reader (up_client_token u) rndToken rndName now (sv_store s) = (x, st)"
      by fastforce
    show ?thesis
    proof (cases x)
      case (Inl e)
      have "(e = TokenExists) = (get (sv_store s) (store_token (up_client_token u) rndToken) \<noteq> None)"
        using run Inl by (auto simp: store_def store_taken_def store_copy_def Let_def
            split: if_splits prod.splits sum.splits)
      with Some False run Inl fr store_err [OF _ assms(1)] show ?thesis
        by (cases e) (auto simp: handle_upload_file_def reply_def)
    next
      case (Inr token)
      have t: "token = store_token (up_client_token u) rndToken" 
        using run Inr by (auto simp: store_def Let_def split: if_splits prod.splits sum.splits)
      have b: "up_body_len u \<le> max 0 (cf_max_upload (sv_cfg s))" "up_file u = Some (fname, reader)"
        using Some fr by (auto simp: form_file_def split: if_splits)
      have v: "valid_token token"
        unfolding t by (rule stored_token) (use False assms(2) in auto)
      from store_ok [OF _ assms(1)] run Inr have "get (sv_store s) token = None" "store_inv st"
          "blob st token = Some (fst reader)" "get st token \<noteq> None"
          "\<forall>t. t \<noteq> token \<longrightarrow> get st t = get (sv_store s) t \<and> blob st t = blob (sv_store s) t"
        by blast+
      with Some False run Inr fr b v show ?thesis
        by (auto simp: handle_upload_file_def reply_def)
    qed
  qed
qed

text \<open>The witness: an upload to a relay that holds nothing.\<close>

definition empty_server :: "int server" where
  "empty_server =
     \<lparr>sv_cfg = load_config (\<lambda>_. None) (\<lambda>_. []), sv_version = ''dev'', sv_started = 0, sv_store = empty_store,
      sv_rooms = empty_rooms, sv_limiter = new_ip_limiter 60, sv_uploads = 0, sv_upload_bytes = 0,
      sv_downloads = 0, sv_download_bytes = 0, sv_ws_connections = 0, sv_rate_limited = 0\<rparr>"

lemma empty_server_limit: "cf_max_upload (sv_cfg empty_server) = 524288000"
  by (simp add: empty_server_def load_config_def getenv_int_def to_i64_id Let_def)

lemma valid_derived: "valid_token (derive_token uc phrase)"
  by (simp add: derive_token_def hex_token)

lemma store_on_empty:
  assumes "valid_token t"
  shows "\<exists>st. store filename (c, True) t rt rn now empty_store = (Inr t, st)"
proof -
  have "\<not> fs_exists (st_disk empty_store) p" for p
    by (simp add: empty_store_def fs_exists_def)
  then show ?thesis
    using empty_store_inv(2) [of t] empty_store_inv(3) valid_token_not_Nil [OF assms]
    by (simp add: store_def store_token_def store_taken_def store_copy_def create_temp_def os_create_def
        os_append_def next_fault_none empty_store_def Let_def)
qed

definition sample_upload :: upload_request where
  "sample_upload =
     \<lparr>rq_method = ''POST'', rq_header = (\<lambda>_. []), rq_remote = [], rq_host = [], rq_tls = True, rq_path = ''/upload'',
      rq_token = [], up_body_len = 9, up_file = Some (''f'', [1, 2], True), up_client_token = ''0123456789abcdef''\<rparr>"

theorem upload_outcomes_witness:
  "case handle_upload_file (replicate 8 1) ''x'' 5 sample_upload empty_server of (resp, s') \<Rightarrow>
     resp = reply 200 (UploadReply ''0123456789abcdef'' ''f'') \<and> store_inv (sv_store s') \<and>
     blob (sv_store s') ''0123456789abcdef'' = Some [1, 2] \<and> sv_uploads s' = 1"
proof -
  have v: "valid_token ''0123456789abcdef''" by (simp add: valid_token_def hex_digits_def)
  obtain st where "store ''f'' ([1, 2], True) ''0123456789abcdef'' (replicate 8 1) ''x'' 5 empty_store =
      (Inr ''0123456789abcdef'', st)"
    using store_on_empty [OF v] by blast
  then have r: "fst (handle_upload_file (replicate 8 1) ''x'' 5 sample_upload empty_server) =
      reply 200 (UploadReply ''0123456789abcdef'' ''f'')"
    using v empty_server_limit
    by (simp add: handle_upload_file_def form_file_def sample_upload_def empty_server_def Let_def)
  have "store_inv (sv_store empty_server)" by (simp add: empty_server_def empty_store_inv)
  from upload_outcomes [OF this, where rndToken = "replicate 8 1" and rndName = "''x''" and now = 5
      and u = sample_upload] r show ?thesis
    by (cases "handle_upload_file (replicate 8 1) ''x'' 5 sample_upload empty_server")
      (simp add: reply_def sample_upload_def empty_server_def)
qed

end
