(* ===== verification/MailboxClient.thy ===== *)
theory MailboxClient
  imports Mailbox Naming Crypto Passphrase Server
begin

text \<open>
  The mailbox commands of \<open>cmd/drop\<close>: packing, encrypting and uploading files
  (\<open>send.go\<close>, \<open>client.go\<close>) and fetching, decrypting and saving them (\<open>download.go\<close>).  The
  network is a function: \<open>post\<close> takes an upload to a response, \<open>fetch\<close> a method and a token,
  each with the state behind it; \<open>None\<close> is a transport error.  What is printed is left out.
\<close>

section \<open>The client's errors and network\<close>

datatype client_error =
    ReadFailed path os_error
  | NothingToSend
  | PackFailed mailbox_error
  | EncryptFailed crypto_error
  | UploadFailed
  | UploadRejected int body
  | RelayUnreachable
  | ServerError int
  | FetchFailed
  | DecryptFailed crypto_error
  | InvalidPayload mailbox_error
  | UnsafeName string name_error
  | SaveDiverges
  | SaveFailed os_error

type_synonym 's post = "upload_request \<Rightarrow> 's \<Rightarrow> response option \<times> 's"
type_synonym 's fetch = "string \<Rightarrow> string \<Rightarrow> 's \<Rightarrow> response option \<times> 's"

section \<open>Sending\<close>

text \<open>
  The request of \<open>uploadEncrypted\<close>; the multipart encoding adds \<open>overhead\<close> bytes.  A relay
  that answers before it has read the body can make a write to the pipe fail, and the client then
  returns that error instead of the status: an answer \<open>None\<close> of \<open>post\<close> stands for this too.  A reply
  that is no JSON object with a token leaves the token empty.
\<close>

definition upload_body :: "int \<Rightarrow> bytes \<Rightarrow> string \<Rightarrow> upload_request" where
  "upload_body overhead ciphertext clientToken =
     \<lparr>rq_method = ''POST'', rq_header = (\<lambda>_. []), rq_remote = [], rq_host = [], rq_tls = True,
      rq_path = ''/upload'', rq_token = [], up_body_len = int (length ciphertext) + overhead,
      up_file = Some (''encrypted.bin'', ciphertext, True), up_client_token = clientToken\<rparr>"

definition upload_encrypted ::
  "'s post \<Rightarrow> int \<Rightarrow> bytes \<Rightarrow> string \<Rightarrow> 's \<Rightarrow> (client_error + string) \<times> 's" where
  "upload_encrypted post overhead ciphertext clientToken s =
     (case post (upload_body overhead ciphertext clientToken) s of
        (None, s1) \<Rightarrow> (Inl UploadFailed, s1)
      | (Some resp, s1) \<Rightarrow>
          if rs_status resp \<noteq> 200 then (Inl (UploadRejected (rs_status resp) (rs_body resp)), s1)
          else (Inr (case rs_body resp of UploadReply t _ \<Rightarrow> t | _ \<Rightarrow> []), s1))"

definition send_mailbox ::
  "sealer \<Rightarrow> bytes option \<Rightarrow> 's post \<Rightarrow> int \<Rightarrow> path \<Rightarrow> string \<Rightarrow> string \<Rightarrow> bytes \<Rightarrow> filesys \<Rightarrow> 's \<Rightarrow>
     (client_error + string) \<times> filesys \<times> 's" where
  "send_mailbox seal rnd post overhead uploadPath filename derivedToken derivedKey fs s =
     (case os_read_file uploadPath fs of
        (Inl e, fs1) \<Rightarrow> (Inl (ReadFailed uploadPath e), fs1, s)
      | (Inr plaintext, fs1) \<Rightarrow>
          let fnBytes = bytes_of filename;
              payload = put32 (word_of_nat (length fnBytes)) @ fnBytes @ plaintext
          in case encrypt seal rnd payload derivedKey of
               Inl e \<Rightarrow> (Inl (EncryptFailed e), fs1, s)
             | Inr ciphertext \<Rightarrow>
                 (case upload_encrypted post overhead ciphertext derivedToken s of
                    (r, s1) \<Rightarrow> (r, fs1, s1)))"

fun read_entries :: "path list \<Rightarrow> filesys \<Rightarrow> (client_error + entry list) \<times> filesys" where
  "read_entries [] fs = (Inr [], fs)"
| "read_entries (p # ps) fs =
     (case os_read_file p fs of
        (Inl e, fs1) \<Rightarrow> (Inl (ReadFailed p e), fs1)
      | (Inr raw, fs1) \<Rightarrow>
          (case read_entries ps fs1 of
             (Inl e, fs2) \<Rightarrow> (Inl e, fs2)
           | (Inr es, fs2) \<Rightarrow> (Inr (\<lparr>en_name = base_name p, en_content = raw\<rparr> # es), fs2)))"

definition send_mailbox_native ::
  "sealer \<Rightarrow> bytes option \<Rightarrow> 's post \<Rightarrow> int \<Rightarrow> path list \<Rightarrow> string \<Rightarrow> bytes \<Rightarrow> filesys \<Rightarrow> 's \<Rightarrow>
     (client_error + string) \<times> filesys \<times> 's" where
  "send_mailbox_native seal rnd post overhead paths derivedToken derivedKey fs s =
     (if length paths = 0 then (Inl NothingToSend, fs, s)
      else case read_entries paths fs of
        (Inl e, fs1) \<Rightarrow> (Inl e, fs1, s)
      | (Inr entries, fs1) \<Rightarrow>
          (case encode_amb2 entries of
             Inl e \<Rightarrow> (Inl (PackFailed e), fs1, s)
           | Inr plaintext \<Rightarrow>
               (case encrypt seal rnd plaintext derivedKey of
                  Inl e \<Rightarrow> (Inl (EncryptFailed e), fs1, s)
                | Inr ciphertext \<Rightarrow>
                    (case upload_encrypted post overhead ciphertext derivedToken s of
                       (r, s1) \<Rightarrow> (r, fs1, s1)))))"

section \<open>Downloading\<close>

text \<open>The saving loop: an error stops it, what was saved before stays.\<close>

fun save_entries :: "path \<Rightarrow> entry list \<Rightarrow> filesys \<Rightarrow> (client_error + unit) \<times> path list \<times> filesys" where
  "save_entries destDir [] fs = (Inr (), [], fs)"
| "save_entries destDir (e # es) fs =
     (case safe_filename (en_name e) of
        Inl err \<Rightarrow> (Inl (UnsafeName (en_name e) err), [], fs)
      | Inr safe \<Rightarrow>
          (case mailbox_unique_save_path fs destDir safe of
             None \<Rightarrow> (Inl SaveDiverges, [], fs)
           | Some savePath \<Rightarrow>
               (case os_write_file savePath (en_content e) fs of
                  (Inl err, fs1) \<Rightarrow> (Inl (SaveFailed err), [], fs1)
                | (Inr _, fs1) \<Rightarrow>
                    (case save_entries destDir es fs1 of
                       (r, saved, fs2) \<Rightarrow> (r, savePath # saved, fs2)))))"

text \<open>
  The relay's part of \<open>cmdDownload\<close>: a \<open>HEAD\<close> request decides between the mailbox and a
  direct transfer (\<open>GoDirect\<close>, the branch of \<open>ReceiveFiles\<close> and \<open>ReceiveBatches\<close>).
\<close>

datatype download = GoDirect | Finished "client_error + unit" "path list"

definition download_blob ::
  "opener \<Rightarrow> path \<Rightarrow> bytes \<Rightarrow> response \<Rightarrow> filesys \<Rightarrow> (client_error + unit) \<times> path list \<times> filesys" where
  "download_blob opn destDir derivedKey resp fs =
     (if rs_status resp \<noteq> 200 then (Inl (ServerError (rs_status resp)), [], fs)
      else case rs_body resp of
        RawBytes ciphertext \<Rightarrow>
          (case decrypt opn ciphertext derivedKey of
             Inl e \<Rightarrow> (Inl (DecryptFailed e), [], fs)
           | Inr plaintext \<Rightarrow>
               (case decode plaintext of
                  Inl e \<Rightarrow> (Inl (InvalidPayload e), [], fs)
                | Inr entries \<Rightarrow> save_entries destDir entries fs))
      | _ \<Rightarrow> (Inl FetchFailed, [], fs))"

definition download_phrase ::
  "opener \<Rightarrow> (string \<Rightarrow> string) \<Rightarrow> 's fetch \<Rightarrow> path \<Rightarrow> string \<Rightarrow> filesys \<Rightarrow> 's \<Rightarrow> download \<times> filesys \<times> 's" where
  "download_phrase opn uc fetch destDir phrase fs s =
     (let derivedToken = derive_token uc phrase; derivedKey = derive_key uc phrase
      in case fetch ''HEAD'' derivedToken s of
           (None, s1) \<Rightarrow> (Finished (Inl RelayUnreachable) [], fs, s1)
         | (Some resp, s1) \<Rightarrow>
             if rs_status resp = 404 then (GoDirect, fs, s1)
             else if rs_status resp \<noteq> 200 then (Finished (Inl (ServerError (rs_status resp))) [], fs, s1)
             else case fetch ''GET'' derivedToken s1 of
               (None, s2) \<Rightarrow> (Finished (Inl FetchFailed) [], fs, s2)
             | (Some resp2, s2) \<Rightarrow>
                 (case download_blob opn destDir derivedKey resp2 fs of
                    (r, saved, fs1) \<Rightarrow> (Finished r saved, fs1, s2)))"

section \<open>What the client needs of a relay\<close>

text \<open>
  The contract of a mailbox: an upload that is answered 200 is held under its token, it stays
  held (\<open>later\<close>), and what is held is found and fetched.
\<close>

locale mailbox_relay =
  fixes post :: "'s post" and fetch :: "'s fetch"
    and ready :: "'s \<Rightarrow> bool" and holds :: "'s \<Rightarrow> string \<Rightarrow> bytes \<Rightarrow> bool" and later :: "'s \<Rightarrow> 's \<Rightarrow> bool"
  assumes post_holds: "ready s \<Longrightarrow> token \<noteq> [] \<Longrightarrow> post (upload_body overhead c token) s = (Some resp, s') \<Longrightarrow>
      rs_status resp = 200 \<Longrightarrow> (\<exists>name. rs_body resp = UploadReply token name) \<and> holds s' token c"
    and later_holds: "holds s token c \<Longrightarrow> later s s' \<Longrightarrow> holds s' token c"
    and fetch_head: "holds s token c \<Longrightarrow> token \<noteq> [] \<Longrightarrow>
      \<exists>b s'. fetch ''HEAD'' token s = (Some \<lparr>rs_status = 200, rs_body = b\<rparr>, s') \<and> holds s' token c"
    and fetch_get: "holds s token c \<Longrightarrow> token \<noteq> [] \<Longrightarrow>
      \<exists>s'. fetch ''GET'' token s = (Some \<lparr>rs_status = 200, rs_body = RawBytes c\<rparr>, s')"
begin

lemma upload_holds:
  assumes "upload_encrypted post overhead c token s = (Inr tok, s')" and "ready s" and "token \<noteq> []"
  shows "tok = token \<and> holds s' token c"
  using assms(1) post_holds [OF assms(2,3)]
  by (fastforce simp: upload_encrypted_def split: prod.splits option.splits if_splits)

lemma download_held:
  assumes "holds s (derive_token uc phrase) c" and "derive_token uc phrase \<noteq> []"
    and "decrypt opn c (derive_key uc phrase) = Inr plaintext" and "decode plaintext = Inr es"
  shows "\<exists>s'. download_phrase opn uc fetch d phrase fs s =
     (case save_entries d es fs of (r, saved, fs') \<Rightarrow> (Finished r saved, fs', s'))"
proof -
  from fetch_head [OF assms(1,2)] obtain b s1 where
    h: "fetch ''HEAD'' (derive_token uc phrase) s = (Some \<lparr>rs_status = 200, rs_body = b\<rparr>, s1)"
      "holds s1 (derive_token uc phrase) c" by blast
  from fetch_get [OF h(2) assms(2)] obtain s2 where
    g: "fetch ''GET'' (derive_token uc phrase) s1 = (Some \<lparr>rs_status = 200, rs_body = RawBytes c\<rparr>, s2)" by blast
  show ?thesis
    using h(1) g assms(3,4)
    by (intro exI [of _ s2]) (simp add: download_phrase_def download_blob_def split: prod.split)
qed

text \<open>What is uploaded under a phrase's secrets is what a download of the phrase saves.\<close>

lemma upload_download:
  assumes "secretbox_ok seal opn" and "length nonce = NonceSize" and "ready s"
    and "encrypt seal (Some nonce) plaintext (derive_key uc phrase) = Inr c"
    and "upload_encrypted post overhead c (derive_token uc phrase) s = (Inr tok, s1)"
    and "later s1 s2" and "normalize uc typed = normalize uc phrase" and "decode plaintext = Inr es"
  shows "tok = derive_token uc phrase \<and>
     (\<exists>s3. download_phrase opn uc fetch d typed fs s2 =
        (case save_entries d es fs of (r, saved, fs') \<Rightarrow> (Finished r saved, fs', s3)))"
proof -
  have t: "derive_token uc phrase \<noteq> []"
    by (rule valid_token_not_Nil) (simp add: derive_token_def hex_token)
  note h = upload_holds [OF assms(5,3) t]
  have same: "derive_token uc typed = derive_token uc phrase" "derive_key uc typed = derive_key uc phrase"
    using assms(7) by (simp_all add: derive_token_def derive_key_def)
  have "decrypt opn c (derive_key uc typed) = Inr plaintext"
    unfolding same by (rule decrypt_encrypt [OF assms(1,2,4)])
  moreover have "holds s2 (derive_token uc typed) c"
    unfolding same using later_holds [OF conjunct2 [OF h] assms(6)] .
  ultimately show ?thesis
    using download_held [of s2 uc typed c opn plaintext es d fs] t same h assms(8) by simp
qed

end

end
