(* ===== verification/Discovery.thy ===== *)
theory Discovery
  imports GoStrings Naming Sha256
begin

text \<open>
  \<open>internal/discovery\<close>: what a sender advertises on the LAN, how a browser reads it back, and
  the in-process \<open>FakeHub\<close>.  The mDNS library only carries a service name and the text
  fields; the entries it delivers are arguments.
\<close>

section \<open>Definitions\<close>

definition serviceType :: string where "serviceType = ''_drop._tcp''"
definition domain :: string where "domain = ''local.''"

record service_record =
  sr_instance :: string
  sr_token :: string
  sr_key :: bytes
  sr_label :: string
  sr_version :: byte

definition instance_name :: "string \<Rightarrow> service_record \<Rightarrow> string" where
  "instance_name hostname rec =
     (let i = (if sr_instance rec = [] then hostname else sr_instance rec)
      in if i = [] then ''drop'' else i)"

definition txt_fields :: "service_record \<Rightarrow> string list" where
  "txt_fields rec =
     [''v='' @ itoa (unat (sr_version rec)), ''t='' @ sr_token rec, ''k='' @ hex_encode (sr_key rec)] @
     (if sr_label rec \<noteq> [] then [''n='' @ sr_label rec] else [])"

text \<open>The name the library gives the service of an instance.\<close>

definition service_suffix :: string where
  "service_suffix = ''.'' @ serviceType @ ''.'' @ domain"

definition advertise :: "string \<Rightarrow> service_record \<Rightarrow> string \<times> string list" where
  "advertise hostname rec = (instance_name hostname rec @ service_suffix, txt_fields rec)"

text \<open>\<open>hex.DecodeString\<close>, either case.\<close>

definition hex_value :: "char \<Rightarrow> nat option" where
  "hex_value c =
     (let n = of_char c :: nat
      in if 48 \<le> n \<and> n \<le> 57 then Some (n - 48)
         else if 97 \<le> n \<and> n \<le> 102 then Some (n - 87)
         else if 65 \<le> n \<and> n \<le> 70 then Some (n - 55)
         else None)"

fun hex_decode :: "string \<Rightarrow> bytes option" where
  "hex_decode [] = Some []"
| "hex_decode [c] = None"
| "hex_decode (a # b # s) =
     (case (hex_value a, hex_value b, hex_decode s) of
        (Some x, Some y, Some bs) \<Rightarrow> Some (word_of_nat (16 * x + y) # bs)
      | _ \<Rightarrow> None)"

text \<open>The loop of \<open>parseEntry\<close>, one text field.\<close>

definition read_field :: "service_record \<Rightarrow> string \<Rightarrow> service_record" where
  "read_field rec field =
     (case cut CHR ''='' field of
        None \<Rightarrow> rec
      | Some (key, val) \<Rightarrow>
          if key = ''v'' then
            (case val of [c] \<Rightarrow> rec\<lparr>sr_version := word_of_nat (of_char c) - 48\<rparr> | _ \<Rightarrow> rec)
          else if key = ''t'' then rec\<lparr>sr_token := val\<rparr>
          else if key = ''k'' then
            (case hex_decode val of Some k \<Rightarrow> rec\<lparr>sr_key := k\<rparr> | None \<Rightarrow> rec)
          else if key = ''n'' then rec\<lparr>sr_label := val\<rparr>
          else rec)"

definition parse_entry :: "string \<Rightarrow> string list \<Rightarrow> service_record option" where
  "parse_entry name infoFields =
     (let rec = foldl read_field
        \<lparr>sr_instance = trim_suffix name service_suffix, sr_token = [], sr_key = [], sr_label = [], sr_version = 0\<rparr>
        infoFields
      in if sr_token rec = [] \<or> sr_key rec = [] then None else Some rec)"

text \<open>\<open>Browse\<close>: the entries of a query that did not fail (\<open>None\<close> if it did).\<close>

definition browse :: "(string \<times> string list) list option \<Rightarrow> service_record list option" where
  "browse entries = map_option (List.map_filter (\<lambda>(name, fs). parse_entry name fs)) entries"

subsection \<open>The fake hub\<close>

record fake_hub =
  fh_next :: nat
  fh_records :: "(nat, service_record) fmap"

definition new_fake_hub :: fake_hub where
  "new_fake_hub = \<lparr>fh_next = 0, fh_records = fmempty\<rparr>"

definition fake_advertise :: "service_record \<Rightarrow> fake_hub \<Rightarrow> nat \<times> fake_hub" where
  "fake_advertise rec h =
     (fh_next h, h\<lparr>fh_next := Suc (fh_next h), fh_records := fmupd (fh_next h) rec (fh_records h)\<rparr>)"

text \<open>The context of an advertiser is cancelled.\<close>

definition fake_cancel :: "nat \<Rightarrow> fake_hub \<Rightarrow> fake_hub" where
  "fake_cancel i h = h\<lparr>fh_records := fmdrop i (fh_records h)\<rparr>"

definition fake_browse :: "fake_hub \<Rightarrow> service_record list" where
  "fake_browse h = map (\<lambda>i. the (fmlookup (fh_records h) i)) (sorted_list_of_fset (fmdom (fh_records h)))"

section \<open>Hexadecimal\<close>

lemma hex_value_digit: "n < 16 \<Longrightarrow> hex_value (hex_digits ! n) = Some n"
  by (auto simp: hex_digits_def hex_value_def less_Suc_eq numeral_eq_Suc nth_Cons split: nat.splits)

lemma hex_decode_encode [simp]: "hex_decode (hex_encode bs) = Some bs"
proof (induction bs)
  case (Cons b bs)
  have lt: "unat b < 256"
    using unsigned_less [of b, where ?'a = nat] by simp
  then have "hex_value (hex_digits ! (unat b div 16)) = Some (unat b div 16)"
      "hex_value (hex_digits ! (unat b mod 16)) = Some (unat b mod 16)"
    by (simp_all add: hex_value_digit less_mult_imp_div_less)
  moreover have "(word_of_nat (16 * (unat b div 16) + unat b mod 16) :: byte) = b"
    by simp
  ultimately show ?case
    using Cons.IH by (simp add: hex_encode_def hex_byte_def)
qed (simp add: hex_encode_def)

lemma hex_encode_Nil_iff [simp]: "hex_encode bs = [] \<longleftrightarrow> bs = []"
  by (cases bs) (simp_all add: hex_encode_def hex_byte_def)

lemma cut_key: "c \<noteq> k \<Longrightarrow> cut c (k # c # v) = Some ([k], v)"
  by (simp add: cut_def)

text \<open>A version of one digit survives; a longer one is not read.\<close>

lemma version_digit: "unat v < 10 \<Longrightarrow> itoa (unat v) = [digit_char (unat v)]"
  by (subst itoa.simps) simp

lemma version_long: "\<not> n < 10 \<Longrightarrow> \<exists>a b s. itoa n = a # b # s"
proof -
  assume "\<not> n < 10"
  then have "itoa n = itoa (n div 10) @ [digit_char (n mod 10)]"
    by (subst itoa.simps) simp
  moreover obtain x xs where "itoa (n div 10) = x # xs" by (cases "itoa (n div 10)") simp_all
  ultimately show ?thesis by (cases xs) simp_all
qed

lemma digit_byte: "unat (v :: byte) < 10 \<Longrightarrow> word_of_nat (of_char (digit_char (unat v))) - 48 = v"
  by (simp add: digit_char_def)

lemma read_version:
  "read_field rec (''v='' @ itoa (unat (v :: byte))) = (if unat v < 10 then rec\<lparr>sr_version := v\<rparr> else rec)"
  using version_long [of "unat v"]
  by (auto simp: read_field_def cut_key version_digit digit_byte)

lemma read_token: "read_field rec (''t='' @ v) = rec\<lparr>sr_token := v\<rparr>"
  and read_key: "read_field rec (''k='' @ hex_encode k) = rec\<lparr>sr_key := k\<rparr>"
  and read_label: "read_field rec (''n='' @ v) = rec\<lparr>sr_label := v\<rparr>"
  by (simp_all add: read_field_def cut_key)

lemmas read_rules = read_version [unfolded append_Cons append_Nil] read_token [unfolded append_Cons append_Nil]
  read_key [unfolded append_Cons append_Nil] read_label [unfolded append_Cons append_Nil]

lemma trim_service: "trim_suffix (i @ service_suffix) service_suffix = i"
  by (rule trim_suffix_append)

lemma parse_advertised:
  "(case advertise hostname rec of (name, infoFields) \<Rightarrow> parse_entry name infoFields) =
     (if sr_token rec = [] \<or> sr_key rec = [] then None
      else Some (rec\<lparr>sr_instance := instance_name hostname rec,
                     sr_version := if unat (sr_version rec) < 10 then sr_version rec else 0\<rparr>))"
  by (cases "sr_label rec = []")
    (simp_all add: advertise_def parse_entry_def txt_fields_def trim_service read_rules Let_def)

text \<open>
  C38: What \<open>Advertise\<close> puts on the LAN, \<open>parseEntry\<close> reads back: instance, token, key and
  label unchanged, and the version when it has one digit (a longer one is read as 0); a
  record without a token or key is dropped.
\<close>

theorem discovery_roundtrip:
  "(case advertise hostname rec of (name, infoFields) \<Rightarrow> parse_entry name infoFields) =
     (if sr_token rec = [] \<or> sr_key rec = [] then None
      else Some (rec\<lparr>sr_instance := instance_name hostname rec,
                     sr_version := if unat (sr_version rec) < 10 then sr_version rec else 0\<rparr>))"
  by (rule parse_advertised)

text \<open>The hub: what is advertised is browsed until it is cancelled, and nothing else.\<close>

lemma fake_hub_records:
  "fake_advertise rec h = (i, h') \<Longrightarrow> fmlookup (fh_records h') j = (if j = i then Some rec else fmlookup (fh_records h) j)"
  "fmlookup (fh_records (fake_cancel i h)) j = (if j = i then None else fmlookup (fh_records h) j)"
  by (auto simp: fake_advertise_def fake_cancel_def)

lemma fake_browse_set: "set (fake_browse h) = {r. \<exists>i. fmlookup (fh_records h) i = Some r}"
proof -
  have "i \<in> set (sorted_list_of_fset (fmdom (fh_records h))) \<longleftrightarrow> fmlookup (fh_records h) i \<noteq> None" for i
    by (simp add: sorted_list_of_fset.rep_eq fmlookup_dom_iff)
  then show ?thesis
    unfolding fake_browse_def by (force simp: image_iff)
qed

end
