(* ===== verification/Archive.thy ===== *)
theory Archive
  imports FileSys "HOL-Library.List_Lexorder" "HOL-Library.Char_ord"
begin

text \<open>
  \<open>internal/archive\<close>: bundling paths into a temporary zip file.  The format of the zip
  file belongs to Go's \<open>archive/zip\<close>: what it writes for one member and at the end
  are arguments.  A disk names every file by its cleaned path.  An archive of a
  directory that holds the temporary file itself is outside of the model.
\<close>

section \<open>What \<open>Lstat\<close> and \<open>WalkDir\<close> see\<close>

text \<open>Which entries of the disk are symbolic links, and which are devices, sockets or pipes.\<close>

record lstat_view =
  lv_link :: "path \<Rightarrow> bool"
  lv_special :: "path \<Rightarrow> bool"

datatype file_mode = Directory | Regular | Symlink | Special

definition mode_of :: "lstat_view \<Rightarrow> filesys \<Rightarrow> path \<Rightarrow> file_mode option" where
  "mode_of v fs p =
     (if \<not> fs_exists fs p then None
      else if lv_link v p then Some Symlink
      else if p |\<in>| fs_dirs fs then Some Directory
      else if lv_special v p then Some Special
      else Some Regular)"

definition os_lstat :: "lstat_view \<Rightarrow> path \<Rightarrow> filesys \<Rightarrow> (os_error + file_mode) \<times> filesys" where
  "os_lstat v p fs0 =
     (case next_fault fs0 of
        (Some _, fs) \<Rightarrow> (Inl IOError, fs)
      | (None, fs) \<Rightarrow> (case mode_of v fs p of None \<Rightarrow> (Inl NotExist, fs) | Some m \<Rightarrow> (Inr m, fs)))"

text \<open>\<open>os.CreateTemp\<close>: it opens only a file that was not there.\<close>

definition os_create_temp :: "path \<Rightarrow> filesys \<Rightarrow> (os_error + unit) \<times> filesys" where
  "os_create_temp p fs = (if fs_exists fs p then (Inl IOError, fs) else os_create p fs)"

definition elems :: "path \<Rightarrow> string list" where
  "elems c = (if c = ''.'' then [] else if c = ''/'' then [[]] else split_sep c)"

definition below :: "path \<Rightarrow> path \<Rightarrow> bool" where
  "below p q \<longleftrightarrow>
     (let c = elems (clean p); e = elems q
      in length c < length e \<and> take (length c) e = c \<and> e ! length c \<notin> {''..'', []})"

text \<open>
  \<open>filepath.WalkDir\<close> from a directory: parents before their entries, entries by name,
  nothing beneath a symbolic link.
\<close>

definition all_paths :: "filesys \<Rightarrow> path list" where
  "all_paths fs = sorted_list_of_fset (fmdom (fs_files fs) |\<union>| fs_dirs fs)"

definition walk :: "lstat_view \<Rightarrow> filesys \<Rightarrow> path \<Rightarrow> path list" where
  "walk v fs p =
     p # sort_key split_sep
           (filter (\<lambda>q. below p q \<and> \<not> list_ex (\<lambda>l. lv_link v l \<and> below p l \<and> below l q) (all_paths fs)) (all_paths fs))"

text \<open>\<open>filepath.Dir\<close> and \<open>filepath.Rel\<close>.\<close>

definition dir_name :: "path \<Rightarrow> path" where
  "dir_name p = clean (rev (dropWhile (\<lambda>c. c \<noteq> CHR ''/'') (rev p)))"

fun strip_common :: "string list \<Rightarrow> string list \<Rightarrow> string list \<times> string list" where
  "strip_common (b # bs) (t # ts) = (if b = t then strip_common bs ts else (b # bs, t # ts))"
| "strip_common bs ts = (bs, ts)"

definition rel_path :: "path \<Rightarrow> path \<Rightarrow> path option" where
  "rel_path base targ =
     (let b = clean base; t = clean targ
      in if t = b then Some ''.''
         else if rooted b \<noteq> rooted t then None
         else case strip_common (elems b) (if t = ''/'' then [[]] else split_sep t) of
           (bs, ts) \<Rightarrow>
             if bs \<noteq> [] \<and> ts \<noteq> [] \<and> hd bs = ''..'' then None
             else Some (join_sep (replicate (length bs) ''..'' @ ts)))"

section \<open>\<open>ZipPaths\<close>\<close>

type_synonym member = "string \<times> bytes"

record zip_format =
  zf_member :: "member \<Rightarrow> bytes"
  zf_end :: "member list \<Rightarrow> bytes"

datatype archive_error =
    ArchiveOS os_error
  | RefusedSymlink path
  | RefusedSpecial path
  | NoRelativePath

text \<open>\<open>addToZip\<close>; the members written so far are the state of the zip writer.\<close>

definition add_to_zip ::
  "zip_format \<Rightarrow> path \<Rightarrow> path \<Rightarrow> string \<Rightarrow> member list \<Rightarrow> filesys \<Rightarrow> (archive_error + member list) \<times> filesys" where
  "add_to_zip zf tmp src name ms fs =
     (case os_read_file src fs of
        (Inl e, fs1) \<Rightarrow> (Inl (ArchiveOS e), fs1)
      | (Inr d, fs1) \<Rightarrow>
          (case os_append tmp (zf_member zf (name, d)) fs1 of
             ((_, Some e), fs2) \<Rightarrow> (Inl (ArchiveOS e), fs2)
           | ((_, None), fs2) \<Rightarrow> (Inr (ms @ [(name, d)]), fs2)))"

text \<open>The callback on each path of the walk; entering a directory reads its entries.\<close>

fun visit ::
  "zip_format \<Rightarrow> lstat_view \<Rightarrow> path \<Rightarrow> path \<Rightarrow> path list \<Rightarrow> member list \<Rightarrow> filesys \<Rightarrow>
     (archive_error + member list) \<times> filesys" where
  "visit zf v tmp p [] ms fs = (Inr ms, fs)"
| "visit zf v tmp p (q # qs) ms fs =
     (case os_lstat v q fs of
        (Inl e, fs1) \<Rightarrow> (Inl (ArchiveOS e), fs1)
      | (Inr m, fs1) \<Rightarrow>
          if m = Directory then
            (case next_fault fs1 of
               (Some _, fs2) \<Rightarrow> (Inl (ArchiveOS IOError), fs2)
             | (None, fs2) \<Rightarrow> visit zf v tmp p qs ms fs2)
          else if m = Regular then
            (case rel_path (dir_name p) q of
               None \<Rightarrow> (Inl NoRelativePath, fs1)
             | Some rel \<Rightarrow>
                 (case add_to_zip zf tmp q rel ms fs1 of
                    (Inl e, fs2) \<Rightarrow> (Inl e, fs2)
                  | (Inr ms1, fs2) \<Rightarrow> visit zf v tmp p qs ms1 fs2))
          else visit zf v tmp p qs ms fs1)"

fun zip_each ::
  "zip_format \<Rightarrow> lstat_view \<Rightarrow> path \<Rightarrow> path list \<Rightarrow> member list \<Rightarrow> filesys \<Rightarrow>
     (archive_error + member list) \<times> filesys" where
  "zip_each zf v tmp [] ms fs = (Inr ms, fs)"
| "zip_each zf v tmp (p # ps) ms fs =
     (case os_lstat v p fs of
        (Inl e, fs1) \<Rightarrow> (Inl (ArchiveOS e), fs1)
      | (Inr Symlink, fs1) \<Rightarrow> (Inl (RefusedSymlink p), fs1)
      | (Inr Special, fs1) \<Rightarrow> (Inl (RefusedSpecial p), fs1)
      | (Inr Directory, fs1) \<Rightarrow>
          (case visit zf v tmp p (walk v fs1 p) ms fs1 of
             (Inl e, fs2) \<Rightarrow> (Inl e, fs2)
           | (Inr ms1, fs2) \<Rightarrow> zip_each zf v tmp ps ms1 fs2)
      | (Inr Regular, fs1) \<Rightarrow>
          (case add_to_zip zf tmp p (base_name p) ms fs1 of
             (Inl e, fs2) \<Rightarrow> (Inl e, fs2)
           | (Inr ms1, fs2) \<Rightarrow> zip_each zf v tmp ps ms1 fs2))"

definition zip_paths ::
  "zip_format \<Rightarrow> lstat_view \<Rightarrow> path \<Rightarrow> path list \<Rightarrow> filesys \<Rightarrow> (archive_error + path) \<times> filesys" where
  "zip_paths zf v tmp ps fs0 =
     (case os_create_temp tmp fs0 of
        (Inl e, fs) \<Rightarrow> (Inl (ArchiveOS e), fs)
      | (Inr _, fs1) \<Rightarrow>
          (case zip_each zf v tmp ps [] fs1 of
             (Inl e, fs2) \<Rightarrow> (Inl e, snd (os_remove tmp fs2))
           | (Inr ms, fs2) \<Rightarrow>
               (case os_append tmp (zf_end zf ms) fs2 of
                  ((_, Some e), fs3) \<Rightarrow> (Inl (ArchiveOS e), snd (os_remove tmp fs3))
                | ((_, None), fs3) \<Rightarrow> (Inr tmp, fs3))))"

section \<open>Frames and fault-free runs\<close>

lemma os_read_file_frame: "os_read_file p fs = (r, fs') \<Longrightarrow> same_except {} fs fs'"
  by (cases "next_fault fs")
    (auto simp: os_read_file_def same_except_def split: option.splits if_splits dest: next_fault_frame)

lemma os_lstat_frame: "os_lstat v p fs = (r, fs') \<Longrightarrow> same_except {} fs fs'"
  by (cases "next_fault fs")
    (auto simp: os_lstat_def same_except_def split: option.splits dest: next_fault_frame)

lemma same_except_weak: "same_except {} a b \<Longrightarrow> same_except P a b"
  by (auto simp: same_except_def)

lemma os_append_frame: "os_append p d fs = (r, fs') \<Longrightarrow> same_except {p} fs fs'"
  using os_append_same [of p fs d] by simp

lemma add_to_zip_frame:
  assumes "add_to_zip zf tmp src n ms fs = (r, fs')"
  shows "same_except {tmp} fs fs'"
proof -
  obtain x fs1 where f: "os_read_file src fs = (x, fs1)" by fastforce
  note k = same_except_weak [OF os_read_file_frame [OF f], of "{tmp}"]
  show ?thesis
  proof (cases x)
    case (Inl e)
    with assms f k show ?thesis by (simp add: add_to_zip_def)
  next
    case (Inr d)
    obtain c e fs2 where a: "os_append tmp (zf_member zf (n, d)) fs1 = ((c, e), fs2)" by (metis prod.exhaust)
    from same_except_same [OF k os_append_frame [OF a]] assms f Inr a show ?thesis
      by (cases e) (auto simp: add_to_zip_def)
  qed
qed

lemma visit_frame: "visit zf v tmp p qs ms fs = (r, fs') \<Longrightarrow> same_except {tmp} fs fs'"
proof (induction qs arbitrary: ms fs)
  case (Cons q qs)
  obtain x fs1 where l: "os_lstat v q fs = (x, fs1)" by fastforce
  note k = same_except_weak [OF os_lstat_frame [OF l], of "{tmp}"]
  obtain f fs2 where n: "next_fault fs1 = (f, fs2)" by fastforce
  note kn = same_except_same [OF k same_except_weak [OF same_except_next_fault [OF n]]]
  show ?case
  proof (cases x)
    case (Inl e)
    with Cons.prems l k show ?thesis by simp
  next
    case (Inr m)
    show ?thesis
    proof (cases "m = Regular")
      case True
      show ?thesis
      proof (cases "rel_path (dir_name p) q")
        case None
        with Cons.prems l k Inr True show ?thesis by simp
      next
        case (Some rel)
        obtain y fs3 where a: "add_to_zip zf tmp q rel ms fs1 = (y, fs3)" by fastforce
        note ka = same_except_same [OF k add_to_zip_frame [OF a]]
        show ?thesis
        proof (cases y)
          case (Inl e)
          with Cons.prems l Inr True Some a ka show ?thesis by simp
        next
          case (Inr ms1)
          with Cons.prems l \<open>x = Inr m\<close> True Some a have "visit zf v tmp p qs ms1 fs3 = (r, fs')" by simp
          from same_except_same [OF ka Cons.IH [OF this]] show ?thesis .
        qed
      qed
    next
      case False
      with Cons.prems l n Inr kn k show ?thesis
        by (auto split: if_splits option.splits intro: same_except_same Cons.IH)
    qed
  qed
qed auto

lemma zip_each_frame: "zip_each zf v tmp ps ms fs = (r, fs') \<Longrightarrow> same_except {tmp} fs fs'"
proof (induction ps arbitrary: ms fs)
  case (Cons p ps)
  obtain x fs1 where l: "os_lstat v p fs = (x, fs1)" by fastforce
  note k = same_except_weak [OF os_lstat_frame [OF l], of "{tmp}"]
  obtain y fs2 where w: "visit zf v tmp p (walk v fs1 p) ms fs1 = (y, fs2)" by fastforce
  note kw = same_except_same [OF k visit_frame [OF w]]
  obtain z fs3 where a: "add_to_zip zf tmp p (base_name p) ms fs1 = (z, fs3)" by fastforce
  note ka = same_except_same [OF k add_to_zip_frame [OF a]]
  from Cons.prems l w a k kw ka show ?case
    by (auto split: sum.splits file_mode.splits intro: same_except_same Cons.IH)
qed auto

text \<open>A script without faults stays one.\<close>

lemma os_calls_faults:
  "fs_faults fs = [] \<Longrightarrow> fs_faults (snd (os_read_file p fs)) = []"
  "fs_faults fs = [] \<Longrightarrow> fs_faults (snd (os_lstat v p fs)) = []"
  "fs_faults fs = [] \<Longrightarrow> fs_faults (snd (os_append p d fs)) = []"
  "fs_faults fs = [] \<Longrightarrow> fs_faults (snd (os_create p fs)) = []"
  by (simp_all add: os_read_file_def os_lstat_def os_append_def os_create_def next_fault_none split: option.splits)

lemma add_to_zip_faults:
  "add_to_zip zf tmp src n ms fs = (r, fs') \<Longrightarrow> fs_faults fs = [] \<Longrightarrow> fs_faults fs' = []"
  by (auto simp: add_to_zip_def split: prod.splits sum.splits option.splits)
    (metis os_calls_faults(1,3) snd_conv)+

lemma visit_faults: "visit zf v tmp p qs ms fs = (r, fs') \<Longrightarrow> fs_faults fs = [] \<Longrightarrow> fs_faults fs' = []"
proof (induction qs arbitrary: ms fs)
  case (Cons q qs)
  obtain x fs1 where l: "os_lstat v q fs = (x, fs1)" by fastforce
  with os_calls_faults(2) [OF Cons.prems(2), of v q] have f: "fs_faults fs1 = []" by simp
  from Cons.prems(1) l f show ?case
    by (auto simp: next_fault_none split: sum.splits if_splits option.splits prod.splits
        intro: Cons.IH add_to_zip_faults)
qed auto

lemma zip_each_faults: "zip_each zf v tmp ps ms fs = (r, fs') \<Longrightarrow> fs_faults fs = [] \<Longrightarrow> fs_faults fs' = []"
proof (induction ps arbitrary: ms fs)
  case (Cons p ps)
  obtain x fs1 where l: "os_lstat v p fs = (x, fs1)" by fastforce
  with os_calls_faults(2) [OF Cons.prems(2), of v p] have f: "fs_faults fs1 = []" by simp
  from Cons.prems(1) l f show ?case
    by (auto split: sum.splits file_mode.splits prod.splits intro: Cons.IH visit_faults add_to_zip_faults)
qed auto

section \<open>What the archive holds\<close>

text \<open>
  The members an archive should have: of a directory every regular file beneath it that is
  not reached through a symbolic link, in the order of the walk; of a file that file.
\<close>

definition content :: "filesys \<Rightarrow> path \<Rightarrow> bytes" where
  "content fs q = (case fmlookup (fs_files fs) q of None \<Rightarrow> [] | Some d \<Rightarrow> d)"

definition members_of :: "lstat_view \<Rightarrow> filesys \<Rightarrow> path \<Rightarrow> member list" where
  "members_of v fs p =
     (if mode_of v fs p = Some Directory
      then map (\<lambda>q. (the (rel_path (dir_name p) q), content fs q))
             (filter (\<lambda>q. mode_of v fs q = Some Regular) (walk v fs p))
      else [(base_name p, content fs p)])"

definition zip_bytes :: "zip_format \<Rightarrow> member list \<Rightarrow> bytes" where
  "zip_bytes zf ms = concat (map (zf_member zf) ms) @ zf_end zf ms"

text \<open>The disk while the archive is written, against the disk \<open>F\<close> before.\<close>

definition writing :: "zip_format \<Rightarrow> path \<Rightarrow> filesys \<Rightarrow> member list \<Rightarrow> filesys \<Rightarrow> bool" where
  "writing zf tmp F ms fs \<longleftrightarrow>
     same_except {tmp} F fs \<and> fmlookup (fs_files fs) tmp = Some (concat (map (zf_member zf) ms))"

lemma writing_next_fault: "next_fault fs = (f, fs') \<Longrightarrow> writing zf tmp F ms fs \<Longrightarrow> writing zf tmp F ms fs'"
  using next_fault_frame [of fs f fs'] by (simp add: writing_def same_except_def)

lemma mode_of_same:
  "same_except {tmp} F fs \<Longrightarrow> q \<noteq> tmp \<Longrightarrow> mode_of v fs q = mode_of v F q"
  by (simp add: mode_of_def fs_exists_def same_except_def fmlookup_dom_iff)

lemma os_lstat_writing:
  assumes "os_lstat v q fs = (Inr m, fs')" and "writing zf tmp F ms fs" and "q \<noteq> tmp"
  shows "mode_of v F q = Some m \<and> writing zf tmp F ms fs'"
proof -
  obtain f fs1 where n: "next_fault fs = (f, fs1)" by fastforce
  with assms(1) have "f = None" "fs1 = fs'" "mode_of v fs' q = Some m"
    by (auto simp: os_lstat_def split: option.splits)
  with writing_next_fault [OF n assms(2)] assms(3) mode_of_same show ?thesis
    by (auto simp: writing_def)
qed

lemma add_to_zip_writing:
  assumes "add_to_zip zf tmp q n ms fs = (Inr ms1, fs')" and "writing zf tmp F ms fs" and "q \<noteq> tmp"
  shows "ms1 = ms @ [(n, content F q)] \<and> writing zf tmp F ms1 fs'"
proof -
  obtain f fs1 where nf: "next_fault fs = (f, fs1)" by fastforce
  note w1 = writing_next_fault [OF nf assms(2)]
  from assms(1) nf have f: "f = None" by (auto simp: add_to_zip_def os_read_file_def split: option.splits)
  with assms(1) nf obtain d where d: "fmlookup (fs_files fs1) q = Some d"
    by (auto simp: add_to_zip_def os_read_file_def split: option.splits)
  obtain g fs2 where ng: "next_fault fs1 = (g, fs2)" by fastforce
  note w2 = writing_next_fault [OF ng w1]
  from w2 have old: "fmlookup (fs_files fs2) tmp = Some (concat (map (zf_member zf) ms))"
    by (simp add: writing_def)
  from w1 assms(3) d have c: "content F q = d" by (simp add: content_def writing_def same_except_def)
  from assms(1) nf f d ng old have
    "g = None" "ms1 = ms @ [(n, d)]"
    "fs' = fs2\<lparr>fs_files := fmupd tmp (concat (map (zf_member zf) ms) @ zf_member zf (n, d)) (fs_files fs2)\<rparr>"
    by (auto simp: add_to_zip_def os_read_file_def os_append_def split: option.splits)
  with w2 c show ?thesis by (auto simp: writing_def same_except_def)
qed

lemma visit_writing:
  assumes "visit zf v tmp p qs ms fs = (Inr ms1, fs')" and "writing zf tmp F ms fs" and "tmp \<notin> set qs"
  shows "ms1 = ms @ map (\<lambda>q. (the (rel_path (dir_name p) q), content F q))
      (filter (\<lambda>q. mode_of v F q = Some Regular) qs) \<and> writing zf tmp F ms1 fs'"
  using assms
proof (induction qs arbitrary: ms fs)
  case (Cons q qs)
  then obtain m fs1 where l: "os_lstat v q fs = (Inr m, fs1)"
    by (auto split: prod.splits sum.splits)
  from os_lstat_writing [OF l Cons.prems(2)] Cons.prems(3)
  have m: "mode_of v F q = Some m" and w: "writing zf tmp F ms fs1" by auto
  show ?case
  proof (cases "m = Regular")
    case True
    with Cons.prems(1) l obtain rel ms2 fs2 where
      r: "rel_path (dir_name p) q = Some rel" and a: "add_to_zip zf tmp q rel ms fs1 = (Inr ms2, fs2)" and
      v: "visit zf v tmp p qs ms2 fs2 = (Inr ms1, fs')"
      by (auto split: option.splits prod.splits sum.splits)
    from add_to_zip_writing [OF a w] Cons.prems(3)
    have a2: "ms2 = ms @ [(rel, content F q)]" and w2: "writing zf tmp F ms2 fs2" by auto
    from Cons.IH [OF v w2] Cons.prems(3) a2 m True r show ?thesis by auto
  next
    case False
    obtain f fs2 where n: "next_fault fs1 = (f, fs2)" by fastforce
    note w2 = writing_next_fault [OF n w]
    from Cons.prems(1) l n False obtain fs3 where
      "visit zf v tmp p qs ms fs3 = (Inr ms1, fs')" "fs3 = fs1 \<or> fs3 = fs2"
      by (auto split: if_splits option.splits)
    with Cons.IH [of ms fs3] w w2 Cons.prems(3) m False show ?thesis by auto
  qed
qed simp

text \<open>The temporary file does not show in a walk beside it.\<close>

lemma filter_sorted_finsert:
  "\<not> P x \<Longrightarrow> filter P (sorted_list_of_fset (finsert x A)) = filter P (sorted_list_of_fset A)"
proof -
  assume "\<not> P x"
  then show ?thesis
    by (cases "x |\<in>| A") (simp_all add: finsert_absorb sorted_list_of_fset.rep_eq filter_insort_triv)
qed

lemma writing_dom:
  assumes "writing zf tmp F ms fs"
  shows "fmdom (fs_files fs) |\<union>| fs_dirs fs = finsert tmp (fmdom (fs_files F) |\<union>| fs_dirs F)"
proof -
  have "x |\<in>| fmdom (fs_files fs) \<longleftrightarrow> x = tmp \<or> x |\<in>| fmdom (fs_files F)" for x
    using assms by (cases "x = tmp") (auto simp: writing_def same_except_def fmlookup_dom_iff)
  then show ?thesis using assms by (auto simp: writing_def same_except_def)
qed

lemma set_all_paths: "set (all_paths fs) = fset (fmdom (fs_files fs) |\<union>| fs_dirs fs)"
  by (simp add: all_paths_def)

lemma walk_writing:
  assumes "writing zf tmp F ms fs" and "\<not> below p tmp"
  shows "walk v fs p = walk v F p"
proof -
  have hid: "list_ex (\<lambda>l. lv_link v l \<and> below p l \<and> below l q) (all_paths fs) \<longleftrightarrow>
      list_ex (\<lambda>l. lv_link v l \<and> below p l \<and> below l q) (all_paths F)" for q
    unfolding list_ex_iff set_all_paths writing_dom [OF assms(1)] using assms(2) by auto
  have "filter P (all_paths fs) = filter P (all_paths F)" if "\<not> P tmp" for P
    unfolding all_paths_def writing_dom [OF assms(1)] using that by (rule filter_sorted_finsert)
  with assms(2) show ?thesis unfolding walk_def hid by auto
qed

lemma walk_not_tmp: "p \<noteq> tmp \<Longrightarrow> \<not> below p tmp \<Longrightarrow> tmp \<notin> set (walk v fs p)"
  by (simp add: walk_def)

lemma zip_each_writing:
  assumes "zip_each zf v tmp ps ms fs = (Inr ms1, fs')" and "writing zf tmp F ms fs"
    and "\<forall>p\<in>set ps. p \<noteq> tmp \<and> \<not> below p tmp"
  shows "ms1 = ms @ concat (map (members_of v F) ps) \<and> writing zf tmp F ms1 fs' \<and>
     (\<forall>p\<in>set ps. mode_of v F p \<in> {Some Directory, Some Regular})"
  using assms
proof (induction ps arbitrary: ms fs)
  case (Cons p ps)
  then obtain m fs1 where l: "os_lstat v p fs = (Inr m, fs1)"
    by (auto split: prod.splits sum.splits)
  from Cons.prems(3) have tp: "p \<noteq> tmp" "\<not> below p tmp" by auto
  from os_lstat_writing [OF l Cons.prems(2) tp(1)]
  have m: "mode_of v F p = Some m" and w: "writing zf tmp F ms fs1" by auto
  obtain ms2 fs2 where step: "ms2 = ms @ members_of v F p" "writing zf tmp F ms2 fs2"
    and rest: "zip_each zf v tmp ps ms2 fs2 = (Inr ms1, fs')" and ok: "m = Directory \<or> m = Regular"
  proof (cases m)
    case Directory
    with Cons.prems(1) l obtain ms2 fs2 where
      vi: "visit zf v tmp p (walk v fs1 p) ms fs1 = (Inr ms2, fs2)" and
      r: "zip_each zf v tmp ps ms2 fs2 = (Inr ms1, fs')"
      by (auto split: prod.splits sum.splits)
    from visit_writing [OF vi w walk_not_tmp [OF tp]] walk_writing [OF w tp(2)] m Directory
    have "ms2 = ms @ members_of v F p" "writing zf tmp F ms2 fs2" by (auto simp: members_of_def)
    from that [OF this r] Directory show ?thesis by simp
  next
    case Regular
    with Cons.prems(1) l obtain ms2 fs2 where
      a: "add_to_zip zf tmp p (base_name p) ms fs1 = (Inr ms2, fs2)" and
      r: "zip_each zf v tmp ps ms2 fs2 = (Inr ms1, fs')"
      by (auto split: prod.splits sum.splits)
    from add_to_zip_writing [OF a w tp(1)] m Regular
    have "ms2 = ms @ members_of v F p" "writing zf tmp F ms2 fs2" by (auto simp: members_of_def)
    from that [OF this r] Regular show ?thesis by simp
  qed (use Cons.prems(1) l in auto)
  from Cons.IH [OF rest step(2)] Cons.prems(3) step(1) m ok show ?case by auto
qed simp

section \<open>Properties\<close>

lemma os_create_temp_ok:
  assumes "os_create_temp tmp fs = (Inr u, fs1)"
  shows "\<not> fs_exists fs tmp \<and> writing zf tmp fs [] fs1"
proof -
  obtain f fs2 where n: "next_fault fs = (f, fs2)" by fastforce
  from assms have new: "\<not> fs_exists fs tmp" and c: "os_create tmp fs = (Inr u, fs1)"
    by (simp_all add: os_create_temp_def split: if_splits)
  from c n have "fs1 = fs2\<lparr>fs_files := fmupd tmp [] (fs_files fs2)\<rparr>"
    by (simp add: os_create_def split: option.splits if_splits)
  with new next_fault_frame [OF n] show ?thesis by (simp add: writing_def same_except_def)
qed

lemma os_create_temp_err:
  assumes "os_create_temp tmp fs = (Inl e, fs1)"
  shows "same_except {} fs fs1"
proof -
  obtain f fs2 where n: "next_fault fs = (f, fs2)" by fastforce
  with assms have "fs1 = fs \<or> fs1 = fs2"
    by (simp add: os_create_temp_def os_create_def split: option.splits if_splits)
  with same_except_next_fault [OF n] show ?thesis by auto
qed

lemma zip_paths_ok:
  assumes "zip_paths zf v tmp ps fs = (Inr z, fs')" and "\<forall>p\<in>set ps. p \<noteq> tmp \<and> \<not> below p tmp"
  shows "z = tmp \<and> \<not> fs_exists fs tmp \<and> same_except {tmp} fs fs' \<and>
     (\<forall>p\<in>set ps. mode_of v fs p \<in> {Some Directory, Some Regular}) \<and>
     fmlookup (fs_files fs') tmp = Some (zip_bytes zf (concat (map (members_of v fs) ps)))"
proof -
  from assms(1) obtain fs1 ms fs2 where
    c: "os_create_temp tmp fs = (Inr (), fs1)" and e: "zip_each zf v tmp ps [] fs1 = (Inr ms, fs2)"
    by (auto simp: zip_paths_def split: prod.splits sum.splits)
  from os_create_temp_ok [OF c] have new: "\<not> fs_exists fs tmp" and w: "writing zf tmp fs [] fs1" by auto
  from zip_each_writing [OF e w assms(2)] have ms: "ms = concat (map (members_of v fs) ps)"
    and w2: "writing zf tmp fs ms fs2" and modes: "\<forall>p\<in>set ps. mode_of v fs p \<in> {Some Directory, Some Regular}"
    by auto
  obtain f fs3 where n: "next_fault fs2 = (f, fs3)" by fastforce
  from writing_next_fault [OF n w2]
  have w3: "same_except {tmp} fs fs3" "fmlookup (fs_files fs3) tmp = Some (concat (map (zf_member zf) ms))"
    by (auto simp: writing_def)
  from assms(1) c e n w3(2) have "z = tmp"
    "fs' = fs3\<lparr>fs_files := fmupd tmp (zip_bytes zf ms) (fs_files fs3)\<rparr>"
    by (auto simp: zip_paths_def os_append_def zip_bytes_def split: option.splits)
  with new modes w3(1) ms show ?thesis by (auto simp: same_except_def)
qed

lemma remove_last: "same_except {tmp} fs fs2 \<Longrightarrow> same_except {tmp} fs (snd (os_remove tmp fs2))"
  using os_remove_same same_except_same by blast

lemma remove_last_clean:
  "same_except {tmp} fs fs2 \<Longrightarrow> fs_faults fs2 = [] \<Longrightarrow> \<not> fs_exists fs tmp \<Longrightarrow>
     same_except {} fs (snd (os_remove tmp fs2))"
  by (auto simp: os_remove_snd same_except_def fs_exists_def fmlookup_dom_iff)

lemma zip_paths_err:
  assumes "zip_paths zf v tmp ps fs = (Inl e, fs')"
  shows "same_except {tmp} fs fs' \<and> (fs_exists fs tmp \<or> fs_faults fs = [] \<longrightarrow> same_except {} fs fs')"
proof -
  obtain x fs1 where c: "os_create_temp tmp fs = (x, fs1)" by fastforce
  show ?thesis
  proof (cases x)
    case (Inl a)
    with assms c os_create_temp_err [of tmp fs a fs1] show ?thesis
      by (auto simp: zip_paths_def intro: same_except_weak)
  next
    case (Inr u)
    from os_create_temp_ok [OF c [unfolded Inr]] have new: "\<not> fs_exists fs tmp"
      and k1: "same_except {tmp} fs fs1" by (auto simp: writing_def)
    obtain y fs2 where z: "zip_each zf v tmp ps [] fs1 = (y, fs2)" by fastforce
    note k2 = same_except_same [OF k1 zip_each_frame [OF z]]
    have f1: "fs_faults fs = [] \<Longrightarrow> fs_faults fs1 = []"
      using os_calls_faults(4) [of fs tmp] c by (simp add: os_create_temp_def split: if_splits)
    note f2 = zip_each_faults [OF z f1]
    obtain fs3 where r: "fs' = snd (os_remove tmp fs3)" and k3: "same_except {tmp} fs fs3"
      and f3: "fs_faults fs = [] \<Longrightarrow> fs_faults fs3 = []"
    proof (cases y)
      case (Inl b)
      with that [of fs2] assms c Inr z k2 f2 show ?thesis by (simp add: zip_paths_def)
    next
      case (Inr ms)
      obtain a b fs4 where ap: "os_append tmp (zf_end zf ms) fs2 = ((a, b), fs4)" by (metis prod.exhaust)
      have "fs_faults fs = [] \<Longrightarrow> fs_faults fs4 = []" using os_calls_faults(3) [OF f2] ap by (metis snd_conv)
      with that [of fs4] same_except_same [OF k2 os_append_frame [OF ap]] assms c \<open>x = Inr u\<close> z Inr ap
      show ?thesis by (auto simp: zip_paths_def split: option.splits)
    qed
    from remove_last [OF k3] remove_last_clean [OF k3 f3 new] new r show ?thesis by auto
  qed
qed

lemma zip_paths_frame:
  assumes "zip_paths zf v tmp ps fs = (r, fs')"
  shows "same_except {} fs fs' \<or> \<not> fs_exists fs tmp \<and> same_except {tmp} fs fs'"
    and "r = Inr z \<Longrightarrow> z = tmp \<and> \<not> fs_exists fs tmp \<and> same_except {tmp} fs fs'"
proof -
  have ok: "z = tmp \<and> \<not> fs_exists fs tmp \<and> same_except {tmp} fs fs'" if "r = Inr z" for z
  proof -
    from assms that obtain fs1 ms fs2 where
      c: "os_create_temp tmp fs = (Inr (), fs1)" and e: "zip_each zf v tmp ps [] fs1 = (Inr ms, fs2)"
      by (auto simp: zip_paths_def split: prod.splits sum.splits)
    obtain a b fs4 where ap: "os_append tmp (zf_end zf ms) fs2 = ((a, b), fs4)" by (metis prod.exhaust)
    from os_create_temp_ok [OF c] have "\<not> fs_exists fs tmp" "same_except {tmp} fs fs1" by (auto simp: writing_def)
    with same_except_same [OF same_except_same [OF this(2) zip_each_frame [OF e]] os_append_frame [OF ap]]
      assms that c e ap show ?thesis by (auto simp: zip_paths_def split: option.splits)
  qed
  then show "r = Inr z \<Longrightarrow> z = tmp \<and> \<not> fs_exists fs tmp \<and> same_except {tmp} fs fs'" .
  show "same_except {} fs fs' \<or> \<not> fs_exists fs tmp \<and> same_except {tmp} fs fs'"
    using ok zip_paths_err [of zf v tmp ps fs _ fs'] assms by (cases r) auto
qed


text \<open>A folder with a nested file and a link, beside a plain file.\<close>

definition sample_tree :: filesys where
  "sample_tree = \<lparr>fs_files = fmap_of_list [(''d/l'', [9]), (''d/s/b'', [2]), (''d/a'', [1]), (''e'', [3])],
     fs_dirs = {|''d'', ''d/s''|}, fs_faults = []\<rparr>"

definition sample_view :: lstat_view where
  "sample_view = \<lparr>lv_link = (\<lambda>p. p = ''d/l''), lv_special = (\<lambda>_. False)\<rparr>"

definition sample_zip :: zip_format where
  "sample_zip = \<lparr>zf_member = (\<lambda>(n, d). map (of_nat \<circ> of_char) n @ d), zf_end = (\<lambda>ms. [of_nat (length ms)])\<rparr>"

lemma zip_paths_sample: "concat (map (members_of sample_view sample_tree) [''d'', ''e'']) =
    [(''d/a'', [1]), (''d/s/b'', [2]), (''e'', [3])]"
  by code_simp

lemma zip_paths_sample_run:
  "fst (zip_paths sample_zip sample_view ''t/z'' [''d'', ''e''] sample_tree) = Inr ''t/z''"
  "fst (zip_paths sample_zip sample_view ''t/z'' [''e'', ''d/l''] sample_tree) = Inl (RefusedSymlink ''d/l'')"
  by code_simp+


end
