(* ===== verification/Cli.thy ===== *)
theory Cli
  imports Flags MailboxClient Session Discovery Archive
begin

text \<open>
  The commands of \<open>cmd/drop\<close>: choosing how to send, the peer-to-peer
  sending loop, and the receiving commands \<open>download\<close>, \<open>receive\<close> and \<open>discover\<close>.  Answers typed
  at prompts are arguments.  Printing, QR codes and progress bars are left out.
\<close>

section \<open>Choosing how to send\<close>

datatype cli_error =
    FlagError flag_error
  | Usage
  | NotFound path
  | InvalidMode string
  | InvalidChoice string
  | ZipFailed archive_error
  | StayOpenNeedsP2P
  | MailboxError client_error
  | ConnectFailed
  | WaitFailed sender_error
  | SendFailed sender_error
  | InputEnded
  | FolderInP2P path
  | ResumeCheckFailed os_error
  | NoTransfer
  | ReceiveFailed recv_error

text \<open>\<open>resolveMode\<close>: the flag, else the mailbox without a terminal, else the typed line.\<close>

definition resolve_mode :: "string \<Rightarrow> bool \<Rightarrow> string \<Rightarrow> cli_error + string" where
  "resolve_mode flagVal terminal line =
     (if flagVal = ''p2p'' \<or> flagVal = ''mailbox'' then Inr flagVal
      else if flagVal \<noteq> [] then Inl (InvalidMode flagVal)
      else if \<not> terminal then Inr ''mailbox''
      else let choice = trim_space line
      in if choice = [] \<or> choice = ''1'' then Inr ''p2p''
         else if choice = ''2'' then Inr ''mailbox''
         else Inl (InvalidChoice line))"

definition archive_name :: "path list \<Rightarrow> string" where
  "archive_name paths =
     (let b = base_name (clean (hd paths))
      in if length paths = 1 \<and> b \<noteq> ''.'' \<and> b \<noteq> ''/'' \<and> b \<noteq> [] then b @ ''.zip''
         else ''drop-'' @ itoa (length paths) @ ''-items.zip'')"

fun first_missing :: "path list \<Rightarrow> filesys \<Rightarrow> path option" where
  "first_missing [] fs = None"
| "first_missing (p # ps) fs = (if \<not> fs_exists fs p then Some p else first_missing ps fs)"

text \<open>What is to be sent, and the temporary archive to remove afterwards.\<close>

datatype send_plan =
    PlanP2P "path list"
  | PlanNative "path list"
  | PlanZip
  | PlanSingle path

definition send_plan_of :: "string \<Rightarrow> path list \<Rightarrow> filesys \<Rightarrow> send_plan" where
  "send_plan_of mode files fs =
     (let anyDir = list_ex (\<lambda>f. f |\<in>| fs_dirs fs) files;
          mailboxMultiNative = (mode = ''mailbox'' \<and> \<not> anyDir \<and> length files > 1);
          needsZip = (anyDir \<or> length files > 1 \<and> \<not> mailboxMultiNative)
      in if mode = ''p2p'' \<and> \<not> anyDir then PlanP2P files
         else if mailboxMultiNative then PlanNative files
         else if needsZip then PlanZip
         else PlanSingle (hd files))"

section \<open>Sending peer to peer\<close>

text \<open>One answer to the prompt for more files (\<open>None\<close>: the input ended).\<close>

fun check_paths :: "path list \<Rightarrow> filesys \<Rightarrow> cli_error + path list" where
  "check_paths [] fs = Inr []"
| "check_paths (p # ps) fs =
     (if \<not> fs_exists fs p then Inl (NotFound p)
      else if p |\<in>| fs_dirs fs then Inl (FolderInP2P p)
      else case check_paths ps fs of Inl e \<Rightarrow> Inl e | Inr out \<Rightarrow> Inr (p # out))"

definition read_next_send_paths :: "string option \<Rightarrow> filesys \<Rightarrow> cli_error + path list" where
  "read_next_send_paths line fs =
     (case line of None \<Rightarrow> Inl InputEnded | Some l \<Rightarrow> check_paths (split_fields (trim_space l)) fs)"

text \<open>
  The batch loop; each round has its negotiation and, when the session stays open, one answer.
  Files that the prompt names are looked up on the sender's disk.
\<close>

fun send_rounds ::
  "libs \<Rightarrow> bool \<Rightarrow> path list \<Rightarrow> negotiation \<Rightarrow> (string option \<times> negotiation) list \<Rightarrow> sender \<Rightarrow>
     (cli_error + unit) \<times> sender" where
  "send_rounds L stayOpen batch N rounds s =
     (case (if stayOpen then send_batch L N batch s else send_files L N batch s) of
        (Inl e, s1) \<Rightarrow> (Inl (SendFailed e), s1)
      | (Inr _, s1) \<Rightarrow>
          if \<not> stayOpen then (Inr (), s1)
          else case rounds of
            [] \<Rightarrow> (Inl InputEnded, s1)
          | (line, N1) # rest \<Rightarrow>
              (case read_next_send_paths line (sn_fs s1) of
                 Inl e \<Rightarrow> (Inl e, s1)
               | Inr next_batch \<Rightarrow>
                   if next_batch = [] then (Inr (), s1)
                   else send_rounds L stayOpen next_batch N1 rest s1))"

declare send_rounds.simps [simp del]

text \<open>What \<open>advertiseOnLAN\<close> announces; its failure is only noted.\<close>

definition lan_record :: "path list \<Rightarrow> string \<Rightarrow> bytes \<Rightarrow> service_record" where
  "lan_record paths derivedToken derivedKey =
     \<lparr>sr_instance = [], sr_token = derivedToken, sr_key = derivedKey,
      sr_label = (if length paths > 1 then itoa (length paths) @ '' files'' else base_name (hd paths)),
      sr_version = ProtocolVersion\<rparr>"

text \<open>\<open>sendP2P\<close>: the sender is closed on every path after it has connected.\<close>

definition send_p2p ::
  "libs \<Rightarrow> (link \<times> reads) option \<Rightarrow> path list \<Rightarrow> bool \<Rightarrow> negotiation \<Rightarrow> (string option \<times> negotiation) list \<Rightarrow>
     sender \<Rightarrow> (cli_error + unit) \<times> sender" where
  "send_p2p L dialed paths stayOpen N rounds s =
     (if length paths = 0 then (Inl (MailboxError NothingToSend), s)
      else case sender_connect_live dialed s of
        (Inl e, s1) \<Rightarrow> (Inl ConnectFailed, s1)
      | (Inr _, s1) \<Rightarrow>
          (case wait_for_peer L s1 of
             (Inl e, s2) \<Rightarrow> (Inl (WaitFailed e), close_sender s2)
           | (Inr _, s2) \<Rightarrow>
               (case send_rounds L stayOpen paths N rounds s2 of
                  (r, s3) \<Rightarrow> (r, close_sender s3))))"

section \<open>\<open>drop send\<close>\<close>

text \<open>
  What a run of \<open>cmdSend\<close> meets: the zip format, links on the disk and the name of a temporary
  file, the generated passphrase, whether standard
  input is a terminal and the line typed there, the network, the dial and the script of the
  peer-to-peer session.
\<close>

record 's send_io =
  io_format :: zip_format
  io_view :: lstat_view
  io_temp :: path
  io_phrase :: string
  io_terminal :: bool
  io_line :: string
  io_upper :: "string \<Rightarrow> string"
  io_post :: "'s post"
  io_overhead :: int
  io_nonce :: "bytes option"
  io_dialed :: "(link \<times> reads) option"
  io_negotiation :: negotiation
  io_rounds :: "(string option \<times> negotiation) list"
  io_sender :: sender

type_synonym 's sent = "(cli_error + sender option) \<times> filesys \<times> 's"

definition run_p2p :: "libs \<Rightarrow> 's send_io \<Rightarrow> bytes \<Rightarrow> path list \<Rightarrow> bool \<Rightarrow> filesys \<Rightarrow> 's \<Rightarrow> 's sent" where
  "run_p2p L io key paths stayOpen fs net =
     (case send_p2p L (io_dialed io) paths stayOpen (io_negotiation io) (io_rounds io)
             ((io_sender io)\<lparr>sn_key := key, sn_fs := fs\<rparr>) of
        (Inl e, s) \<Rightarrow> (Inl e, sn_fs s, net)
      | (Inr _, s) \<Rightarrow> (Inr (Some s), sn_fs s, net))"

definition mailbox_result :: "(client_error + string) \<times> filesys \<times> 's \<Rightarrow> 's sent" where
  "mailbox_result x =
     (case x of (Inl e, fs, net) \<Rightarrow> (Inl (MailboxError e), fs, net) | (Inr _, fs, net) \<Rightarrow> (Inr None, fs, net))"

text \<open>After the plan: the secrets, the check of \<open>--stay-open\<close>, the transfer itself.\<close>

definition send_with ::
  "libs \<Rightarrow> 's send_io \<Rightarrow> send_flags \<Rightarrow> string \<Rightarrow> send_plan \<Rightarrow> path \<Rightarrow> string \<Rightarrow> filesys \<Rightarrow> 's \<Rightarrow> 's sent" where
  "send_with L io fl mode plan uploadPath filename fs net =
     (let phrase = (if fl_resume fl \<noteq> [] then normalize (io_upper io) (fl_resume fl) else io_phrase io);
          token = derive_token (io_upper io) phrase;
          key = derive_key (io_upper io) phrase
      in if fl_stay_open fl \<and> mode \<noteq> ''p2p'' then (Inl StayOpenNeedsP2P, fs, net)
         else case plan of
           PlanP2P paths \<Rightarrow> run_p2p L io key paths (fl_stay_open fl) fs net
         | PlanNative paths \<Rightarrow>
             mailbox_result (send_mailbox_native (lib_seal L) (io_nonce io) (io_post io) (io_overhead io) paths token key fs net)
         | _ \<Rightarrow>
             if mode = ''p2p'' then run_p2p L io key [uploadPath] (fl_stay_open fl) fs net
             else mailbox_result (send_mailbox (lib_seal L) (io_nonce io) (io_post io) (io_overhead io) uploadPath filename
                    token key fs net))"

definition cmd_send :: "libs \<Rightarrow> 's send_io \<Rightarrow> string list \<Rightarrow> filesys \<Rightarrow> 's \<Rightarrow> 's sent" where
  "cmd_send L io args fs net =
     (case parse_send args no_flags of
        Inl e \<Rightarrow> (Inl (FlagError e), fs, net)
      | Inr (fl, files) \<Rightarrow>
          if files = [] then (Inl Usage, fs, net)
          else case first_missing files fs of
            Some p \<Rightarrow> (Inl (NotFound p), fs, net)
          | None \<Rightarrow>
              (case resolve_mode (fl_mode fl) (io_terminal io) (io_line io) of
                 Inl e \<Rightarrow> (Inl e, fs, net)
               | Inr mode \<Rightarrow>
                   (case send_plan_of mode files fs of
                      PlanZip \<Rightarrow>
                        (case zip_paths (io_format io) (io_view io) (io_temp io) files fs of
                           (Inl e, fs1) \<Rightarrow> (Inl (ZipFailed e), fs1, net)
                         | (Inr zipPath, fs1) \<Rightarrow>
                             (case send_with L io fl mode PlanZip zipPath (archive_name files) fs1 net of
                                (r, fs2, net2) \<Rightarrow> (r, snd (os_remove zipPath fs2), net2)))
                    | PlanSingle p \<Rightarrow> send_with L io fl mode (PlanSingle p) p (base_name p) fs net
                    | plan \<Rightarrow> send_with L io fl mode plan [] [] fs net)))"

section \<open>Receiving\<close>

definition with_fs :: "filesys \<Rightarrow> session \<Rightarrow> session" where
  "with_fs fs s = s\<lparr>ss_batch := (ss_batch s)\<lparr>bw_world := (bw_world (ss_batch s))\<lparr>rw_fs := fs\<rparr>\<rparr>\<rparr>"

definition session_fs :: "session \<Rightarrow> filesys" where
  "session_fs s = rw_fs (bw_world (ss_batch s))"

text \<open>
  The common end of the three receiving commands; the callback of \<open>--stay-open\<close> only prints.
\<close>

definition receive_all ::
  "libs \<Rightarrow> receiver \<Rightarrow> bool \<Rightarrow> path \<Rightarrow> session \<Rightarrow> (cli_error + path list) \<times> session" where
  "receive_all L r stayOpen destDir s =
     (if stayOpen then
        (case receive_batches L r destDir (\<lambda>_ _. True) s of
           (Some e, _, s1) \<Rightarrow> (Inl (ReceiveFailed e), s1)
         | (None, calls, s1) \<Rightarrow> (Inr (concat (map snd calls)), s1))
      else
        (case receive_files L r destDir s of
           ((_, Some e), s1) \<Rightarrow> (Inl (ReceiveFailed e), s1)
         | ((paths, None), s1) \<Rightarrow> (Inr paths, s1)))"

text \<open>\<open>drop receive\<close>: \<open>dialed\<close> is the connection, \<open>s\<close> the session on it.\<close>

definition cmd_receive ::
  "libs \<Rightarrow> (string \<Rightarrow> string) \<Rightarrow> string \<Rightarrow> path \<Rightarrow> bool \<Rightarrow> (link \<times> reads) option \<Rightarrow> session \<Rightarrow>
     (cli_error + path list) \<times> session" where
  "cmd_receive L uc phrase destDir stayOpen dialed s =
     (let r = \<lparr>rc_key = derive_key uc phrase, rc_resume = None\<rparr>
      in case receiver_connect L r dialed of
           (Inl e, _) \<Rightarrow> (Inl (ReceiveFailed e), s)
         | (Inr _, conn) \<Rightarrow>
             receive_all L r stayOpen destDir
               (case conn of
                  None \<Rightarrow> s
                | Some (l, rds) \<Rightarrow>
                    s\<lparr>ss_conn := rds,
                      ss_batch := (ss_batch s)\<lparr>bw_world := (bw_world (ss_batch s))\<lparr>rw_link := l\<rparr>\<rparr>\<rparr>))"

text \<open>The direct branch of \<open>drop download\<close> and the end of \<open>drop discover\<close>.\<close>

definition live_receive ::
  "libs \<Rightarrow> receiver \<Rightarrow> cli_error \<Rightarrow> bool \<Rightarrow> path \<Rightarrow> link option \<Rightarrow> session \<Rightarrow> (cli_error + path list) \<times> session" where
  "live_receive L r on_fail stayOpen destDir dialed s =
     (case receiver_connect_live L r dialed of
        (Inl _, _) \<Rightarrow> (Inl on_fail, s)
      | (Inr _, conn) \<Rightarrow>
          receive_all L r stayOpen destDir
            (case conn of
               None \<Rightarrow> s
             | Some l \<Rightarrow>
                 s\<lparr>ss_batch := (ss_batch s)\<lparr>bw_world := (bw_world (ss_batch s))\<lparr>rw_link := l\<rparr>\<rparr>\<rparr>))"

text \<open>Arguments of \<open>drop download\<close>: the last may be a directory.\<close>

definition download_args :: "string list \<Rightarrow> filesys \<Rightarrow> path \<times> string" where
  "download_args args fs =
     (if length args > 1 \<and> last args |\<in>| fs_dirs fs
      then (last args, join_with '' '' (butlast args)) else (''.'', join_with '' '' args))"

definition cmd_download ::
  "libs \<Rightarrow> (string \<Rightarrow> string) \<Rightarrow> 's fetch \<Rightarrow> int \<Rightarrow> link option \<Rightarrow> session \<Rightarrow> string list \<Rightarrow> filesys \<Rightarrow> 's \<Rightarrow>
     (cli_error + path list) \<times> filesys \<times> 's" where
  "cmd_download L uc fetch dirSize dialed ses args fs net =
     (case parse_stay_open_flags args of (stayOpen, args1) \<Rightarrow>
      case parse_resume_flag args1 of (resume, args2) \<Rightarrow>
      case download_args args2 fs of (destDir, phrase) \<Rightarrow>
      case download_phrase (lib_open L) uc fetch destDir phrase fs net of
        (Finished (Inl e) _, fs1, net1) \<Rightarrow> (Inl (MailboxError e), fs1, net1)
      | (Finished (Inr _) saved, fs1, net1) \<Rightarrow> (Inr saved, fs1, net1)
      | (GoDirect, fs1, net1) \<Rightarrow>
          (case (if resume then find_resume_candidate destDir dirSize fs1 else (Inr None, fs1)) of
             (Inl e, fs2) \<Rightarrow> (Inl (ResumeCheckFailed e), fs2, net1)
           | (Inr candidate, fs2) \<Rightarrow>
               (case live_receive L \<lparr>rc_key = derive_key uc phrase, rc_resume = candidate\<rparr> NoTransfer stayOpen destDir
                       dialed (with_fs fs2 ses) of
                  (res, s1) \<Rightarrow> (res, session_fs s1, net1))))"

text \<open>\<open>parseChoice\<close> and \<open>selectSender\<close>: a number from 1, the first by default.\<close>

definition parse_choice :: "string \<Rightarrow> nat \<Rightarrow> cli_error + nat" where
  "parse_choice typed n =
     (let s = (if typed = [] then ''1'' else typed)
      in case atoi s of
           None \<Rightarrow> Inl (InvalidChoice s)
         | Some idx \<Rightarrow> if idx < 1 \<or> idx > int n then Inl (InvalidChoice s) else Inr (nat (idx - 1)))"

definition select_sender :: "service_record list \<Rightarrow> string \<Rightarrow> cli_error + service_record" where
  "select_sender records line =
     (case parse_choice (trim_space line) (length records) of Inl e \<Rightarrow> Inl e | Inr i \<Rightarrow> Inr (records ! i))"

definition cmd_discover ::
  "libs \<Rightarrow> (string \<times> string list) list option \<Rightarrow> string \<Rightarrow> link option \<Rightarrow> string list \<Rightarrow> session \<Rightarrow>
     (cli_error + path list) \<times> session" where
  "cmd_discover L entries line dialed args s =
     (case parse_stay_open_flags args of (stayOpen, rest) \<Rightarrow>
      let destDir = (if rest \<noteq> [] then hd rest else ''.'')
      in case browse entries of
           None \<Rightarrow> (Inr [], s)
         | Some records \<Rightarrow>
             if records = [] then (Inr [], s)
             else case select_sender records line of
               Inl e \<Rightarrow> (Inl e, s)
             | Inr chosen \<Rightarrow>
                 live_receive L \<lparr>rc_key = sr_key chosen, rc_resume = None\<rparr> ConnectFailed stayOpen destDir dialed s)"

end
