(* ===== verification/CliProps.thy ===== *)
theory CliProps
  imports Cli
begin

text \<open>What the sending command leaves behind: the user's files as they were, and no open transport.\<close>

section \<open>Files\<close>

definition same_files :: "sender \<Rightarrow> sender \<Rightarrow> bool" where
  "same_files s s' \<longleftrightarrow> same_except {} (sn_fs s) (sn_fs s')"

lemma same_files_refl [simp]: "same_files s s"
  by (auto simp: same_files_def)

lemma same_files_trans [trans]: "same_files a b \<Longrightarrow> same_files b c \<Longrightarrow> same_files a c"
  unfolding same_files_def by (rule same_except_same)

lemma same_files_quiet: "quiet s s' \<Longrightarrow> same_files s s'"
  by (auto simp: quiet_def same_files_def same_except_def)

lemma same_files_fs [simp]: "sn_fs s = sn_fs s' \<Longrightarrow> same_files s s'"
  by (auto simp: same_files_def)

lemma close_keeps_fs [simp]: "sn_fs (close_peer s) = sn_fs s" "sn_fs (close_transport s) = sn_fs s"
    "sn_fs (close_sender s) = sn_fs s"
  by (auto simp: close_peer_def close_transport_def close_sender_def Let_def split: option.split)

lemma stream_file_files:
  assumes "stream_file L wire i p s = (r, s')"
  shows "same_files s s'"
proof -
  have "same_files s (s\<lparr>sn_pending := None\<rparr>)" by simp
  also have "same_files (s\<lparr>sn_pending := None\<rparr>) s'"
    by (rule same_files_quiet [OF quiet_stream_file [OF assms]])
  finally show ?thesis .
qed

lemma send_paths_files: "send_paths L wire i ps s = (r, s') \<Longrightarrow> same_files s s'"
proof (induction ps arbitrary: i s)
  case (Cons p ps)
  obtain x s1 where f: "stream_file L wire i p s = (x, s1)" by fastforce
  note k = stream_file_files [OF f]
  show ?case
  proof (cases x)
    case (Inl e)
    with Cons.prems f k show ?thesis
      by (auto simp: same_files_def split: if_splits)
  next
    case (Inr u)
    with Cons f k show ?thesis by (auto intro: same_files_trans)
  qed
qed simp

lemma negotiate_files: "negotiate_or_reuse L N s = (r, s') \<Longrightarrow> same_files s s'"
  by (auto simp: negotiate_or_reuse_def Let_def split: sender_transport.splits if_splits prod.splits sum.splits)

lemma send_batch_files:
  assumes "send_batch L N ps s = (r, s')"
  shows "same_files s s'"
proof (cases "ps = []")
  case False
  obtain x s1 where n: "negotiate_or_reuse L N s = (x, s1)" by fastforce
  note k = negotiate_files [OF n]
  show ?thesis
  proof (cases x)
    case (Inl e)
    with assms False n k show ?thesis by (simp add: send_batch_def)
  next
    case (Inr wire)
    obtain y s2 where p: "send_paths L wire 0 ps s1 = (y, s2)" by fastforce
    obtain z s3 where o: "send_on L wire new_session_end_message s2 = (z, s3)" by fastforce
    have "same_files s s2" "same_files s2 s3"
      using same_files_trans [OF k send_paths_files [OF p]] same_files_quiet [OF quiet_send_on [OF o]] by auto
    then have "same_files s s3" "same_files s s2" by (auto intro: same_files_trans)
    with assms False n Inr p o show ?thesis
      by (auto simp: send_batch_def same_files_def split: sum.splits if_splits)
  qed
qed (use assms in \<open>simp add: send_batch_def\<close>)

lemma send_files_files: "send_files L N ps s = (r, s') \<Longrightarrow> same_files s s'"
  using send_batch_files [of L N ps s]
  by (auto simp: send_files_def same_files_def split: prod.splits sum.splits)

lemma send_round_files:
  "(if stay then send_batch L N ps s else send_files L N ps s) = (r, s') \<Longrightarrow> same_files s s'"
  using send_batch_files send_files_files by (auto split: if_splits)

lemma send_rounds_files: "send_rounds L stay ps N rounds s = (r, s') \<Longrightarrow> same_files s s'"
proof (induction L stay ps N rounds s arbitrary: r s' rule: send_rounds.induct)
  case (1 L stay ps N rounds s)
  obtain y s1 where b: "(if stay then send_batch L N ps s else send_files L N ps s) = (y, s1)" by fastforce
  note k = send_round_files [OF b]
  show ?case
  proof (cases "\<exists>e. y = Inl e \<or> \<not> stay \<or> rounds = []")
    case True
    with "1.prems" b k show ?thesis
      by (subst (asm) send_rounds.simps) (auto split: sum.splits if_splits list.splits prod.splits simp: send_rounds.simps)
  next
    case False
    then obtain u line N1 rest where y: "y = Inr u" and st: "stay" and rs: "rounds = (line, N1) # rest"
      by (cases y; cases rounds) auto
    show ?thesis
    proof (cases "read_next_send_paths line (sn_fs s1)")
      case (Inl e)
      with "1.prems" b k y st rs show ?thesis by (subst (asm) send_rounds.simps) simp
    next
      case (Inr nxt)
      show ?thesis
      proof (cases "nxt = []")
        case True
        with "1.prems" b k y st rs Inr show ?thesis by (subst (asm) send_rounds.simps) simp
      next
        case False
        with "1.prems" b y st rs Inr have "send_rounds L stay nxt N1 rest s1 = (r, s')"
          by (subst (asm) send_rounds.simps) simp
        from "1.IH" [OF b [symmetric] y _ rs refl Inr False this] st have "same_files s1 s'" by simp
        with k show ?thesis by (rule same_files_trans)
      qed
    qed
  qed
qed

lemma connect_files: "sender_connect_live dialed s = (x, s1) \<Longrightarrow> same_files s s1"
  by (auto simp: sender_connect_live_def split: option.splits prod.splits)

lemma wait_files: "wait_for_peer L s = (x, s1) \<Longrightarrow> same_files s s1"
  by (auto simp: wait_for_peer_def split: prod.splits)

lemma send_p2p_files:
  assumes "send_p2p L dialed ps stay N rounds s = (r, s')"
  shows "same_files s s'"
proof (cases "ps = []")
  case False
  obtain x s1 where c: "sender_connect_live dialed s = (x, s1)" by fastforce
  obtain y s2 where w: "wait_for_peer L s1 = (y, s2)" by fastforce
  obtain z s3 where p: "send_rounds L stay ps N rounds s2 = (z, s3)" by fastforce
  note s1 = connect_files [OF c]
  note s2 = same_files_trans [OF s1 wait_files [OF w]]
  note s3 = same_files_trans [OF s2 send_rounds_files [OF p]]
  from assms False c w p s1 s2 s3 show ?thesis
    by (cases x; cases y) (auto simp: send_p2p_def same_files_def)
qed (use assms in \<open>simp add: send_p2p_def\<close>)

text \<open>Whatever happens, no peer is left open.\<close>

lemma close_sender_peer: "sn_peer (close_sender s) = None \<and> sn_transport (close_sender s) = TransportIdle"
  by (auto simp: close_sender_def close_transport_def Let_def split: option.split)

lemma send_p2p_closed:
  assumes "send_p2p L dialed ps stay N rounds s = (r, s')" and "sn_peer s = None"
  shows "sn_peer s' = None \<and> (r = Inr () \<longrightarrow> sn_transport s' = TransportIdle)"
  using assms close_sender_peer
  by (auto simp: send_p2p_def sender_connect_live_def split: if_splits prod.splits sum.splits option.splits)

section \<open>The mailbox side\<close>

lemma os_read_file_same: "os_read_file p fs = (r, fs') \<Longrightarrow> same_except {} fs fs'"
  by (cases "next_fault fs")
    (auto simp: os_read_file_def same_except_def split: option.splits if_splits dest: next_fault_frame)

lemma read_entries_same: "read_entries ps fs = (r, fs') \<Longrightarrow> same_except {} fs fs'"
proof (induction ps arbitrary: fs r fs')
  case (Cons p ps)
  obtain x fs1 where f: "os_read_file p fs = (x, fs1)" by fastforce
  note k = os_read_file_same [OF f]
  show ?case
  proof (cases x)
    case (Inl e)
    with Cons.prems f k show ?thesis by simp
  next
    case (Inr raw)
    obtain y fs2 where "read_entries ps fs1 = (y, fs2)" by fastforce
    with Cons.IH [OF this] Cons.prems f k Inr same_except_same [OF k] show ?thesis
      by (auto split: sum.splits)
  qed
qed auto

lemma send_mailbox_same:
  "send_mailbox seal rnd post ov p n tok key fs net = (r, fs', net') \<Longrightarrow> same_except {} fs fs'"
  using os_read_file_same [of p fs]
  by (cases "os_read_file p fs") (auto simp: send_mailbox_def Let_def split: sum.splits prod.splits)

lemma send_native_same:
  "send_mailbox_native seal rnd post ov ps tok key fs net = (r, fs', net') \<Longrightarrow> same_except {} fs fs'"
  using read_entries_same [of ps fs]
  by (cases "read_entries ps fs") (auto simp: send_mailbox_native_def split: sum.splits prod.splits if_splits)

definition closed_result :: "cli_error + sender option \<Rightarrow> bool" where
  "closed_result r =
     (case r of Inr (Some s) \<Rightarrow> sn_peer s = None \<and> sn_transport s = TransportIdle | _ \<Rightarrow> True)"

lemma run_p2p_same:
  assumes "run_p2p L io key ps stay fs net = (r, fs', net')" and "sn_peer (io_sender io) = None"
  shows "same_except {} fs fs' \<and> closed_result r"
proof -
  let ?s = "(io_sender io)\<lparr>sn_key := key, sn_fs := fs\<rparr>"
  obtain x s where p: "send_p2p L (io_dialed io) ps stay (io_negotiation io) (io_rounds io) ?s = (x, s)" by fastforce
  with send_p2p_files [OF p] send_p2p_closed [OF p] assms show ?thesis
    by (cases x) (auto simp: run_p2p_def same_files_def closed_result_def)
qed

lemma mailbox_result_closed: "mailbox_result x = (r, fs', net') \<Longrightarrow> closed_result r \<and> fs' = fst (snd x)"
  by (auto simp: mailbox_result_def closed_result_def split: prod.splits sum.splits)

lemma send_with_same:
  assumes "send_with L io fl mode plan p n fs net = (r, fs', net')" and "sn_peer (io_sender io) = None"
  shows "same_except {} fs fs' \<and> closed_result r"
  using assms(1)
  by (auto simp: send_with_def Let_def closed_result_def [of "Inl _"] split: if_splits send_plan.splits
      dest!: run_p2p_same [OF _ assms(2)] mailbox_result_closed)
    (metis prod.collapse send_native_same send_mailbox_same)+

definition new_file_only :: "path \<Rightarrow> filesys \<Rightarrow> filesys \<Rightarrow> bool" where
  "new_file_only z fs fs' \<longleftrightarrow> same_except {} fs fs' \<or> \<not> fs_exists fs z \<and> same_except {z} fs fs'"

lemma new_file_only_files:
  assumes "new_file_only z fs fs'"
  shows "fs_dirs fs' = fs_dirs fs" and "fs_exists fs p \<Longrightarrow> fmlookup (fs_files fs') p = fmlookup (fs_files fs) p"
    and "fmdom (fs_files fs') |\<subseteq>| finsert z (fmdom (fs_files fs))"
proof -
  have look: "fmlookup (fs_files fs') q = fmlookup (fs_files fs) q" if "q \<noteq> z \<or> fs_exists fs z" for q
    using assms that by (auto simp: new_file_only_def same_except_def)
  show "fs_dirs fs' = fs_dirs fs" using assms by (auto simp: new_file_only_def same_except_def)
  show "fs_exists fs p \<Longrightarrow> fmlookup (fs_files fs') p = fmlookup (fs_files fs) p" using look by (cases "p = z") auto
  show "fmdom (fs_files fs') |\<subseteq>| finsert z (fmdom (fs_files fs))"
    using look by (metis fmdom_notD fmlookup_dom_iff finsertCI fsubsetI option.distinct(1))
qed

lemma new_file_only_same [intro]: "same_except {} fs fs' \<Longrightarrow> new_file_only z fs fs'"
  by (simp add: new_file_only_def)

lemma zip_new_file: "zip_paths zf v tmp ps fs = (r, fs') \<Longrightarrow> new_file_only tmp fs fs'"
  using zip_paths_frame(1) unfolding new_file_only_def by blast

lemma zip_send_remove:
  assumes "zip_paths zf v tmp ps fs = (Inr z, fs1)" and "same_except {} fs1 fs2"
  shows "new_file_only tmp fs (snd (os_remove z fs2))"
proof -
  from zip_paths_frame(2) [OF assms(1) refl] have "z = tmp" "\<not> fs_exists fs z" "same_except {z} fs fs1" by auto
  with same_except_weak [OF assms(2)] have "same_except {z} fs fs2" using same_except_same by blast
  with \<open>\<not> fs_exists fs z\<close> \<open>z = tmp\<close> show ?thesis
    unfolding new_file_only_def using os_remove_same same_except_same by blast
qed

lemma cmd_send_same:
  assumes c: "sn_peer (io_sender io) = None" and r: "cmd_send L io args fs net = (r, fs', net')"
  shows "new_file_only (io_temp io) fs fs' \<and> closed_result r"
proof (cases "parse_send args no_flags")
  case (Inl e)
  with r show ?thesis by (auto simp: cmd_send_def closed_result_def)
next
  case (Inr x)
  then obtain fl files where p: "parse_send args no_flags = Inr (fl, files)"
    by (cases x) auto
  show ?thesis
  proof (cases "files = [] \<or> first_missing files fs \<noteq> None")
    case True
    with r p show ?thesis
      by (cases "files = []") (auto simp: cmd_send_def closed_result_def split: option.splits)
  next
    case False
    then have ok: "files \<noteq> []" "first_missing files fs = None" by auto
    show ?thesis
    proof (cases "resolve_mode (fl_mode fl) (io_terminal io) (io_line io)")
      case (Inl e)
      with r p ok show ?thesis by (auto simp: cmd_send_def closed_result_def)
    next
      case m: (Inr mode)
      note unf = cmd_send_def p ok m
      show ?thesis
      proof (cases "send_plan_of mode files fs")
        case PlanZip
        obtain a fs1 where zp: "zip_paths (io_format io) (io_view io) (io_temp io) files fs = (a, fs1)" by fastforce
        show ?thesis
        proof (cases a)
          case (Inl e)
          with r zp zip_new_file [OF zp] PlanZip show ?thesis by (auto simp: unf closed_result_def)
        next
          case (Inr zip_path)
          obtain q fs2 net2 where
            s: "send_with L io fl mode PlanZip zip_path (archive_name files) fs1 net = (q, fs2, net2)"
            by (rule prod_cases3)
          note k = send_with_same [OF s c]
          from r s zp Inr PlanZip have "r = q" "fs' = snd (os_remove zip_path fs2)" by (auto simp: unf)
          with k zip_send_remove [OF zp [unfolded Inr]] show ?thesis by blast
        qed
      next
        case (PlanSingle u)
        with r have "send_with L io fl mode (PlanSingle u) u (base_name u) fs net = (r, fs', net')"
          by (simp add: unf)
        from send_with_same [OF this c] show ?thesis by blast
      next
        case (PlanP2P us)
        with r have "send_with L io fl mode (PlanP2P us) [] [] fs net = (r, fs', net')"
          by (simp add: unf)
        from send_with_same [OF this c] show ?thesis by blast
      next
        case (PlanNative us)
        with r have "send_with L io fl mode (PlanNative us) [] [] fs net = (r, fs', net')"
          by (simp add: unf)
        from send_with_same [OF this c] show ?thesis by blast
      qed
    qed
  qed
qed

section \<open>Discovery\<close>

text \<open>
  A receiver that presses Enter at the menu, with one sender on the LAN, receives with the
  key of that sender.
\<close>

lemma discover_joins_sender:
  assumes "derivedToken \<noteq> []" and "derivedKey \<noteq> []"
    and "parse_stay_open_flags args = (stayOpen, rest)"
  shows "cmd_discover L (Some [advertise hostname (lan_record paths derivedToken derivedKey)]) [] dialed args s =
     live_receive L \<lparr>rc_key = derivedKey, rc_resume = None\<rparr> ConnectFailed stayOpen
       (if rest \<noteq> [] then hd rest else ''.'') dialed s"
proof -
  obtain r where r: "(case advertise hostname (lan_record paths derivedToken derivedKey) of (n, fs) \<Rightarrow> parse_entry n fs) = Some r"
      "sr_key r = derivedKey"
    using assms(1,2) by (simp add: parse_advertised lan_record_def)
  have "parse_choice (trim_space []) 1 = Inr 0" by code_simp
  with r assms(3) show ?thesis
    by (cases "advertise hostname (lan_record paths derivedToken derivedKey)")
      (simp add: cmd_discover_def browse_def List.map_filter_def select_sender_def)
qed

section \<open>Property\<close>


text \<open>Zipping a folder and a file for the mailbox of a relay that does not answer.\<close>

definition sample_io :: "unit send_io" where
  "sample_io = \<lparr>io_format = sample_zip, io_view = sample_view, io_temp = ''t/z'', io_phrase = ''RED FOX'',
     io_terminal = False, io_line = [], io_upper = id, io_post = (\<lambda>_ s. (None, s)), io_overhead = 200,
     io_nonce = Some (replicate 24 5), io_dialed = None, io_negotiation = sample_negotiation, io_rounds = [],
     io_sender = sample_sender sample_tree\<rparr>"


end
