(* ===== verification/LiveWire.thy ===== *)
theory LiveWire
  imports EndToEnd CliProps
begin

text \<open>
  What a whole peer-to-peer run of \<open>drop send\<close> puts on its two connections: the negotiation on the relay's
  WebSocket, then the batches on the data channel, or on the WebSocket when the negotiation failed.
\<close>

section \<open>Frames on one link\<close>

definition wrote :: "libs \<Rightarrow> bytes \<Rightarrow> link \<Rightarrow> link \<Rightarrow> message list \<Rightarrow> bool" where
  "wrote L key l l' ms \<longleftrightarrow>
     lk_rand l' = lk_rand l \<and> lk_up l' = lk_up l \<and> (\<exists>fr. lk_sent l' = lk_sent l @ fr \<and> opens_to L key fr ms)"

lemma wrote_none [simp, intro]: "wrote L key l l []"
  by (simp add: wrote_def opens_to_def)

lemma wrote_trans: "wrote L key a b ms \<Longrightarrow> wrote L key b c ns \<Longrightarrow> wrote L key a c (ms @ ns)"
  unfolding wrote_def by (fastforce intro: opens_to_append)

lemma wrote_up: "wrote L key l l' ms \<Longrightarrow> link_up l \<Longrightarrow> link_up l'"
  by (simp add: wrote_def link_up_def nonces_ok_def)

lemma carries_wrote:
  "carries L wire s s' ms \<longleftrightarrow>
     sn_key s' = sn_key s \<and>
     (\<exists>l l'. wire_link wire s = Some l \<and> wire_link wire s' = Some l' \<and> wrote L (sn_key s) l l' ms)"
  by (auto simp: carries_def wrote_def)

lemma write_wrote:
  assumes "sound L" and "length key = KeySize" and "link_up l" and "frameable m"
  shows "\<exists>l'. write_signal_msg L key m l = (Inr (), l') \<and> wrote L key l l' [m]"
proof -
  obtain l' where w: "write_encrypted L key m l = (Inr (), l')"
    using write_encrypted_up [OF assms(3,2)] by blast
  moreover have "nonces_ok l" using assms(3) by (simp add: link_up_def)
  ultimately show ?thesis
    using write_encrypted_Inr [OF w _ _ assms(4)] write_encrypted_frame [OF w] assms(1)
    by (auto simp: write_signal_msg_eq wrote_def sound_def)
qed

text \<open>The messages of a wrote link, as its other end reads them.\<close>

lemma wrote_reads:
  "wrote L key l l' ms \<Longrightarrow> lk_sent l = [] \<Longrightarrow> received_reads L key (lk_sent l') = map Inr ms"
  by (auto simp: wrote_def received_reads_def opens_to_def)

section \<open>The negotiation\<close>

text \<open>Offers, candidates and error texts are shorter than the format's 4 GiB.\<close>

definition signals_fit :: "negotiation \<Rightarrow> bool" where
  "signals_fit N \<longleftrightarrow>
     (\<forall>sdp. rtc_create_offer (nt_rtc N) = Some sdp \<longrightarrow> frameable (new_sdp_offer_message sdp)) \<and>
     (\<forall>raw. LocalCandidate raw \<in> set (nt_events N) \<longrightarrow> frameable (new_ice_candidate_message raw)) \<and>
     (\<forall>e. frameable (new_p2p_fail_message (nt_text N e)))"

definition candidates :: "message list \<Rightarrow> bool" where
  "candidates ms \<longleftrightarrow> list_all (\<lambda>m. mtype m = MsgTypeICECandidate) ms"

definition offered :: "rtc \<Rightarrow> message list \<Rightarrow> bool" where
  "offered R ms \<longleftrightarrow>
     (\<exists>sdp ics. rtc_create_offer R = Some sdp \<and> candidates ics \<and> ms = new_sdp_offer_message sdp # ics)"

lemma candidates_simps [simp]:
  "candidates []" "candidates (m # ms) \<longleftrightarrow> mtype m = MsgTypeICECandidate \<and> candidates ms"
  by (simp_all add: candidates_def)

lemma sender_loop_wrote:
  assumes "sound L" and "length key = KeySize"
  shows "link_up (ng_link g) \<Longrightarrow> (\<forall>raw. LocalCandidate raw \<in> set evs \<longrightarrow> frameable (new_ice_candidate_message raw)) \<Longrightarrow>
     \<exists>ics. candidates ics \<and> wrote L key (ng_link g) (ng_link (snd (negotiate_sender_loop L key R evs g))) ics"
proof (induction evs arbitrary: g)
  case Nil
  then show ?case by (intro exI [of _ "[]"]) simp
next
  case (Cons ev evs)
  show ?case
  proof (cases ev)
    case (LocalCandidate raw)
    with Cons.prems(2) have "frameable (new_ice_candidate_message raw)" by simp
    from write_wrote [OF assms Cons.prems(1) this] obtain l where
      l: "write_signal_msg L key (new_ice_candidate_message raw) (ng_link g) = (Inr (), l)"
        "wrote L key (ng_link g) l [new_ice_candidate_message raw]" by blast
    define h where "h = g\<lparr>ng_link := l\<rparr>"
    then have h: "ng_link h = l" by simp
    have up: "link_up (ng_link h)" using wrote_up [OF l(2) Cons.prems(1)] h by simp
    have "\<forall>raw. LocalCandidate raw \<in> set evs \<longrightarrow> frameable (new_ice_candidate_message raw)"
      using Cons.prems(2) by simp
    from Cons.IH [OF up this] obtain ics where
      "candidates ics" "wrote L key l (ng_link (snd (negotiate_sender_loop L key R evs h))) ics"
      unfolding h by blast
    with wrote_trans [OF l(2)] l(1) LocalCandidate h_def show ?thesis
      by (intro exI [of _ "new_ice_candidate_message raw # ics"])
        (simp add: signal_def new_ice_candidate_message_def)
  next
    case ReadsReady
    have step: "\<exists>ics. candidates ics \<and> wrote L key (ng_link g) (ng_link (snd (negotiate_sender_loop L key R evs h))) ics"
      if "ng_link h = ng_link g" for h
      using Cons.IH [of h] Cons.prems that by simp
    show ?thesis
      using step ReadsReady by (auto simp: Let_def split: list.split sum.split intro!: exI [of _ "[]"])
  qed (use Cons.prems in \<open>auto intro!: exI [of _ "[]"]\<close>)
qed

lemma negotiate_sender_wrote:
  assumes "sound L" and "length key = KeySize" and "link_up l" and "signals_fit N"
    and "negotiate_sender L key (nt_rtc N) (nt_events N) (new_neg rds l) = (r, g)"
  shows "\<exists>ms. wrote L key l (ng_link g) ms \<and> (offered (nt_rtc N) ms \<or> (\<exists>e. r = Inl e) \<and> ms = [])"
proof (cases "rtc_new_peer (nt_rtc N)")
  case False
  with assms(5) show ?thesis
    by (intro exI [of _ "[]"]) (auto simp: negotiate_sender_def new_neg_def)
next
  case np: True
  show ?thesis
  proof (cases "rtc_create_offer (nt_rtc N)")
    case None
    with assms(5) np show ?thesis
      by (intro exI [of _ "[]"]) (auto simp: negotiate_sender_def create_offer_def new_neg_def)
  next
    case (Some sdp)
    with assms(4) have "frameable (new_sdp_offer_message sdp)" by (simp add: signals_fit_def)
    from write_wrote [OF assms(1,2,3) this] obtain k where
      k: "write_signal_msg L key (new_sdp_offer_message sdp) l = (Inr (), k)"
        "wrote L key l k [new_sdp_offer_message sdp]" by blast
    let ?g = "\<lparr>ng_reads = start_ws_reader rds, ng_link = k, ng_acts = []\<rparr>"
    have g: "(r, g) = negotiate_sender_loop L key (nt_rtc N) (nt_events N) ?g"
      using assms(5) np Some k(1)
      by (simp add: negotiate_sender_def create_offer_def signal_def new_neg_def)
    have "link_up (ng_link ?g)" using wrote_up [OF k(2) assms(3)] by simp
    from sender_loop_wrote [OF assms(1,2) this] assms(4) obtain ics where
      "candidates ics" "wrote L key k (ng_link g) ics"
      unfolding signals_fit_def by (metis g neg.select_convs(2) snd_conv)
    with wrote_trans [OF k(2), of "ng_link g" ics] Some show ?thesis
      by (intro exI [of _ "new_sdp_offer_message sdp # ics"]) (auto simp: offered_def)
  qed
qed

text \<open>The wire that a sender uses until its transport is closed.\<close>

definition on_wire :: "wire \<Rightarrow> sender \<Rightarrow> bool" where
  "on_wire wire s \<longleftrightarrow>
     (case wire of
        PeerWire \<Rightarrow> sn_transport s = TransportP2P \<and> sn_peer s \<noteq> None
      | WSWire \<Rightarrow> sn_transport s = TransportWS \<and> sn_peer s = None)"

lemma on_wire_reuse: "on_wire wire s \<Longrightarrow> negotiate_or_reuse L N s = (Inr wire, s)"
  by (auto simp: on_wire_def negotiate_or_reuse_def split: wire.splits)

lemma on_wire_quiet: "quiet s s' \<Longrightarrow> on_wire wire s' = on_wire wire s"
  by (simp add: on_wire_def quiet_def split: wire.split)

definition negotiated :: "negotiation \<Rightarrow> wire \<Rightarrow> message list \<Rightarrow> bool" where
  "negotiated N wire ms \<longleftrightarrow>
     (case wire of
        PeerWire \<Rightarrow> (\<exists>pre. offered (nt_rtc N) pre \<and> ms = pre @ [new_p2p_ready_message])
      | WSWire \<Rightarrow> (\<exists>pre e. (pre = [] \<or> offered (nt_rtc N) pre) \<and> ms = pre @ [new_p2p_fail_message (nt_text N e)]))"

text \<open>On a relay connection that stays up, a negotiation always ends on a wire.\<close>

lemma negotiate_idle:
  assumes "sound L" and "length (sn_key s) = KeySize" and "link_up (sn_conn s)" and "signals_fit N"
    and "sn_transport s = TransportIdle" and "sn_peer s = None"
  shows "\<exists>wire s1 ms. negotiate_or_reuse L N s = (Inr wire, s1) \<and> on_wire wire s1 \<and> negotiated N wire ms \<and>
     wrote L (sn_key s) (sn_conn s) (sn_conn s1) ms \<and> link_up (sn_conn s1) \<and> sn_closed s1 = sn_closed s \<and>
     (wire = PeerWire \<longrightarrow> sn_peer s1 = Some (nt_channel N))"
proof -
  obtain r g where n: "negotiate_sender L (sn_key s) (nt_rtc N) (nt_events N) (new_neg (sn_in s) (sn_conn s)) = (r, g)"
    by fastforce
  from negotiate_sender_wrote [OF assms(1-4) n] obtain pre where
    pre: "wrote L (sn_key s) (sn_conn s) (ng_link g) pre" "offered (nt_rtc N) pre \<or> (\<exists>e. r = Inl e) \<and> pre = []"
    by blast
  note up = wrote_up [OF pre(1) assms(3)]
  show ?thesis
  proof (cases r)
    case (Inl e)
    from assms(4) have "frameable (new_p2p_fail_message (nt_text N e))" by (simp add: signals_fit_def)
    from write_wrote [OF assms(1,2) up this] obtain k where
      k: "write_signal_msg L (sn_key s) (new_p2p_fail_message (nt_text N e)) (ng_link g) = (Inr (), k)"
        "wrote L (sn_key s) (ng_link g) k [new_p2p_fail_message (nt_text N e)]" by blast
    have "negotiated N WSWire (pre @ [new_p2p_fail_message (nt_text N e)])"
      using pre(2) by (auto simp: negotiated_def)
    with wrote_trans [OF pre(1) k(2)] wrote_up [OF k(2) up] k(1) n Inl assms(5,6) show ?thesis
      by (auto simp: negotiate_or_reuse_def on_wire_def Let_def)
  next
    case (Inr u)
    have "frameable new_p2p_ready_message" by (simp add: frameable_def new_p2p_ready_message_def)
    from write_wrote [OF assms(1,2) up this] obtain k where
      k: "write_signal_msg L (sn_key s) new_p2p_ready_message (ng_link g) = (Inr (), k)"
        "wrote L (sn_key s) (ng_link g) k [new_p2p_ready_message]" by blast
    have "negotiated N PeerWire (pre @ [new_p2p_ready_message])"
      using pre(2) Inr by (auto simp: negotiated_def)
    with wrote_trans [OF pre(1) k(2)] wrote_up [OF k(2) up] k(1) n Inr assms(5) show ?thesis
      by (auto simp: negotiate_or_reuse_def on_wire_def Let_def)
  qed
qed

section \<open>The batches\<close>

text \<open>On the data channel nothing more goes over the relay.\<close>

lemma conn_on_fs: "on_fs f s = (r, s') \<Longrightarrow> sn_conn s' = sn_conn s"
  by (auto simp: on_fs_def split: prod.splits)

lemma conn_send_on: "send_on L PeerWire m s = (r, s') \<Longrightarrow> sn_conn s' = sn_conn s"
  by (auto simp: send_on_def split: prod.splits option.splits)

lemma conn_send_loop: "send_loop L wire i n src sent s = (r, s') \<Longrightarrow> wire = PeerWire \<Longrightarrow> sn_conn s' = sn_conn s"
proof (induction L wire i n src sent s arbitrary: r s' rule: send_loop.induct)
  case (1 L wire i n src sent s)
  obtain d e s1 where rd: "file_read src s = ((d, e), s1)" by (metis surj_pair)
  have c1: "sn_conn s1 = sn_conn s" using rd by (auto simp: file_read_def split: prod.splits)
  define x where "x = (if d = [] then (Inr () :: sender_error + unit, s1)
      else case send_on L wire (new_chunk_message d) s1 of
        (Inl x, s2) \<Rightarrow> (Inl (SendChunk x), s2)
      | (Inr _, s2) \<Rightarrow> (Inr (), progress_at i (sent + int (length d)) n s2))"
  have cx: "sn_conn (snd x) = sn_conn s"
    using c1 "1.prems"(2) by (auto simp: x_def progress_at_def split: prod.splits sum.splits dest: conn_send_on)
  have l: "send_loop L wire i n src sent s =
      (case x of (Inl e, s3) \<Rightarrow> (Inl e, s3)
       | (Inr _, s3) \<Rightarrow>
           (case e of AtEOF \<Rightarrow> (Inr (), s3) | ReadErr x \<Rightarrow> (Inl (ReadFile x), s3)
            | MoreData \<Rightarrow> send_loop L wire i n (map_option (drop (length d)) src) (sent + int (length d)) s3))"
    by (subst send_loop.simps) (simp add: rd x_def)
  show ?case
  proof (cases "\<exists>s3. x = (Inr (), s3) \<and> e = MoreData")
    case True
    then obtain s3 where x: "x = (Inr (), s3)" and e: "e = MoreData" by blast
    with l "1.prems"(1) have "send_loop L wire i n (map_option (drop (length d)) src) (sent + int (length d)) s3 = (r, s')"
      by simp
    from "1.IH" [OF rd [symmetric] refl x [unfolded x_def, symmetric] refl e this "1.prems"(2)] cx x
    show ?thesis by simp
  next
    case False
    with "1.prems"(1) l cx show ?thesis by (auto split: prod.splits sum.splits read_end.splits)
  qed
qed

lemma conn_send_body: "send_body L PeerWire i p n off src s = (r, s') \<Longrightarrow> sn_conn s' = sn_conn s"
  by (auto simp: send_body_def progress_at_def split: option.splits prod.splits sum.splits if_splits
      dest!: conn_send_on conn_send_loop [OF _ refl])

lemma conn_resume_offset: "resume_offset q p n s = (off, s') \<Longrightarrow> sn_conn s' = sn_conn s"
  by (auto simp: resume_offset_def split: option.splits if_splits prod.splits sum.splits dest!: conn_on_fs)

lemma conn_stream_file: "stream_file L PeerWire i p s = (r, s') \<Longrightarrow> sn_conn s' = sn_conn s"
  by (auto simp: stream_file_def Let_def split: prod.splits sum.splits
      dest!: conn_on_fs conn_resume_offset conn_send_body)

text \<open>A batch without an error, once the wire is there.\<close>

lemma send_paths_keeps:
  "send_paths L wire i ps s = (Inr (), s') \<Longrightarrow> sn_pending s = None \<Longrightarrow>
     quiet s s' \<and> (wire = PeerWire \<longrightarrow> sn_conn s' = sn_conn s)"
proof (induction ps arbitrary: i s)
  case (Cons p ps)
  obtain s1 where st: "stream_file L wire i p s = (Inr (), s1)"
    and rest: "send_paths L wire (Suc i) ps s1 = (Inr (), s')"
    using Cons.prems(1) by (auto split: prod.splits sum.splits)
  have "s\<lparr>sn_pending := None\<rparr> = s" using Cons.prems(2) by simp
  with quiet_stream_file [OF st] have q: "quiet s s1" by simp
  then have "sn_pending s1 = None" using Cons.prems(2) by (simp add: quiet_def)
  from Cons.IH [OF rest this] q conn_stream_file [of L i p s "Inr ()" s1] st show ?case
    by (auto intro: quiet_trans)
qed simp

lemma send_batch_on_wire:
  assumes "send_batch L N paths s = (Inr (), s')" and "negotiate_or_reuse L N s = (Inr wire, s1)"
    and "on_wire wire s1" and "sn_pending s = None"
  shows "send_batch L N' paths s1 = (Inr (), s') \<and> quiet s1 s' \<and> (wire = PeerWire \<longrightarrow> sn_conn s' = sn_conn s1)"
proof -
  have p1: "sn_pending s1 = None" using negotiate_keeps [OF assms(2)] assms(4) by simp
  from assms(1,2) obtain s2 where ne: "paths \<noteq> []" and p: "send_paths L wire 0 paths s1 = (Inr (), s2)"
    and e: "send_on L wire new_session_end_message s2 = (Inr (), s')"
    by (auto simp: send_batch_def split: if_splits prod.splits sum.splits)
  from send_paths_keeps [OF p p1] quiet_send_on [OF e] conn_send_on [of L new_session_end_message s2 "Inr ()" s'] e
  have "quiet s1 s'" "wire = PeerWire \<longrightarrow> sn_conn s' = sn_conn s1" by (auto intro: quiet_trans)
  moreover have "send_batch L N' paths s1 = (Inr (), s')"
    using ne p e on_wire_reuse [OF assms(3)] by (simp add: send_batch_def)
  ultimately show ?thesis by blast
qed

section \<open>The batches of a session\<close>

text \<open>
  The paths of the later batches: what is typed at the prompt, until nothing more is.
\<close>

fun prompted :: "(string option \<times> negotiation) list \<Rightarrow> filesys \<Rightarrow> path list list" where
  "prompted [] fs = []"
| "prompted ((line, _) # rounds) fs =
     (case read_next_send_paths line fs of
        Inl _ \<Rightarrow> []
      | Inr ps \<Rightarrow> if ps = [] then [] else ps # prompted rounds fs)"

definition with_contents :: "filesys \<Rightarrow> path list \<Rightarrow> (path \<times> bytes) list" where
  "with_contents fs ps = map (\<lambda>p. (p, content fs p)) ps"

fun session_messages :: "message list list \<Rightarrow> message list" where
  "session_messages [] = []"
| "session_messages (ms # mss) = ms @ new_session_end_message # session_messages mss"

lemma with_contents_paths [simp]: "map fst (with_contents fs ps) = ps"
  by (induction ps) (simp_all add: with_contents_def)

lemma check_paths_regular:
  "check_paths ps fs = Inr qs \<Longrightarrow> \<forall>q \<in> set qs. fs_exists fs q \<and> q |\<notin>| fs_dirs fs"
  by (induction ps arbitrary: qs) (auto split: if_splits sum.splits)

lemma prompted_regular:
  "ps \<in> set (prompted rounds fs) \<Longrightarrow> ps \<noteq> [] \<and> (\<forall>p \<in> set ps. fs_exists fs p \<and> p |\<notin>| fs_dirs fs)"
proof (induction rounds)
  case (Cons r rounds)
  obtain line N where r: "r = (line, N)" by force
  show ?case
  proof (cases "read_next_send_paths line fs")
    case (Inr qs)
    then have "\<forall>q \<in> set qs. fs_exists fs q \<and> q |\<notin>| fs_dirs fs"
      by (auto simp: read_next_send_paths_def split: option.splits dest: check_paths_regular)
    with Inr Cons r show ?thesis by (cases "qs = []") auto
  qed (use Cons r in simp)
qed simp

lemma regular_lookup: "fs_exists fs p \<Longrightarrow> p |\<notin>| fs_dirs fs \<Longrightarrow> fmlookup (fs_files fs) p = Some (content fs p)"
  by (auto simp: fs_exists_def content_def fmlookup_dom_iff)

lemma holds_with_contents:
  "\<forall>p \<in> set ps. fs_exists (sn_fs s) p \<and> p |\<notin>| fs_dirs (sn_fs s) \<Longrightarrow> holds_files s (with_contents (sn_fs s) ps)"
  by (auto simp: holds_files_def with_contents_def list_all_iff intro: regular_lookup)

lemma check_paths_same: "fs_files fs' = fs_files fs \<Longrightarrow> fs_dirs fs' = fs_dirs fs \<Longrightarrow> check_paths ps fs' = check_paths ps fs"
  by (induction ps) (simp_all add: fs_exists_def)

lemma read_next_same:
  "fs_files fs' = fs_files fs \<Longrightarrow> fs_dirs fs' = fs_dirs fs \<Longrightarrow> read_next_send_paths line fs' = read_next_send_paths line fs"
  using check_paths_same [of fs' fs] by (simp add: read_next_send_paths_def split: option.split)

lemma prompted_same:
  assumes "fs_files fs' = fs_files fs" and "fs_dirs fs' = fs_dirs fs"
  shows "prompted rounds fs' = prompted rounds fs"
proof (induction rounds)
  case (Cons r rounds)
  then show ?case using read_next_same [OF assms] by (cases r) (simp split: sum.split)
qed simp

lemma content_same: "fs_files fs' = fs_files fs \<Longrightarrow> content fs' = content fs"
  by (intro ext) (simp add: content_def)

text \<open>All rounds after the negotiation: the prompted batches follow on the same wire.\<close>

definition session_batches :: "bool \<Rightarrow> path list \<Rightarrow> (string option \<times> negotiation) list \<Rightarrow> filesys \<Rightarrow> (path \<times> bytes) list list" where
  "session_batches stayOpen paths rounds fs =
     map (with_contents fs) (paths # (if stayOpen then prompted rounds fs else []))"

lemma session_batches_same:
  assumes "fs_files fs' = fs_files fs" and "fs_dirs fs' = fs_dirs fs"
  shows "session_batches stay ps rounds fs' = session_batches stay ps rounds fs"
  by (simp add: session_batches_def with_contents_def content_same [OF assms(1)] prompted_same [OF assms])

lemma one_batch:
  assumes "sound L" and run: "send_batch L N paths s = (Inr (), s')" and w: "on_wire wire s" "wire_ok wire s"
    and p: "sn_pending s = None" and fit: "all_fit L (with_contents (sn_fs s) paths)"
    and reg: "\<forall>p \<in> set paths. fs_exists (sn_fs s) p \<and> p |\<notin>| fs_dirs (sn_fs s)"
  shows "\<exists>ms. carries L wire s s' (ms @ [new_session_end_message]) \<and> batch_sent L None (with_contents (sn_fs s) paths) ms \<and>
     quiet s s' \<and> (wire = PeerWire \<longrightarrow> sn_conn s' = sn_conn s)"
proof -
  note n = on_wire_reuse [OF w(1)]
  have "send_batch L N (map fst (with_contents (sn_fs s) paths)) s = (Inr (), s')" using run by simp
  from send_batch_trace [OF this assms(1) n w(2) fit holds_with_contents [OF reg]] p
    send_batch_on_wire [OF run n w(1) p] show ?thesis by auto
qed

lemma stay_open_rounds:
  assumes "sound L"
  shows "send_rounds L True paths N rounds s = (Inr (), s') \<Longrightarrow> on_wire wire s \<Longrightarrow> wire_ok wire s \<Longrightarrow>
     sn_pending s = None \<Longrightarrow> (\<forall>b \<in> set (session_batches True paths rounds (sn_fs s)). all_fit L b) \<Longrightarrow>
     \<forall>p \<in> set paths. fs_exists (sn_fs s) p \<and> p |\<notin>| fs_dirs (sn_fs s) \<Longrightarrow>
     \<exists>mss. carries L wire s s' (session_messages mss) \<and>
       list_all2 (batch_sent L None) (session_batches True paths rounds (sn_fs s)) mss \<and>
       quiet s s' \<and> (wire = PeerWire \<longrightarrow> sn_conn s' = sn_conn s)"
proof (induction rounds arbitrary: paths N s)
  case Nil
  then show ?case by (subst (asm) send_rounds.simps) (auto split: prod.splits sum.splits)
next
  case (Cons r rounds)
  obtain line N1 where r: "r = (line, N1)" by force
  from Cons.prems(1) r obtain s1 nxt where b: "send_batch L N paths s = (Inr (), s1)"
    and nxt: "read_next_send_paths line (sn_fs s1) = Inr nxt"
    and rest: "(if nxt = [] then (Inr (), s1) else send_rounds L True nxt N1 rounds s1) = (Inr (), s')"
    by (subst (asm) send_rounds.simps) (auto split: prod.splits sum.splits)
  have fit: "all_fit L (with_contents (sn_fs s) paths)" using Cons.prems(5) by (simp add: session_batches_def)
  from one_batch [OF assms b Cons.prems(2,3,4) fit Cons.prems(6)] obtain ms where
    ms: "carries L wire s s1 (ms @ [new_session_end_message])" "batch_sent L None (with_contents (sn_fs s) paths) ms"
    and q: "quiet s s1" and c: "wire = PeerWire \<longrightarrow> sn_conn s1 = sn_conn s" by blast
  from q have fs: "fs_files (sn_fs s1) = fs_files (sn_fs s)" "fs_dirs (sn_fs s1) = fs_dirs (sn_fs s)"
    by (simp_all add: quiet_def)
  have nxt0: "read_next_send_paths line (sn_fs s) = Inr nxt" using nxt read_next_same [OF fs] by simp
  show ?case
  proof (cases "nxt = []")
    case True
    with rest nxt0 ms q c r show ?thesis
      by (intro exI [of _ "[ms]"]) (simp add: session_batches_def)
  next
    case False
    have next_round: "send_rounds L True nxt N1 rounds s1 = (Inr (), s')" using rest False by simp
    have more: "session_batches True paths (r # rounds) (sn_fs s) =
        with_contents (sn_fs s) paths # session_batches True nxt rounds (sn_fs s1)"
      using nxt0 False r session_batches_same [OF fs, of True nxt rounds] by (simp add: session_batches_def)
    have reg: "\<forall>p \<in> set nxt. fs_exists (sn_fs s1) p \<and> p |\<notin>| fs_dirs (sn_fs s1)"
      using nxt by (auto simp: read_next_send_paths_def split: option.splits dest: check_paths_regular)
    have "on_wire wire s1" "wire_ok wire s1" "sn_pending s1 = None"
      using on_wire_quiet [OF q] carries_ok [OF ms(1)] Cons.prems(2,3,4) q by (simp_all add: quiet_def)
    from Cons.IH [OF next_round this _ reg] Cons.prems(5) obtain mss where
      "carries L wire s1 s' (session_messages mss)"
      "list_all2 (batch_sent L None) (session_batches True nxt rounds (sn_fs s1)) mss"
      "quiet s1 s'" "wire = PeerWire \<longrightarrow> sn_conn s' = sn_conn s1"
      unfolding more by auto
    with carries_trans [OF ms(1)] ms(2) c quiet_trans [OF q] show ?thesis
      unfolding more by (intro exI [of _ "ms # mss"]) fastforce
  qed
qed

lemma send_rounds_wire:
  assumes "sound L" and run: "send_rounds L stay paths N rounds s = (Inr (), s')" and "paths \<noteq> []"
    and neg: "negotiate_or_reuse L N s = (Inr wire, s1)" and w: "on_wire wire s1" "wire_ok wire s1"
    and p: "sn_pending s = None" and fit: "\<forall>b \<in> set (session_batches stay paths rounds (sn_fs s)). all_fit L b"
    and reg: "\<forall>p \<in> set paths. fs_exists (sn_fs s) p \<and> p |\<notin>| fs_dirs (sn_fs s)"
  shows "\<exists>mss s2. carries L wire s1 s2 (session_messages mss) \<and>
     list_all2 (batch_sent L None) (session_batches stay paths rounds (sn_fs s)) mss \<and>
     quiet s1 s2 \<and> (wire = PeerWire \<longrightarrow> sn_conn s2 = sn_conn s1) \<and> close_sender s' = close_sender s2"
proof -
  note k = negotiate_keeps [OF neg]
  have p1: "sn_pending s1 = None" using k p by simp
  show ?thesis
  proof (cases stay)
    case True
    have "send_batch L N paths s = send_batch L N paths s1"
      using neg on_wire_reuse [OF w(1), of L N] \<open>paths \<noteq> []\<close> by (simp add: send_batch_def)
    then have "send_rounds L True paths N rounds s = send_rounds L True paths N rounds s1"
      by (subst (1 2) send_rounds.simps) simp
    with run True have "send_rounds L True paths N rounds s1 = (Inr (), s')" by simp
    from stay_open_rounds [OF assms(1) this w p1] fit reg k True show ?thesis by auto
  next
    case False
    then obtain s2 where b: "send_batch L N paths s = (Inr (), s2)" and c: "s' = close_transport s2"
      using run by (subst (asm) send_rounds.simps) (auto simp: send_files_def split: prod.splits sum.splits)
    have "send_batch L N paths s1 = (Inr (), s2)" using send_batch_on_wire [OF b neg w(1) p] by blast
    from one_batch [OF assms(1) this w p1] fit reg k False obtain ms where
      "carries L wire s1 s2 (ms @ [new_session_end_message])" "batch_sent L None (with_contents (sn_fs s) paths) ms"
      "quiet s1 s2" "wire = PeerWire \<longrightarrow> sn_conn s2 = sn_conn s1"
      by (auto simp: session_batches_def)
    moreover have "close_sender s' = close_sender s2"
      by (simp add: c close_sender_def close_transport_def Let_def split: option.split)
    ultimately show ?thesis
      using False by (intro exI [of _ "[ms]"] exI [of _ s2]) (simp add: session_batches_def)
  qed
qed

section \<open>A whole run\<close>

text \<open>The sender's frames on the data channel, once its transport is closed.\<close>

definition channel_frames :: "sender \<Rightarrow> bytes list" where
  "channel_frames s = concat (map lk_sent (sn_closed s))"

definition conn_frames :: "sender \<Rightarrow> bytes list" where
  "conn_frames s = lk_sent (sn_conn s)"

text \<open>A new sender and its dialed connection, on which no resume is asked for.\<close>

definition fresh_dial :: "(link \<times> reads) option \<Rightarrow> bool" where
  "fresh_dial dialed \<longleftrightarrow>
     (case dialed of
        None \<Rightarrow> False
      | Some (l, rds) \<Rightarrow> link_up l \<and> lk_sent l = [] \<and>
          list_all (\<lambda>r. case r of Inl _ \<Rightarrow> True | Inr m \<Rightarrow> mtype m \<noteq> MsgTypeResumeRequest) rds)"

definition fresh_sender :: "sender \<Rightarrow> bool" where
  "fresh_sender s \<longleftrightarrow> sn_transport s = TransportIdle \<and> sn_peer s = None \<and> sn_pending s = None \<and> sn_closed s = []"

definition fresh_channel :: "negotiation \<Rightarrow> bool" where
  "fresh_channel N \<longleftrightarrow> nonces_ok (nt_channel N) \<and> lk_sent (nt_channel N) = [] \<and> signals_fit N"

lemma wait_loop_pending:
  "wait_for_peer_loop L rds q = (r, rest, q') \<Longrightarrow>
     list_all (\<lambda>r. case r of Inl _ \<Rightarrow> True | Inr m \<Rightarrow> mtype m \<noteq> MsgTypeResumeRequest) rds \<Longrightarrow> q' = q"
  by (induction L rds q rule: wait_for_peer_loop.induct) (auto split: if_splits)

text \<open>
  What a run without an error leaves on its links: a negotiation and then all batches, on the data channel when
  one was closed in the end, and otherwise on the relay connection.
\<close>

definition transcript ::
  "libs \<Rightarrow> bytes \<Rightarrow> negotiation \<Rightarrow> (path \<times> bytes) list list \<Rightarrow> sender \<Rightarrow> bool" where
  "transcript L key N batches s' \<longleftrightarrow>
     (\<exists>wire ms mss. negotiated N wire ms \<and> list_all2 (batch_sent L None) batches mss \<and>
        (sn_closed s' = [] \<longleftrightarrow> wire = WSWire) \<and>
        received_reads L key (conn_frames s') =
          map Inr (ms @ (if wire = WSWire then session_messages mss else [])) \<and>
        received_reads L key (channel_frames s') = map Inr (if wire = WSWire then [] else session_messages mss))"

lemma send_p2p_transcript:
  assumes "sound L" and "length (sn_key s) = KeySize" and "fresh_dial dialed" and "fresh_sender s" and "fresh_channel N"
    and run: "send_p2p L dialed paths stay N rounds s = (Inr (), s')"
    and fit: "\<forall>b \<in> set (session_batches stay paths rounds (sn_fs s)). all_fit L b"
    and reg: "\<forall>p \<in> set paths. fs_exists (sn_fs s) p \<and> p |\<notin>| fs_dirs (sn_fs s)"
  shows "transcript L (sn_key s) N (session_batches stay paths rounds (sn_fs s)) s'"
proof -
  obtain l rds where d: "dialed = Some (l, rds)" "link_up l" "lk_sent l = []"
      "list_all (\<lambda>r. case r of Inl _ \<Rightarrow> True | Inr m \<Rightarrow> mtype m \<noteq> MsgTypeResumeRequest) rds"
    using assms(3) by (auto simp: fresh_dial_def split: option.splits)
  obtain r rest q where wl: "wait_for_peer_loop L rds (sn_pending s) = (r, rest, q)" by (rule prod_cases3)
  define t where "t = s\<lparr>sn_conn := l, sn_in := rest\<rparr>"
  have "q = sn_pending s" using wait_loop_pending [OF wl d(4)] .
  with run d(1) wl obtain s3 where ne: "paths \<noteq> []" and rr: "send_rounds L stay paths N rounds t = (Inr (), s3)"
    and s': "s' = close_sender s3"
    by (auto simp: send_p2p_def sender_connect_live_def wait_for_peer_def t_def split: if_splits prod.splits sum.splits)
  have t: "sn_key t = sn_key s" "sn_fs t = sn_fs s" "sn_conn t = l" "sn_pending t = None" "sn_closed t = []"
      "sn_transport t = TransportIdle" "sn_peer t = None"
    using assms(4) by (simp_all add: t_def fresh_sender_def)
  have ch: "nonces_ok (nt_channel N)" "lk_sent (nt_channel N) = []" "signals_fit N"
    using assms(5) by (simp_all add: fresh_channel_def)
  have "length (sn_key t) = KeySize" "link_up (sn_conn t)" using assms(2) d(2) t by simp_all
  from negotiate_idle [OF assms(1) this ch(3) t(6,7)] obtain wire s1 ms where
    n: "negotiate_or_reuse L N t = (Inr wire, s1)" "on_wire wire s1" "negotiated N wire ms"
      "wrote L (sn_key t) (sn_conn t) (sn_conn s1) ms" "link_up (sn_conn s1)" "sn_closed s1 = sn_closed t"
      "wire = PeerWire \<longrightarrow> sn_peer s1 = Some (nt_channel N)" by blast
  have ok: "wire_ok wire s1"
    using n(5,7) ch(1) by (cases wire) (simp_all add: wire_ok_def wire_link_def link_up_def)
  from send_rounds_wire [OF assms(1) rr ne n(1,2) ok t(4)] fit reg t(2) obtain mss s2 where
    m: "carries L wire s1 s2 (session_messages mss)"
      "list_all2 (batch_sent L None) (session_batches stay paths rounds (sn_fs s)) mss" "quiet s1 s2"
      "wire = PeerWire \<longrightarrow> sn_conn s2 = sn_conn s1" "close_sender s3 = close_sender s2" by auto
  have k1: "sn_key s1 = sn_key s" using negotiate_keeps [OF n(1)] t(1) by simp
  have c2: "sn_closed s2 = []" using m(3) n(6) t(5) by (simp add: quiet_def)
  have w2: "on_wire wire s2" using on_wire_quiet [OF m(3)] n(2) by simp
  have conn: "sn_conn s' = sn_conn s2" "sn_closed s' = (case sn_peer s2 of None \<Rightarrow> [] | Some p \<Rightarrow> [p])"
    unfolding s' m(5) using c2 by (auto simp: close_sender_def close_transport_def close_peer_def Let_def split: option.split)
  show ?thesis
  proof (cases wire)
    case WSWire
    with m(1) k1 have "wrote L (sn_key s) (sn_conn s1) (sn_conn s2) (session_messages mss)"
      by (simp add: carries_wrote wire_link_def)
    from wrote_trans [OF n(4) [unfolded t(1,3)] this] d(3)
    have "received_reads L (sn_key s) (lk_sent (sn_conn s')) = map Inr (ms @ session_messages mss)"
      unfolding conn(1) by (rule wrote_reads)
    with WSWire conn(2) w2 n(3) m(2) show ?thesis
      unfolding transcript_def
      by (intro exI [of _ WSWire] exI [of _ ms] exI [of _ mss])
        (simp add: on_wire_def channel_frames_def conn_frames_def received_reads_def)
  next
    case PeerWire
    with m(1) k1 n(7) obtain c where c: "sn_peer s2 = Some c" "wrote L (sn_key s) (nt_channel N) c (session_messages mss)"
      by (auto simp: carries_wrote wire_link_def)
    have "received_reads L (sn_key s) (lk_sent (sn_conn s')) = map Inr ms"
      using n(4) [unfolded t(1,3)] d(3) m(4) PeerWire unfolding conn(1) by (simp add: wrote_reads)
    moreover have "received_reads L (sn_key s) (channel_frames s') = map Inr (session_messages mss)"
      using wrote_reads [OF c(2) ch(2)] c(1) conn(2) by (simp add: channel_frames_def)
    ultimately show ?thesis
      using PeerWire conn(2) c(1) n(3) m(2) unfolding transcript_def
      by (intro exI [of _ PeerWire] exI [of _ ms] exI [of _ mss]) (simp add: conn_frames_def)
  qed
qed

end
