(* ===== verification/LiveReceive.thy ===== *)
theory LiveReceive
  imports LiveWire
begin

text \<open>
  A receive session that reads what a peer-to-peer run has sent: its negotiation ends on the sender's wire, and
  its batches are the sender's.
\<close>

section \<open>The negotiation\<close>

text \<open>
  The receiver waits long enough: no time-out, \<open>n\<close> messages become ready, and the channel opens when it is to be
  used.
\<close>

definition patient :: "neg_event list \<Rightarrow> nat \<Rightarrow> bool \<Rightarrow> bool" where
  "patient evs n opens \<longleftrightarrow>
     CtxDone \<notin> set evs \<and> length (filter (\<lambda>ev. ev = ReadsReady) evs) = n \<and> (opens \<longrightarrow> (\<exists>b. OpenFired b \<in> set evs))"

lemma receiver_loop_ready:
  "CtxDone \<notin> set evs \<Longrightarrow> length (filter (\<lambda>ev. ev = ReadsReady) evs) = length ms \<Longrightarrow>
     dc \<or> (\<exists>b. OpenFired b \<in> set evs) \<Longrightarrow>
     (if rdy then ms = [] else \<exists>ics. candidates ics \<and> ms = ics @ [new_p2p_ready_message]) \<Longrightarrow>
     ng_reads g = map Inr ms @ rest \<Longrightarrow>
     \<exists>g'. negotiate_receiver_loop L key dc rdy evs g = (Inr (), g') \<and> ng_reads g' = rest"
proof (induction evs arbitrary: ms dc rdy g)
  case Nil
  then show ?case by (auto split: if_splits)
next
  case (Cons ev evs)
  show ?case
  proof (cases "dc \<and> rdy")
    case True
    with Cons.prems show ?thesis by auto
  next
    case False
    show ?thesis
    proof (cases ev)
      case (OpenFired b)
      with Cons.IH [of ms True rdy g] Cons.prems False show ?thesis by auto
    next
      case (LocalCandidate raw)
      with Cons.IH [of ms dc rdy "snd (signal L key (new_ice_candidate_message raw) g)"] Cons.prems False
      show ?thesis by auto
    next
      case ReadsReady
      with Cons.prems have "ms \<noteq> []" by auto
      then obtain m ms1 where m: "ms = m # ms1" by (cases ms) auto
      with Cons.prems(4) obtain ics where nr: "\<not> rdy" and ics: "candidates ics" "m # ms1 = ics @ [new_p2p_ready_message]"
        by (auto split: if_splits)
      show ?thesis
      proof (cases ics)
        case Nil
        with ics have "m = new_p2p_ready_message" "ms1 = []" by auto
        with Cons.IH [of "[]" dc True "g\<lparr>ng_reads := rest\<rparr>"] Cons.prems m nr ReadsReady show ?thesis
          by (auto simp: new_p2p_ready_message_def msg_type_defs)
      next
        case (Cons i ics1)
        with ics have i: "mtype m = MsgTypeICECandidate" "candidates ics1" "ms1 = ics1 @ [new_p2p_ready_message]" by auto
        with Cons.IH [of ms1 dc False "Signaling.act (AddCandidate (payload m)) (g\<lparr>ng_reads := map Inr ms1 @ rest\<rparr>)"]
          Cons.prems m nr ReadsReady show ?thesis by (auto simp: Let_def)
      qed
    next
      case CtxDone
      with Cons.prems show ?thesis by simp
    qed
  qed
qed

lemma receiver_loop_fail:
  "CtxDone \<notin> set evs \<Longrightarrow> length (filter (\<lambda>ev. ev = ReadsReady) evs) > length ics \<Longrightarrow> candidates ics \<Longrightarrow>
     ng_reads g = map Inr ics @ Inr (new_p2p_fail_message t) # rest \<Longrightarrow>
     \<exists>g'. negotiate_receiver_loop L key dc False evs g = (Inl ErrPeerP2PFail, g') \<and> ng_reads g' = rest"
proof (induction evs arbitrary: ics dc g)
  case (Cons ev evs)
  show ?case
  proof (cases ev)
    case (OpenFired b)
    with Cons.IH [of ics g True] Cons.prems show ?thesis by auto
  next
    case (LocalCandidate raw)
    with Cons.IH [of ics "snd (signal L key (new_ice_candidate_message raw) g)" dc] Cons.prems show ?thesis by auto
  next
    case ReadsReady
    show ?thesis
    proof (cases ics)
      case Nil
      with Cons.prems ReadsReady show ?thesis by (simp add: new_p2p_fail_message_def msg_type_defs Let_def)
    next
      case (Cons i ics1)
      with Cons.IH [of ics1 "Signaling.act (AddCandidate (payload i)) (g\<lparr>ng_reads := map Inr ics1 @ Inr (new_p2p_fail_message t) # rest\<rparr>)" dc]
        Cons.prems ReadsReady show ?thesis by (auto simp: Let_def)
    qed
  next
    case CtxDone
    with Cons.prems show ?thesis by simp
  qed
qed simp

lemma start_reader_append: "start_ws_reader (map Inr ms @ rest) = map Inr ms @ start_ws_reader rest"
  by (induction ms) auto

text \<open>What the receiver meets: a WebRTC library that answers the offer, a connection that carries its answer.\<close>

definition answers :: "rtc \<Rightarrow> rtc \<Rightarrow> bool" where
  "answers R R' \<longleftrightarrow> rtc_new_peer R' \<and> (\<forall>sdp. rtc_create_offer R = Some sdp \<longrightarrow> rtc_answer_offer R' sdp \<noteq> None)"

lemma negotiate_receiver_loop_eq:
  assumes "answers R R'" and "rtc_create_offer R = Some sdp" and "link_up l" and "length key = KeySize"
  shows "\<exists>k. negotiate_receiver L key R' sdp evs (new_neg rds l) =
     negotiate_receiver_loop L key False False evs \<lparr>ng_reads = start_ws_reader rds, ng_link = k, ng_acts = []\<rparr>"
proof -
  from assms(1,2) obtain answer where a: "rtc_new_peer R'" "rtc_answer_offer R' sdp = Some answer"
    by (auto simp: answers_def)
  obtain k where "write_encrypted L key (new_sdp_answer_message answer) l = (Inr (), k)"
    using write_encrypted_up [OF assms(3,4)] by blast
  with a show ?thesis
    by (auto simp: negotiate_receiver_def set_remote_offer_def signal_def write_signal_msg_eq new_neg_def)
qed

text \<open>
  The session opens on the wire that the sender negotiated, before the first message of the batches.
\<close>

lemma open_session_negotiated:
  assumes neg: "negotiated N wire ms" and conn: "ss_conn s = map Inr ms @ rest"
    and ns: "ss_negs s = ns # negs" and rtc: "answers (nt_rtc N) (ns_rtc ns)"
    and wait: "patient (ns_events ns) n (wire = PeerWire)" and n: "wire = PeerWire \<longrightarrow> n = length ms - 1" "n \<ge> length ms - 1"
    and up: "link_up (rw_link (bw_world (ss_batch s)))" "length (rc_key r) = KeySize" and "ss_peer s = None"
  shows "\<exists>s'. open_receive_session L r s = (Inr None, s') \<and> ss_fs s' = ss_fs s \<and>
     session_reads s' = (case wire of PeerWire \<Rightarrow> ns_channel ns
       | WSWire \<Rightarrow> if length ms = 1 then rest else start_ws_reader rest)"
proof -
  note unf = open_receive_session_def conn ns session_reads_def new_p2p_fail_message_def new_sdp_offer_message_def
    msg_type_defs Let_def
  show ?thesis
  proof (cases wire)
    case WSWire
    then obtain pre e where pre: "pre = [] \<or> offered (nt_rtc N) pre" and ms: "ms = pre @ [new_p2p_fail_message (nt_text N e)]"
      using neg by (auto simp: negotiated_def)
    show ?thesis
    proof (cases "pre = []")
      case True
      with ms WSWire \<open>ss_peer s = None\<close> show ?thesis by (simp add: unf)
    next
      case False
      with pre obtain sdp ics where o: "rtc_create_offer (nt_rtc N) = Some sdp" "candidates ics"
          "pre = new_sdp_offer_message sdp # ics"
        by (auto simp: offered_def)
      let ?l = "rw_link (bw_world (ss_batch s))" and ?rds = "map Inr ics @ Inr (new_p2p_fail_message (nt_text N e)) # rest"
      obtain k where k: "negotiate_receiver L (rc_key r) (ns_rtc ns) sdp (ns_events ns) (new_neg ?rds ?l) =
          negotiate_receiver_loop L (rc_key r) False False (ns_events ns) \<lparr>ng_reads = start_ws_reader ?rds, ng_link = k, ng_acts = []\<rparr>"
        using negotiate_receiver_loop_eq [OF rtc o(1) up] by blast
      have "start_ws_reader ?rds = map Inr ics @ Inr (new_p2p_fail_message (nt_text N e)) # start_ws_reader rest"
        by (simp add: start_reader_append)
      moreover have "length (filter (\<lambda>ev. ev = ReadsReady) (ns_events ns)) > length ics"
        using wait n(2) ms o(3) by (simp add: patient_def)
      ultimately obtain g where "negotiate_receiver L (rc_key r) (ns_rtc ns) sdp (ns_events ns) (new_neg ?rds ?l) =
          (Inl ErrPeerP2PFail, g)" "ng_reads g = start_ws_reader rest"
        using receiver_loop_fail [of "ns_events ns" ics _ _ "start_ws_reader rest" L "rc_key r" False] wait o(2)
        unfolding k patient_def by (metis neg.select_convs(1))
      with ms o(3) WSWire \<open>ss_peer s = None\<close> show ?thesis by (simp add: unf)
    qed
  next
    case PeerWire
    then obtain sdp ics where o: "rtc_create_offer (nt_rtc N) = Some sdp" "candidates ics"
        "ms = new_sdp_offer_message sdp # ics @ [new_p2p_ready_message]"
      using neg by (auto simp: negotiated_def offered_def)
    let ?l = "rw_link (bw_world (ss_batch s))" and ?rds = "map Inr (ics @ [new_p2p_ready_message]) @ rest"
    obtain k where k: "negotiate_receiver L (rc_key r) (ns_rtc ns) sdp (ns_events ns) (new_neg ?rds ?l) =
        negotiate_receiver_loop L (rc_key r) False False (ns_events ns) \<lparr>ng_reads = start_ws_reader ?rds, ng_link = k, ng_acts = []\<rparr>"
      using negotiate_receiver_loop_eq [OF rtc o(1) up] by blast
    have "length (filter (\<lambda>ev. ev = ReadsReady) (ns_events ns)) = length (ics @ [new_p2p_ready_message])"
      using wait n(1) o(3) PeerWire by (simp add: patient_def)
    moreover have "CtxDone \<notin> set (ns_events ns)" "\<exists>b. OpenFired b \<in> set (ns_events ns)"
      using wait PeerWire by (simp_all add: patient_def)
    moreover have "\<exists>is. candidates is \<and> ics @ [new_p2p_ready_message] = is @ [new_p2p_ready_message]"
      using o(2) by blast
    ultimately obtain g where "negotiate_receiver L (rc_key r) (ns_rtc ns) sdp (ns_events ns) (new_neg ?rds ?l) = (Inr (), g)"
      using receiver_loop_ready [of "ns_events ns" "ics @ [new_p2p_ready_message]" False False _ "start_ws_reader rest" L "rc_key r"]
      unfolding k start_reader_append by (metis (full_types) neg.select_convs(1))
    with o(3) PeerWire \<open>ss_peer s = None\<close> show ?thesis by (simp add: unf)
  qed
qed

section \<open>The batches\<close>

lemma store_all_Cons:
  "store_all d fs ((p, c) # files) = Some (ps, fs') \<longleftrightarrow>
     (\<exists>n dest qs. safe_filename (base_name p) = Inr n \<and> unique_path fs (join d n) = Some dest \<and>
        dest @ ''.part'' |\<notin>| fs_dirs fs \<and> store_all d (put_file dest c fs) files = Some (qs, fs') \<and> ps = dest # qs)"
  by (auto split: sum.split option.split)

lemma store_all_append:
  "store_all d fs (xs @ ys) = Some (ps, fs') \<longleftrightarrow>
     (\<exists>ps1 fs1 ps2. store_all d fs xs = Some (ps1, fs1) \<and> store_all d fs1 ys = Some (ps2, fs') \<and> ps = ps1 @ ps2)"
proof (induction xs arbitrary: fs ps)
  case (Cons pc xs)
  obtain p c where pc: "pc = (p, c)" by force
  show ?case
    unfolding pc append_Cons store_all_Cons Cons.IH by auto
qed simp

definition live_reads :: "message list list \<Rightarrow> reads \<Rightarrow> reads" where
  "live_reads mss rest = map Inr (session_messages mss) @ rest"

lemma live_reads_simps:
  "live_reads [] rest = rest"
  "live_reads (ms # mss) rest = map Inr (ms @ [new_session_end_message]) @ live_reads mss rest"
  by (simp_all add: live_reads_def)

lemma receive_one_batch:
  assumes "batch_sent L None files ms" and "files \<noteq> []" and "list_all (\<lambda>(p, c). codec_ok L p c) files"
    and "rc_resume r = None" and "fs_faults (ss_fs s) = []" and "store_all d (ss_fs s) files = Some (ps, fs')"
    and "session_reads s = map Inr (ms @ [new_session_end_message]) @ rest"
  shows "\<exists>s'. run_batch L r d None waits s = ((ps, True, None), s') \<and> ss_fs s' = fs' \<and> session_reads s' = rest"
proof -
  obtain fl where fl: "map Inr (ms @ [new_session_end_message]) @ rest = batch_reads fl rest" "list_all2 (sent_as L) files fl"
    using batch_sent_reads [OF assms(1)] by blast
  have "fl \<noteq> []" using fl(2) assms(2) by auto
  moreover have "accept_all L r d (ss_fs s) fl = Some (ps, fs')"
    using accept_store [OF fl(2) assms(3,4)] assms(6) by simp
  ultimately obtain b where "receive_batch L r d None waits (session_reads s) (ss_batch s) = ((ps, True, None), rest, b)"
      "rw_fs (bw_world b) = fs'"
    using receive_batch_accepts [OF assms(5), of fl L r d ps fs' waits rest] assms(7) fl(1) by auto
  then show ?thesis
    by (auto simp: run_batch_def after_batch_def session_reads_def split: option.split)
qed

lemma store_all_faults: "store_all d fs files = Some (ps, fs') \<Longrightarrow> fs_faults fs' = fs_faults fs"
  by (induction d fs files arbitrary: ps rule: store_all.induct)
    (auto split: sum.splits option.splits if_splits)

lemma run_batch_end:
  assumes "session_reads s = Inl e # rest" and "is_session_end_read_err L e"
  shows "\<exists>s'. run_batch L r d None True s = (([], False, None), s') \<and> ss_fs s' = ss_fs s"
  using assms by (auto simp: run_batch_def receive_batch_def after_batch_def split: option.split)

lemma receive_live_batches:
  "list_all2 (batch_sent L None) batches mss \<Longrightarrow> \<forall>files \<in> set batches. files \<noteq> [] \<Longrightarrow>
     list_all (\<lambda>(p, c). codec_ok L p c) (concat batches) \<Longrightarrow> rc_resume r = None \<Longrightarrow> fs_faults (ss_fs s) = [] \<Longrightarrow>
     store_all d (ss_fs s) (concat batches) = Some (ps, fs') \<Longrightarrow> is_session_end_read_err L e \<Longrightarrow>
     session_reads s = live_reads mss (Inl e # rest) \<Longrightarrow> 0 < i \<or> batches \<noteq> [] \<Longrightarrow>
     \<exists>calls' s'. receive_batches_loop L r d (\<lambda>_ _. True) i None calls s = (None, calls', s') \<and>
       concat (map snd calls') = concat (map snd calls) @ ps \<and> ss_fs s' = fs'"
proof (induction batches mss arbitrary: i calls s ps rule: list_all2_induct)
  case Nil
  then show ?case
    using run_batch_end [of s e rest L r d]
    by (subst receive_batches_loop.simps) (auto simp: live_reads_simps)
next
  case (Cons files batches ms mss)
  from Cons.prems(5) obtain ps1 fs1 ps2 where st: "store_all d (ss_fs s) files = Some (ps1, fs1)"
      "store_all d fs1 (concat batches) = Some (ps2, fs')" "ps = ps1 @ ps2"
    by (auto simp: store_all_append)
  have rds: "session_reads s = map Inr (ms @ [new_session_end_message]) @ live_reads mss (Inl e # rest)"
    using Cons.prems(7) by (simp only: live_reads_simps)
  from receive_one_batch [OF Cons.hyps(1) _ _ Cons.prems(3,4) st(1) rds, of "i > 0"] Cons.prems(1,2)
  obtain s1 where b: "run_batch L r d None (i > 0) s = ((ps1, True, None), s1)" "ss_fs s1 = fs1"
      "session_reads s1 = live_reads mss (Inl e # rest)" by auto
  have "ps1 \<noteq> []" using st(1) Cons.prems(1)
    by (cases files) (auto split: sum.splits option.splits if_splits)
  moreover obtain calls' s' where "receive_batches_loop L r d (\<lambda>_ _. True) (Suc i) None (calls @ [(i, ps1)]) s1 = (None, calls', s')"
      "concat (map snd calls') = concat (map snd (calls @ [(i, ps1)])) @ ps2" "ss_fs s' = fs'"
    using Cons.IH [of s1 ps2 "Suc i" "calls @ [(i, ps1)]"] Cons.prems(1-4,6) b(2,3) st(2) store_all_faults [OF st(1)]
    by auto
  ultimately show ?case
    using b(1) st(3) by (subst receive_batches_loop.simps) (auto simp: Let_def)
qed

text \<open>What a receiver takes: every batch of a session that stays open, and else the first one.\<close>

definition batches_taken :: "bool \<Rightarrow> 'a list list \<Rightarrow> 'a list" where
  "batches_taken stayOpen batches = (if stayOpen then concat batches else hd batches)"

lemma receive_all_live:
  assumes opened: "open_receive_session L r s = (Inr None, s1)" and fs: "ss_fs s1 = ss_fs s"
    and rds: "session_reads s1 = live_reads mss (Inl e # rest)" and e: "is_session_end_read_err L e"
    and sent: "list_all2 (batch_sent L None) batches mss" "batches \<noteq> []" "\<forall>files \<in> set batches. files \<noteq> []"
    and codec: "list_all (\<lambda>(p, c). codec_ok L p c) (concat batches)"
    and "rc_resume r = None" and "fs_faults (ss_fs s) = []" and "d |\<in>| fs_dirs (ss_fs s)"
    and store: "store_all d (ss_fs s) (batches_taken stay batches) = Some (ps, fs')"
  shows "\<exists>s'. receive_all L r stay d s = (Inr ps, s') \<and> ss_fs s' = fs'"
proof -
  have d: "check_destination d s = None"
    using assms(11) by (simp add: check_destination_def fs_exists_def)
  show ?thesis
  proof (cases stay)
    case True
    from receive_live_batches [OF sent(1,3) codec assms(9), of s1 d ps fs' e rest 0 "[]"] assms(10) fs e rds store True sent(2)
    obtain calls' s' where "receive_batches_loop L r d (\<lambda>_ _. True) 0 None [] s1 = (None, calls', s')"
        "concat (map snd calls') = ps" "ss_fs s' = fs'"
      by (auto simp: batches_taken_def)
    with d opened True show ?thesis by (simp add: receive_all_def receive_batches_def)
  next
    case False
    from sent obtain files more ms mss1 where b: "batches = files # more" "mss = ms # mss1" "batch_sent L None files ms"
      by (cases batches; cases mss) auto
    have rd: "session_reads s1 = map Inr (ms @ [new_session_end_message]) @ live_reads mss1 (Inl e # rest)"
      using rds b(2) by (simp only: live_reads_simps)
    from receive_one_batch [OF b(3) _ _ assms(9) _ _ rd, of d ps fs' False] assms(10) fs store False b(1) sent(3) codec
    obtain s2 where "run_batch L r d None False s1 = ((ps, True, None), s2)" "ss_fs s2 = fs'"
      by (auto simp: batches_taken_def)
    then have "receive_files_loop L r d None s1 = ((ps, None), s2)" by (simp add: receive_files_loop.simps)
    with d opened False \<open>ss_fs s2 = fs'\<close> show ?thesis by (simp add: receive_all_def receive_files_def)
  qed
qed

end
