(* ===== verification/Routes.thy ===== *)
theory Routes
  imports Server
begin

text \<open>
  The assembly of the relay: \<open>New\<close>, \<open>Shutdown\<close>, and \<open>Routes\<close>, from the method and the path of
  a request to its handler, after the rules of \<open>http.ServeMux\<close> for the patterns of the program.
  Paths come cleaned and unescaped (\<open>ServeMux\<close> redirects others first).  The servers of embedded
  files and the WebSocket handshake are arguments.
\<close>

section \<open>Starting and stopping\<close>

text \<open>\<open>os.MkdirTemp\<close> yields a directory or an error.\<close>

definition new_file_store :: "(os_error + path) \<Rightarrow> int \<Rightarrow> filesys \<Rightarrow> (os_error + file_store)" where
  "new_file_store made expiry disk =
     (case made of
        Inl e \<Rightarrow> Inl e
      | Inr d \<Rightarrow>
          Inr \<lparr>st_files = fmempty, st_dir = d, st_expiry = expiry, st_expired_total = 0,
               st_disk = disk\<lparr>fs_dirs := finsert d (fs_dirs disk)\<rparr>\<rparr>)"

definition new_server ::
  "(os_error + path) \<Rightarrow> config \<Rightarrow> string \<Rightarrow> int \<Rightarrow> filesys \<Rightarrow> (os_error + 'l server)" where
  "new_server made cfg version now disk =
     (case new_file_store made (cf_expiry cfg) disk of
        Inl e \<Rightarrow> Inl e
      | Inr st \<Rightarrow>
          Inr \<lparr>sv_cfg = cfg, sv_version = version, sv_started = now, sv_store = st, sv_rooms = empty_rooms,
               sv_limiter = new_ip_limiter (cf_rate_per_min cfg), sv_uploads = 0, sv_upload_bytes = 0,
               sv_downloads = 0, sv_download_bytes = 0, sv_ws_connections = 0, sv_rate_limited = 0\<rparr>)"

definition server_shutdown :: "'l server \<Rightarrow> 'l server" where
  "server_shutdown s = s\<lparr>sv_store := shutdown (sv_store s), sv_rooms := shutdown_rooms (sv_rooms s)\<rparr>"

section \<open>Pages without a token\<close>

definition handle_development_page :: "pages \<Rightarrow> response" where
  "handle_development_page site = write_static site ''development.html''"

definition handle_send_page :: "pages \<Rightarrow> response" where
  "handle_send_page pages = write_static pages ''send.html''"

definition handle_live_send_page :: "pages \<Rightarrow> response" where
  "handle_live_send_page pages = write_static pages ''live-send.html''"

section \<open>Routing\<close>

datatype route =
    StaticFile string | SiteFile string | Landing | Development | SendPage | Install | Upload
  | DownloadPage string | Raw string | UploadPage string | LiveSend | LiveReceive string
  | WebSocket string | RoomStatus string | Health | Metrics
  | Redirect string | MethodNotAllowed

text \<open>
  A pattern with \<open>GET\<close> also takes \<open>HEAD\<close>.  A wildcard takes one element that is not empty;
  what no other pattern takes goes to the landing page, and a directory without its slash is
  redirected.
\<close>

definition token_route :: "string \<Rightarrow> string \<Rightarrow> route" where
  "token_route kind token =
     (if token = [] then Landing
      else if kind = ''d'' then DownloadPage token
      else if kind = ''raw'' then Raw token
      else if kind = ''u'' then UploadPage token
      else if kind = ''live'' then LiveReceive token
      else if kind = ''ws'' then WebSocket token
      else if kind = ''room'' then RoomStatus token
      else Landing)"

definition plain_route :: "string \<Rightarrow> route" where
  "plain_route e =
     (if e = ''development'' then Development
      else if e = ''send'' then SendPage
      else if e = ''install.sh'' then Install
      else if e = ''live'' then LiveSend
      else if e = ''health'' then Health
      else if e = ''metrics'' then Metrics
      else if e = ''static'' then Redirect ''/static/''
      else if e = ''site'' then Redirect ''/site/''
      else Landing)"

definition get_route :: "string list \<Rightarrow> route" where
  "get_route es =
     (case es of
        [] \<Rightarrow> Landing
      | [e] \<Rightarrow> plain_route e
      | e # f # rest \<Rightarrow>
          if e = ''static'' then StaticFile (join_sep (f # rest))
          else if e = ''site'' then SiteFile (join_sep (f # rest))
          else if rest = [] then token_route e f
          else Landing)"

definition route_of :: "string \<Rightarrow> path \<Rightarrow> route" where
  "route_of meth path =
     (if meth = ''GET'' \<or> meth = ''HEAD'' then get_route (tl (split_sep path))
      else if meth = ''POST'' \<and> path = ''/upload'' then Upload
      else MethodNotAllowed)"

section \<open>Serving a request\<close>

text \<open>What the handlers get from outside: pages, file servers, the limiter, the handshake.\<close>

record 'l relay_env =
  re_static :: pages
  re_site :: pages
  re_file_server :: "bool \<Rightarrow> string \<Rightarrow> response"
  re_new_limiter :: "int \<Rightarrow> 'l"
  re_lim_allow :: "int \<Rightarrow> 'l \<Rightarrow> bool \<times> 'l"
  re_quote :: "string \<Rightarrow> string"
  re_seconds :: "int \<Rightarrow> int"
  re_urls :: url_lib
  re_handshake :: "http_request \<Rightarrow> response option"

text \<open>
  \<open>handleWebSocket\<close> up to \<open>Upgrade\<close>, which asks the origin check; \<open>None\<close>: upgraded, the handler
  goes on in the theory \<open>Rooms\<close>.
\<close>

definition start_web_socket :: "'l relay_env \<Rightarrow> http_request \<Rightarrow> 'l server \<Rightarrow> response option" where
  "start_web_socket E r s =
     (if rq_token r = [] then Some (reply 400 (ErrorText ''missing token''))
      else if \<not> check_origin (re_urls E) (sv_cfg s) r then Some (reply 403 (ErrorText ''Forbidden''))
      else re_handshake E r)"

definition serve ::
  "'l relay_env \<Rightarrow> bytes \<Rightarrow> string \<Rightarrow> int \<Rightarrow> upload_request \<Rightarrow> 'l server \<Rightarrow> response option \<times> 'l server" where
  "serve E rndToken rndName now u s =
     (let r = http_request.truncate u;
          answer = (\<lambda>resp. (Some resp, s));
          lim = (\<lambda>r h. rate_limit (re_new_limiter E) (re_lim_allow E) now r h s);
          keep = (\<lambda>(resp, s1). (Some resp, s1))
      in case route_of (rq_method u) (rq_path u) of
           StaticFile p \<Rightarrow> answer (re_file_server E False p)
         | SiteFile p \<Rightarrow> answer (re_file_server E True p)
         | Landing \<Rightarrow> answer (handle_landing_page (re_site E) r)
         | Development \<Rightarrow> answer (handle_development_page (re_site E))
         | SendPage \<Rightarrow> answer (handle_send_page (re_static E))
         | Install \<Rightarrow> answer (handle_install (re_static E) r)
         | Upload \<Rightarrow> keep (lim r (handle_upload_file rndToken rndName now u))
         | DownloadPage t \<Rightarrow> answer (handle_download_page (re_static E) (r\<lparr>rq_token := t\<rparr>))
         | Raw t \<Rightarrow> keep (handle_raw_download (r\<lparr>rq_token := t\<rparr>) s)
         | UploadPage t \<Rightarrow> answer (handle_upload_page (re_static E) (r\<lparr>rq_token := t\<rparr>))
         | LiveSend \<Rightarrow> answer (handle_live_send_page (re_static E))
         | LiveReceive t \<Rightarrow> answer (handle_live_receive_page (re_static E) (r\<lparr>rq_token := t\<rparr>))
         | WebSocket t \<Rightarrow>
             (case lim r (\<lambda>s1. (reply 101 NoBody, s1)) of
                (resp, s1) \<Rightarrow>
                  (if rs_status resp \<noteq> 101 then Some resp else start_web_socket E (r\<lparr>rq_token := t\<rparr>) s1, s1))
         | RoomStatus t \<Rightarrow> keep (lim r (\<lambda>s1. (handle_room_status (r\<lparr>rq_token := t\<rparr>) s1, s1)))
         | Health \<Rightarrow> answer (handle_health (re_seconds E) now s)
         | Metrics \<Rightarrow> answer (handle_metrics (re_quote E) (re_seconds E) now s)
         | Redirect p \<Rightarrow> answer (reply 301 (PlainText p))
         | MethodNotAllowed \<Rightarrow> answer (reply 405 (ErrorText ''Method Not Allowed'')))"

text \<open>
  A run of the relay: requests with their time and randomness, ticks of the store's cleanup, and
  what WebSocket handlers and the cleanup of rooms do to the rooms and the connection counter.
\<close>

datatype relay_event =
    Request bytes string int upload_request
  | Tick int
  | RoomWork rooms int

fun relay_event_step :: "'l relay_env \<Rightarrow> relay_event \<Rightarrow> 'l server \<Rightarrow> 'l server" where
  "relay_event_step E (Request rt rn now u) s = snd (serve E rt rn now u s)"
| "relay_event_step E (Tick now) s = s\<lparr>sv_store := cleanup_tick now (sv_store s)\<rparr>"
| "relay_event_step E (RoomWork m n) s = s\<lparr>sv_rooms := m, sv_ws_connections := n\<rparr>"

fun relay_run :: "'l relay_env \<Rightarrow> relay_event list \<Rightarrow> 'l server \<Rightarrow> 'l server" where
  "relay_run E [] s = s"
| "relay_run E (e # es) s = relay_run E es (relay_event_step E e s)"

section \<open>What a request can change\<close>

lemma rate_limit_same:
  "rate_limit nl la now r h s = (resp, s') \<Longrightarrow>
     s' = s\<lparr>sv_limiter := sv_limiter s', sv_rate_limited := sv_rate_limited s + 1\<rparr> \<and> rs_status resp = 429 \<or>
     (\<exists>il. h (s\<lparr>sv_limiter := il\<rparr>) = (resp, s'))"
  by (auto simp: rate_limit_def reply_def Let_def split: prod.splits if_splits)

lemma os_open_disk: "os_open p fs = (r, fs') \<Longrightarrow> same_except {} fs fs'"
  by (cases "next_fault fs")
    (auto simp: os_open_def same_except_def split: option.splits if_splits dest: next_fault_frame)

lemma store_inv_disk:
  "store_inv s \<Longrightarrow> same_except {} (st_disk s) fs \<Longrightarrow> store_inv (s\<lparr>st_disk := fs\<rparr>)"
  by (simp add: store_inv_def same_except_def)

lemma blob_disk: "same_except {} (st_disk s) fs \<Longrightarrow> blob (s\<lparr>st_disk := fs\<rparr>) = blob s"
  by (auto simp: blob_def same_except_def fun_eq_iff split: option.split)

text \<open>
  What every request keeps: the invariant of the store, its expiry, and every entry with its
  bytes.
\<close>

definition retains :: "file_store \<Rightarrow> file_store \<Rightarrow> bool" where
  "retains st st' \<longleftrightarrow>
     store_inv st' \<and> st_expiry st' = st_expiry st \<and>
     (\<forall>t f. get st t = Some f \<longrightarrow> get st' t = Some f \<and> blob st' t = blob st t)"

lemma retains_refl: "store_inv st \<Longrightarrow> retains st st"
  by (simp add: retains_def)

lemma store_expiry_kept: "st_expiry (snd (store f r ct rt rn now st)) = st_expiry st"
  by (auto simp: store_def store_copy_def store_insert_def insert_file_def Let_def
      split: prod.splits sum.splits if_splits)

lemma store_retains:
  assumes "store f r ct rt rn now st = (x, st')" and "store_inv st"
  shows "retains st st'"
proof -
  have e: "st_expiry st' = st_expiry st" using store_expiry_kept [of f r ct rt rn now st] assms(1) by simp
  show ?thesis
  proof (cases x)
    case (Inl err)
    with store_err [OF assms(1) [unfolded Inl] assms(2)] e show ?thesis by (simp add: retains_def)
  next
    case (Inr token)
    note k = store_ok [OF assms(1) [unfolded Inr] assms(2)]
    have "get st' t = Some g \<and> blob st' t = blob st t" if "get st t = Some g" for t g
      using k that by (cases "t = token") auto
    with k e show ?thesis by (simp add: retains_def)
  qed
qed

text \<open>A request leaves the store alone, opens a file, or is one call of \<open>Store\<close>.\<close>

definition store_effect :: "bytes \<Rightarrow> string \<Rightarrow> int \<Rightarrow> upload_request \<Rightarrow> file_store \<Rightarrow> file_store \<Rightarrow> bool" where
  "store_effect rt rn now u st st' \<longleftrightarrow>
     st' = st \<or>
     (\<exists>p x fs. os_open p (st_disk st) = (x, fs) \<and> st' = st\<lparr>st_disk := fs\<rparr>) \<or>
     (\<exists>f r x. store f r (up_client_token u) rt rn now st = (x, st'))"

lemma store_effect_refl [simp]: "store_effect rt rn now u st st"
  by (simp add: store_effect_def)

lemma effect_open: "os_open p (st_disk st) = (x, fs) \<Longrightarrow> store_effect rt rn now u st (st\<lparr>st_disk := fs\<rparr>)"
  unfolding store_effect_def by blast

lemma effect_store: "store f r (up_client_token u) rt rn now st = (x, st') \<Longrightarrow> store_effect rt rn now u st st'"
  unfolding store_effect_def by blast

lemma raw_effect: "handle_raw_download r s = (resp, s') \<Longrightarrow> store_effect rt rn now u (sv_store s) (sv_store s')"
  by (auto simp: handle_raw_download_def Let_def intro: effect_open
      split: if_splits option.splits prod.splits sum.splits)

lemma upload_effect:
  "handle_upload_file rt rn now u s = (resp, s') \<Longrightarrow> store_effect rt rn now u (sv_store s) (sv_store s')"
  by (auto simp: handle_upload_file_def Let_def intro: effect_store
      split: option.splits prod.splits if_splits sum.splits store_error.splits)

lemma serve_effect:
  assumes "serve E rt rn now u s = (resp, s')"
  shows "store_effect rt rn now u (sv_store s) (sv_store s')"
proof -
  let ?lim = "rate_limit (re_new_limiter E) (re_lim_allow E) now (http_request.truncate u)"
  have lim: "store_effect rt rn now u (sv_store s) (sv_store s1)"
    if "?lim h s = (q, s1)"
      and "\<And>il q s1. h (s\<lparr>sv_limiter := il\<rparr>) = (q, s1) \<Longrightarrow> store_effect rt rn now u (sv_store s) (sv_store s1)"
    for h q s1
    using rate_limit_same [OF that(1)] that(2)
    by (elim disjE) (metis server.select_convs(4) server.surjective server.update_convs(6,12) store_effect_refl, blast)
  show ?thesis
  proof (cases "route_of (rq_method u) (rq_path u)")
    case Upload
    obtain q s1 where l: "?lim (handle_upload_file rt rn now u) s = (q, s1)" by fastforce
    have "store_effect rt rn now u (sv_store s) (sv_store s1)" by (rule lim [OF l]) (use upload_effect in fastforce)
    with assms Upload l show ?thesis by (simp add: serve_def)
  next
    case (Raw t)
    obtain q s1 where l: "handle_raw_download ((http_request.truncate u)\<lparr>rq_token := t\<rparr>) s = (q, s1)" by fastforce
    with raw_effect [OF l] assms Raw show ?thesis by (simp add: serve_def)
  next
    case (WebSocket t)
    obtain q s1 where l: "?lim (\<lambda>s1. (reply 101 NoBody, s1)) s = (q, s1)" by fastforce
    have "store_effect rt rn now u (sv_store s) (sv_store s1)" by (rule lim [OF l]) auto
    with assms WebSocket l show ?thesis by (simp add: serve_def split: if_splits)
  next
    case (RoomStatus t)
    obtain q s1 where l: "?lim (\<lambda>s1. (handle_room_status ((http_request.truncate u)\<lparr>rq_token := t\<rparr>) s1, s1)) s = (q, s1)"
      by fastforce
    have "store_effect rt rn now u (sv_store s) (sv_store s1)" by (rule lim [OF l]) auto
    with assms RoomStatus l show ?thesis by (simp add: serve_def)
  qed (use assms in \<open>auto simp: serve_def Let_def\<close>)
qed

lemma effect_retains:
  assumes "store_effect rt rn now u st st'" and "store_inv st"
  shows "retains st st'"
proof -
  have "retains st (st\<lparr>st_disk := fs\<rparr>)" if "os_open p (st_disk st) = (x, fs)" for p x fs
    using store_inv_disk [OF assms(2)] blob_disk os_open_disk [OF that] by (simp add: retains_def)
  with assms retains_refl store_retains show ?thesis unfolding store_effect_def by blast
qed

lemma serve_retains:
  "serve E rt rn now u s = (resp, s') \<Longrightarrow> store_inv (sv_store s) \<Longrightarrow> retains (sv_store s) (sv_store s')"
  by (rule effect_retains [OF serve_effect])

lemma effect_calm: "store_effect rt rn now u st st' \<Longrightarrow> fs_faults (st_disk st) = [] \<Longrightarrow> fs_faults (st_disk st') = []"
  using store_no_faults
  by (auto simp: store_effect_def os_open_def next_fault_none split: option.splits if_splits) (metis snd_conv)

text \<open>Only the three limited routes ask the limiter, and a refused request changes nothing else.\<close>

definition limited :: "route \<Rightarrow> bool" where
  "limited r \<longleftrightarrow> r = Upload \<or> (\<exists>t. r = WebSocket t \<or> r = RoomStatus t)"

lemma unlimited_limiter:
  "\<not> limited (route_of (rq_method u) (rq_path u)) \<Longrightarrow> sv_limiter (snd (serve E rt rn now u s)) = sv_limiter s"
  by (cases "route_of (rq_method u) (rq_path u)")
    (auto simp: serve_def limited_def handle_raw_download_def Let_def split: prod.splits option.splits sum.splits)

lemma refused_request:
  assumes "limited (route_of (rq_method u) (rq_path u))"
    and "allow (re_new_limiter E) (re_lim_allow E) (client_ip (http_request.truncate u)) now (sv_limiter s) = (False, il)"
  shows "serve E rt rn now u s =
     (Some (reply 429 (ErrorText ''rate limited'')), s\<lparr>sv_limiter := il, sv_rate_limited := sv_rate_limited s + 1\<rparr>)"
  using assms by (auto simp: limited_def serve_def rate_limit_def reply_def Let_def)

section \<open>Runs\<close>

lemma relay_event_inv: "store_inv (sv_store s) \<Longrightarrow> store_inv (sv_store (relay_event_step E e s))"
proof (cases e)
  case (Request rt rn now u)
  assume "store_inv (sv_store s)"
  with serve_retains [of E rt rn now u s] Request show ?thesis
    by (cases "serve E rt rn now u s") (simp add: retains_def)
qed (simp_all add: cleanup_inv)

lemma relay_run_inv: "store_inv (sv_store s) \<Longrightarrow> store_inv (sv_store (relay_run E es s))"
  by (induction es arbitrary: s) (simp_all add: relay_event_inv)

definition holds_entry :: "file_store \<Rightarrow> string \<Rightarrow> stored_file \<Rightarrow> bytes \<Rightarrow> bool" where
  "holds_entry st t f c \<longleftrightarrow> store_inv st \<and> get st t = Some f \<and> blob st t = Some c"

lemma holds_retains: "retains st st' \<Longrightarrow> holds_entry st t f c \<Longrightarrow> holds_entry st' t f c \<and> st_expiry st' = st_expiry st"
  by (auto simp: retains_def holds_entry_def)

lemma holds_cleanup:
  assumes "holds_entry st t f c" and "now - sf_created f \<le> st_expiry st"
  shows "holds_entry (cleanup_tick now st) t f c"
proof -
  have "\<not> expired now st t" using assms by (simp add: expired_def holds_entry_def)
  with assms(1) cleanup_blob [of st now t] cleanup_inv [of st now] show ?thesis
    by (simp add: holds_entry_def cleanup_get)
qed

lemma relay_run_holds:
  assumes "holds_entry (sv_store s) t f c"
    and "\<forall>now. Tick now \<in> set es \<longrightarrow> now - sf_created f \<le> st_expiry (sv_store s)"
  shows "holds_entry (sv_store (relay_run E es s)) t f c \<and>
     st_expiry (sv_store (relay_run E es s)) = st_expiry (sv_store s)"
  using assms
proof (induction es arbitrary: s)
  case (Cons e es)
  have step: "holds_entry (sv_store (relay_event_step E e s)) t f c \<and>
      st_expiry (sv_store (relay_event_step E e s)) = st_expiry (sv_store s)"
  proof (cases e)
    case (Request rt rn now u)
    obtain resp s1 where r: "serve E rt rn now u s = (resp, s1)" by fastforce
    from Cons.prems(1) have "store_inv (sv_store s)" by (simp add: holds_entry_def)
    from holds_retains [OF serve_retains [OF r this] Cons.prems(1)] Request r show ?thesis by simp
  next
    case (Tick now)
    with Cons.prems(2) have "now - sf_created f \<le> st_expiry (sv_store s)" by simp
    from holds_cleanup [OF Cons.prems(1) this] Tick show ?thesis by (simp add: cleanup_get)
  qed (use Cons.prems(1) in simp)
  with Cons.IH [of "relay_event_step E e s"] Cons.prems(2) show ?case by simp
qed simp

lemma upload_stored:
  assumes "handle_upload_file rt rn now u s = (resp, s1)" and "rs_body resp = UploadReply token fname"
    and "store_inv (sv_store s)"
  shows "\<exists>f c. map_option (fst \<circ> snd) (up_file u) = Some c \<and> holds_entry (sv_store s1) token f c \<and>
     sf_created f = now \<and> st_expiry (sv_store s1) = st_expiry (sv_store s) \<and>
     token = store_token (up_client_token u) rt \<and> (length rt = 8 \<longrightarrow> valid_token token)"
proof -
  from assms(1,2) obtain fn r st where
    u: "form_file (cf_max_upload (sv_cfg s)) u = Some (fn, r)"
    and v: "up_client_token u = [] \<or> valid_token (up_client_token u)"
    and run: "store fn r (up_client_token u) rt rn now (sv_store s) = (Inr token, st)" and s1: "sv_store s1 = st"
    by (auto simp: handle_upload_file_def reply_def Let_def
        split: option.splits if_splits prod.splits sum.splits store_error.splits)
  have "token = store_token (up_client_token u) rt"
    using run by (auto simp: store_def Let_def split: if_splits prod.splits sum.splits)
  moreover have "length rt = 8 \<longrightarrow> valid_token token" using stored_token [OF _ v] calculation by simp
  moreover have "up_file u = Some (fn, r)" using u by (auto simp: form_file_def split: if_splits)
  ultimately show ?thesis
    using store_ok [OF run assms(3)] s1 store_expiry_kept [of fn r "up_client_token u" rt rn now "sv_store s"] run
    by (auto simp: holds_entry_def)
qed

lemma valid_token_no_slash: "valid_token t \<Longrightarrow> CHR ''/'' \<notin> set t"
  by (auto simp: valid_token_def hex_digits_def list_all_iff dest: bspec)

definition raw_get :: "string \<Rightarrow> upload_request" where
  "raw_get token =
     \<lparr>rq_method = ''GET'', rq_header = (\<lambda>_. []), rq_remote = [], rq_host = [], rq_tls = True, rq_path = ''/raw/'' @ token,
      rq_token = [], up_body_len = 0, up_file = None, up_client_token = []\<rparr>"

lemma raw_route: "valid_token t \<Longrightarrow> route_of ''GET'' (''/raw/'' @ t) = Raw t"
  using valid_token_not_Nil [of t]
  by (simp add: route_of_def split_sep_plain [OF valid_token_no_slash] get_route_def token_route_def)

lemma serve_raw_get:
  assumes "store_inv (sv_store s)" and "fs_faults (st_disk (sv_store s)) = []" and "valid_token t"
  shows "fst (serve E rt rn now (raw_get t) s) =
     Some (case blob (sv_store s) t of
        None \<Rightarrow> reply 404 (ErrorText ''not found or expired'') | Some c \<Rightarrow> reply 200 (RawBytes c))"
proof -
  define r where "r = (http_request.truncate (raw_get t))\<lparr>rq_token := t\<rparr>"
  obtain q s1 where h: "handle_raw_download r s = (q, s1)" by fastforce
  have "rq_token r = t" "rq_method r = ''GET''" by (simp_all add: r_def raw_get_def http_request.truncate_def)
  with raw_download [OF assms(1,2), of r] h valid_token_not_Nil [OF assms(3)]
  have "q = (case blob (sv_store s) t of
        None \<Rightarrow> reply 404 (ErrorText ''not found or expired'') | Some c \<Rightarrow> reply 200 (RawBytes c))"
    by (simp split: option.split)
  moreover have "route_of (rq_method (raw_get t)) (rq_path (raw_get t)) = Raw t"
    using raw_route [OF assms(3)] by (simp add: raw_get_def)
  ultimately show ?thesis using h [unfolded r_def] by (simp add: serve_def)
qed

lemma upload_route: "rq_method u = ''POST'' \<Longrightarrow> rq_path u = ''/upload'' \<Longrightarrow> route_of (rq_method u) (rq_path u) = Upload"
  by (simp add: route_of_def)

lemma serve_upload:
  assumes "serve E rt rn now u s = (Some resp, s1)" and "rs_body resp = UploadReply token fname"
    and "rq_method u = ''POST''" and "rq_path u = ''/upload''"
  shows "\<exists>il. handle_upload_file rt rn now u (s\<lparr>sv_limiter := il\<rparr>) = (resp, s1)"
  using assms upload_route [OF assms(3,4)]
  by (auto simp: serve_def rate_limit_def reply_def Let_def split: prod.splits if_splits)

lemma upload_calm:
  "fs_faults (st_disk (sv_store s)) = [] \<Longrightarrow> fs_faults (st_disk (sv_store (snd (handle_upload_file rt rn now u s)))) = []"
  by (metis effect_calm prod.collapse upload_effect)

lemma serve_calm:
  "fs_faults (st_disk (sv_store s)) = [] \<Longrightarrow> fs_faults (st_disk (sv_store (snd (serve E rt rn now u s)))) = []"
  by (metis effect_calm prod.collapse serve_effect)

lemma relay_run_calm:
  "fs_faults (st_disk (sv_store s)) = [] \<Longrightarrow> fs_faults (st_disk (sv_store (relay_run E es s))) = []"
proof (induction es arbitrary: s)
  case (Cons e es)
  have "fs_faults (st_disk (sv_store (relay_event_step E e s))) = []"
    using Cons.prems serve_calm expire_fold_gone [OF distinct_tokens Cons.prems]
    by (cases e) (simp_all add: cleanup_tick_def)
  with Cons.IH show ?case by simp
qed simp

section \<open>Property\<close>


text \<open>The witness: an upload, traffic and a tick after five minutes, then the download.\<close>

definition sample_env :: "int relay_env" where
  "sample_env =
     \<lparr>re_static = (\<lambda>_. None), re_site = (\<lambda>_. None), re_file_server = (\<lambda>_ _. reply 404 NoBody),
      re_new_limiter = (\<lambda>n. n), re_lim_allow = (\<lambda>_ n. (0 < n, n - 1)), re_quote = id, re_seconds = id,
      re_urls = \<lparr>ul_parse = (\<lambda>_. None), ul_fold = (\<lambda>_ _. False), ul_lower = id\<rparr>, re_handshake = (\<lambda>_. None)\<rparr>"

lemma sample_serve:
  "fst (serve sample_env (replicate 8 1) ''x'' 5 sample_upload empty_server) =
     Some (reply 200 (UploadReply ''0123456789abcdef'' ''f''))"
proof -
  have v: "valid_token ''0123456789abcdef''" by (simp add: valid_token_def hex_digits_def)
  obtain st where "store ''f'' ([1, 2], True) ''0123456789abcdef'' (replicate 8 1) ''x'' 5 empty_store =
      (Inr ''0123456789abcdef'', st)"
    using store_on_empty [OF v] by blast
  then show ?thesis
    using v empty_server_limit upload_route [of sample_upload]
    by (simp add: serve_def rate_limit_def sample_env_def allow_def flushed_def flush_due_def limiter_of_def
        handle_upload_file_def form_file_def sample_upload_def empty_server_def new_ip_limiter_def Let_def
        load_config_def getenv_int_def split: option.split)
qed


end
