(* ===== verification/MailboxEndToEnd.thy ===== *)
theory MailboxEndToEnd
  imports MailboxClient Routes
begin

text \<open>
  The mailbox path from end to end: the client's upload through the rate limiter into the
  relay's store, and the download of the same phrase back into files.
\<close>

section \<open>The relay as the client's network\<close>

definition relay_post ::
  "(int \<Rightarrow> 'l) \<Rightarrow> (int \<Rightarrow> 'l \<Rightarrow> bool \<times> 'l) \<Rightarrow> bytes \<Rightarrow> string \<Rightarrow> int \<Rightarrow> 'l server post" where
  "relay_post new_limiter lim_allow rndToken rndName now u s =
     (case rate_limit new_limiter lim_allow now (http_request.truncate u)
             (handle_upload_file rndToken rndName now u) s of
        (resp, s1) \<Rightarrow> (Some resp, s1))"

definition raw_request :: "string \<Rightarrow> string \<Rightarrow> http_request" where
  "raw_request meth token =
     \<lparr>rq_method = meth, rq_header = (\<lambda>_. []), rq_remote = [], rq_host = [], rq_tls = True,
      rq_path = ''/raw/'' @ token, rq_token = token\<rparr>"

definition relay_fetch :: "'l server fetch" where
  "relay_fetch meth token s =
     (case handle_raw_download (raw_request meth token) s of (resp, s1) \<Rightarrow> (Some resp, s1))"

section \<open>Reading and saving\<close>

lemma os_read_file_Inr:
  "os_read_file p fs = (Inr c, fs') \<Longrightarrow>
     fmlookup (fs_files fs) p = Some c \<and> fs_files fs' = fs_files fs"
  by (auto simp: os_read_file_def split: prod.splits option.splits if_splits dest!: next_fault_frame)

lemma read_entries_Inr:
  "read_entries ps fs = (Inr es, fs') \<Longrightarrow>
     list_all2 (\<lambda>p e. en_name e = base_name p \<and> fmlookup (fs_files fs) p = Some (en_content e)) ps es"
proof (induction ps arbitrary: fs es fs')
  case (Cons p ps)
  from Cons.prems obtain raw fs1 es1 where r: "os_read_file p fs = (Inr raw, fs1)"
    and rest: "read_entries ps fs1 = (Inr es1, fs')"
    and es: "es = \<lparr>en_name = base_name p, en_content = raw\<rparr> # es1"
    by (auto split: prod.splits sum.splits)
  from Cons.IH [OF rest] os_read_file_Inr [OF r] es show ?case by simp
qed simp

text \<open>Saving entries with safe names, without disk faults: each to a fresh file of its own.\<close>

lemma save_entries_ok:
  assumes "fs_faults fs = []" and "\<forall>e \<in> set es. safe_filename (en_name e) = Inr (en_name e)"
  shows "\<exists>saved fs'. save_entries d es fs = (Inr (), saved, fs') \<and>
     list_all2 (\<lambda>e q. fmlookup (fs_files fs') q = Some (en_content e)) es saved \<and>
     distinct saved \<and> (\<forall>q \<in> set saved. \<not> fs_exists fs q \<and> (\<exists>m. plain_name m \<and> q = join d m)) \<and>
     same_except (set saved) fs fs'"
  using assms
proof (induction es arbitrary: fs)
  case (Cons e es)
  let ?n = "en_name e"
  have sf: "safe_filename ?n = Inr ?n" and pn: "plain_name ?n"
    using Cons.prems(2) by (auto simp: result_iff)
  obtain q where q: "mailbox_unique_save_path fs d ?n = Some q" "\<not> fs_exists fs q"
    using mailbox_unique_finds [OF pn] by blast
  have w: "fst (os_write_file q (en_content e) fs) = Inr ()"
      "fs_faults (snd (os_write_file q (en_content e) fs)) = []"
      "fmlookup (fs_files (snd (os_write_file q (en_content e) fs))) q = Some (en_content e)"
    using Cons.prems(1) q(2)
    by (simp_all add: os_write_file_def os_create_def os_append_def next_fault_none fs_exists_def Let_def)
  obtain fs1 where f1: "os_write_file q (en_content e) fs = (Inr (), fs1)" "fs_faults fs1 = []"
      "fmlookup (fs_files fs1) q = Some (en_content e)" "same_except {q} fs fs1"
    using w os_write_file_same [of q fs "en_content e"]
    by (cases "os_write_file q (en_content e) fs") simp
  obtain saved fs' where IH: "save_entries d es fs1 = (Inr (), saved, fs')"
      "list_all2 (\<lambda>e q. fmlookup (fs_files fs') q = Some (en_content e)) es saved" "distinct saved"
      "\<forall>q \<in> set saved. \<not> fs_exists fs1 q \<and> (\<exists>m. plain_name m \<and> q = join d m)"
      "same_except (set saved) fs1 fs'"
    using Cons.IH [OF f1(2)] Cons.prems(2) by auto
  have "q \<notin> set saved"
    using IH(4) f1(3) by (auto simp: fs_exists_def fmlookup_dom_iff)
  moreover have "same_except (set (q # saved)) fs fs'"
    using f1(4) IH(5) by (auto simp: same_except_def)
  moreover have "\<not> fs_exists fs p" if "\<not> fs_exists fs1 p" "p \<noteq> q" for p
    using that f1(4) by (auto simp: same_except_def fs_exists_def fmlookup_dom_iff)
  moreover have "fmlookup (fs_files fs') q = Some (en_content e)"
    using IH(5) f1(3) calculation(1) by (auto simp: same_except_def)
  ultimately show ?case
    using sf q f1(1) IH mailbox_path_in_dir [OF pn q(1)] by auto
qed auto

section \<open>What an upload leaves for the download\<close>

lemma relay_post_200:
  assumes "relay_post new_limiter lim_allow rt rn now u s = (Some resp, s')" and "rs_status resp = 200"
    and "store_inv (sv_store s)"
  shows "\<exists>fname f c. rs_body resp = UploadReply (store_token (up_client_token u) rt) fname \<and>
     map_option (fst \<circ> snd) (up_file u) = Some c \<and>
     holds_entry (sv_store s') (store_token (up_client_token u) rt) f c \<and> sf_created f = now \<and>
     st_expiry (sv_store s') = st_expiry (sv_store s) \<and>
     (fs_faults (st_disk (sv_store s)) = [] \<longrightarrow> fs_faults (st_disk (sv_store s')) = [])"
proof -
  obtain ok il where "allow new_limiter lim_allow (client_ip (http_request.truncate u)) now (sv_limiter s) = (ok, il)"
    by fastforce
  with assms(1,2) have h: "handle_upload_file rt rn now u (s\<lparr>sv_limiter := il\<rparr>) = (resp, s')"
    by (auto simp: relay_post_def rate_limit_def reply_def Let_def split: prod.splits if_splits)
  then obtain token fname where b: "rs_body resp = UploadReply token fname"
    using assms(2) by (auto simp: handle_upload_file_def reply_def Let_def
        split: option.splits if_splits prod.splits sum.splits store_error.splits)
  have "fs_faults (st_disk (sv_store s)) = [] \<longrightarrow> fs_faults (st_disk (sv_store s')) = []"
    using upload_calm [of "s\<lparr>sv_limiter := il\<rparr>" rt rn now u] h by simp
  with upload_stored [OF h b] assms(3) b show ?thesis by auto
qed

section \<open>The relay as the mailbox of the client\<close>

text \<open>
  The contract \<open>mailbox_relay\<close> of \<open>MailboxClient\<close> on the modelled relay: an entry uploaded at
  \<open>now\<close> stays through any traffic without a tick past its expiry.
\<close>

definition relay_ready :: "'l server \<Rightarrow> bool" where
  "relay_ready s \<longleftrightarrow> store_inv (sv_store s) \<and> fs_faults (st_disk (sv_store s)) = []"

definition relay_holds :: "int \<Rightarrow> 'l server \<Rightarrow> string \<Rightarrow> bytes \<Rightarrow> bool" where
  "relay_holds now s t c \<longleftrightarrow>
     (\<exists>f. holds_entry (sv_store s) t f c \<and> sf_created f = now) \<and> fs_faults (st_disk (sv_store s)) = []"

definition relay_later :: "int \<Rightarrow> 'l server \<Rightarrow> 'l server \<Rightarrow> bool" where
  "relay_later now s s' \<longleftrightarrow>
     (\<exists>E es. s' = relay_run E es s \<and> (\<forall>tick. Tick tick \<in> set es \<longrightarrow> tick \<le> now + st_expiry (sv_store s)))"

lemma relay_holds_fetch:
  assumes "relay_holds now s t c" and "t \<noteq> []"
  shows "\<exists>s'. relay_fetch meth t s =
     (Some (reply 200 (if meth = ''HEAD'' then NoBody else RawBytes c)), s') \<and> relay_holds now s' t c"
proof -
  have st: "store_inv (sv_store s)" "blob (sv_store s) t = Some c" and calm: "fs_faults (st_disk (sv_store s)) = []"
    using assms(1) by (auto simp: relay_holds_def holds_entry_def)
  have "fst (handle_raw_download (raw_request meth t) s) = reply 200 (if meth = ''HEAD'' then NoBody else RawBytes c)"
    using raw_download [OF st(1) calm, of "raw_request meth t"] st(2) assms(2) by (simp add: raw_request_def)
  moreover have "sv_store (snd (handle_raw_download (raw_request meth t) s)) = sv_store s"
    by (rule raw_download_store [OF calm])
  ultimately show ?thesis
    using assms(1) by (cases "handle_raw_download (raw_request meth t) s") (simp add: relay_fetch_def relay_holds_def)
qed

interpretation relay: mailbox_relay "relay_post new_limiter lim_allow rt rn now" relay_fetch relay_ready
    "relay_holds now" "relay_later now"
  for new_limiter :: "int \<Rightarrow> 'l" and lim_allow rt rn now
proof
  fix s :: "'l server" and token overhead c resp s'
  assume "relay_ready s" "token \<noteq> []" "rs_status resp = 200"
    and "relay_post new_limiter lim_allow rt rn now (upload_body overhead c token) s = (Some resp, s')"
  with relay_post_200 [OF this(4,3)]
  show "(\<exists>name. rs_body resp = UploadReply token name) \<and> relay_holds now s' token c"
    by (auto simp: relay_ready_def relay_holds_def upload_body_def store_token_def)
next
  fix s :: "'l server" and token c s'
  assume h: "relay_holds now s token c" and "relay_later now s s'"
  then obtain f E es where f: "holds_entry (sv_store s) token f c" "sf_created f = now"
      "fs_faults (st_disk (sv_store s)) = []" and s': "s' = relay_run E es s"
    and ticks: "\<forall>tick. Tick tick \<in> set es \<longrightarrow> tick \<le> now + st_expiry (sv_store s)"
    by (auto simp: relay_holds_def relay_later_def)
  have "holds_entry (sv_store s') token f c"
    unfolding s' using relay_run_holds [OF f(1), of es E] ticks f(2) by force
  with f(2) relay_run_calm [OF f(3)] s' show "relay_holds now s' token c"
    by (auto simp: relay_holds_def)
qed (use relay_holds_fetch [where meth = "''HEAD''"] relay_holds_fetch [where meth = "''GET''"] in
      \<open>fastforce simp: reply_def\<close>)+

section \<open>Properties\<close>

lemma send_native_Inr:
  assumes "send_mailbox_native seal rnd post overhead paths token key cfs s = (Inr tok, cfs', s')"
  shows "\<exists>es plaintext c. paths \<noteq> [] \<and>
     list_all2 (\<lambda>p e. en_name e = base_name p \<and> fmlookup (fs_files cfs) p = Some (en_content e)) paths es \<and>
     encode_amb2 es = Inr plaintext \<and> encrypt seal rnd plaintext key = Inr c \<and>
     upload_encrypted post overhead c token s = (Inr tok, s')"
  using assms read_entries_Inr [of paths cfs]
  by (auto simp: send_mailbox_native_def split: if_splits prod.splits sum.splits)

lemma upload_keeps_expiry:
  assumes "upload_encrypted (relay_post new_limiter lim_allow rt rn now) overhead c t s = (Inr tok, s')"
    and "store_inv (sv_store s)"
  shows "st_expiry (sv_store s') = st_expiry (sv_store s)"
proof -
  obtain resp where "relay_post new_limiter lim_allow rt rn now (upload_body overhead c t) s = (Some resp, s')"
      "rs_status resp = 200"
    using assms(1) by (auto simp: upload_encrypted_def split: prod.splits option.splits if_splits)
  from relay_post_200 [OF this assms(2)] show ?thesis by blast
qed

text \<open>A sealed payload that was uploaded is saved entry by entry by a later download of the phrase.\<close>

lemma sealed_saved:
  assumes "secretbox_ok seal opn" and "length nonce = NonceSize"
    and "store_inv (sv_store s)" and "fs_faults (st_disk (sv_store s)) = []"
    and "encrypt seal (Some nonce) plaintext (derive_key uc phrase) = Inr c"
    and "upload_encrypted (relay_post new_limiter lim_allow rt rn now) overhead c (derive_token uc phrase) s = (Inr tok, s')"
    and "\<forall>tick. Tick tick \<in> set traffic \<longrightarrow> tick \<le> now + st_expiry (sv_store s)"
    and "normalize uc typed = normalize uc phrase" and "fs_faults rfs = []"
    and "decode plaintext = Inr es" and "\<forall>e \<in> set es. safe_filename (en_name e) = Inr (en_name e)"
  shows "tok = derive_token uc phrase \<and> (\<exists>saved rfs' s''.
     download_phrase opn uc relay_fetch d typed rfs (relay_run E traffic s') = (Finished (Inr ()) saved, rfs', s'') \<and>
     list_all2 (\<lambda>e q. fmlookup (fs_files rfs') q = Some (en_content e)) es saved \<and>
     distinct saved \<and> (\<forall>q \<in> set saved. \<not> fs_exists rfs q \<and> (\<exists>m. plain_name m \<and> q = join d m)) \<and>
     same_except (set saved) rfs rfs')"
proof -
  have ready: "relay_ready s" using assms(3,4) by (simp add: relay_ready_def)
  have later: "relay_later now s' (relay_run E traffic s')"
    unfolding relay_later_def using upload_keeps_expiry [OF assms(6,3)] assms(7) by auto
  obtain s'' where tok: "tok = derive_token uc phrase"
    and dl: "download_phrase opn uc relay_fetch d typed rfs (relay_run E traffic s') =
      (case save_entries d es rfs of (r, saved, fs') \<Rightarrow> (Finished r saved, fs', s''))"
    using relay.upload_download [OF assms(1,2) ready assms(5,6) later assms(8,10)] by blast
  from save_entries_ok [OF assms(9,11), of d] obtain saved rfs' where
      sv: "save_entries d es rfs = (Inr (), saved, rfs')"
        "list_all2 (\<lambda>e q. fmlookup (fs_files rfs') q = Some (en_content e)) es saved" "distinct saved"
        "\<forall>q \<in> set saved. \<not> fs_exists rfs q \<and> (\<exists>m. plain_name m \<and> q = join d m)"
        "same_except (set saved) rfs rfs'" by blast
  from dl have "download_phrase opn uc relay_fetch d typed rfs (relay_run E traffic s') = (Finished (Inr ()) saved, rfs', s'')"
    unfolding sv(1) by simp
  with tok sv(2-5) show ?thesis by blast
qed

lemma safe_entries:
  assumes "list_all2 (\<lambda>p e. en_name e = base_name p \<and> fmlookup (fs_files fs) p = Some (en_content e)) paths es"
    and "\<forall>p \<in> set paths. safe_filename (base_name p) = Inr (base_name p)"
  shows "\<forall>e \<in> set es. safe_filename (en_name e) = Inr (en_name e)"
  using assms by (auto simp: list_all2_conv_all_nth in_set_conv_nth) (metis nth_mem)

text \<open>
  The mailbox from end to end.  When \<open>sendMailboxNative\<close> reports success for files with
  safe names, then after any other traffic of the relay, as long as no expiry tick came too
  late, \<open>cmdDownload\<close> with any phrase of the same normal form finds the blob and saves every
  file, in order, under a fresh path of its own directly in the destination, with exactly the
  sender's bytes, changing no other file; and the token it reports is the phrase's.
\<close>

lemma mailbox_end_to_end:
  assumes "secretbox_ok seal opn" and "length nonce = NonceSize"
    and "store_inv (sv_store s)" and "fs_faults (st_disk (sv_store s)) = []"
    and "\<forall>p \<in> set paths. safe_filename (base_name p) = Inr (base_name p)"
    and "send_mailbox_native seal (Some nonce) (relay_post new_limiter lim_allow rt rn now) overhead paths
      (derive_token uc phrase) (derive_key uc phrase) cfs s = (Inr tok, cfs', s')"
    and "\<forall>tick. Tick tick \<in> set traffic \<longrightarrow> tick \<le> now + st_expiry (sv_store s)"
    and "normalize uc typed = normalize uc phrase" and "fs_faults rfs = []"
  shows "\<exists>saved rfs' s''. tok = derive_token uc phrase \<and>
     download_phrase opn uc relay_fetch d typed rfs (relay_run E traffic s') = (Finished (Inr ()) saved, rfs', s'') \<and>
     list_all2 (\<lambda>p q. fmlookup (fs_files rfs') q = fmlookup (fs_files cfs) p \<and> p |\<in>| fmdom (fs_files cfs)) paths saved \<and>
     distinct saved \<and> (\<forall>q \<in> set saved. \<not> fs_exists rfs q \<and> (\<exists>m. plain_name m \<and> q = join d m)) \<and>
     same_except (set saved) rfs rfs'"
proof -
  obtain es plaintext c where es: "list_all2 (\<lambda>p e. en_name e = base_name p \<and>
        fmlookup (fs_files cfs) p = Some (en_content e)) paths es"
    and enc: "encode_amb2 es = Inr plaintext" "encrypt seal (Some nonce) plaintext (derive_key uc phrase) = Inr c"
    and up: "upload_encrypted (relay_post new_limiter lim_allow rt rn now) overhead c (derive_token uc phrase) s = (Inr tok, s')"
    using send_native_Inr [OF assms(6)] by blast
  from sealed_saved [OF assms(1-4) enc(2) up assms(7-9) decode_encoded [OF enc(1)] safe_entries [OF es assms(5)], of d E]
  obtain saved rfs' s'' where tok: "tok = derive_token uc phrase"
    and dl: "download_phrase opn uc relay_fetch d typed rfs (relay_run E traffic s') = (Finished (Inr ()) saved, rfs', s'')"
    and sv: "list_all2 (\<lambda>e q. fmlookup (fs_files rfs') q = Some (en_content e)) es saved" "distinct saved"
      "\<forall>q \<in> set saved. \<not> fs_exists rfs q \<and> (\<exists>m. plain_name m \<and> q = join d m)" "same_except (set saved) rfs rfs'"
    by blast
  have "list_all2 (\<lambda>p q. fmlookup (fs_files rfs') q = fmlookup (fs_files cfs) p \<and> p |\<in>| fmdom (fs_files cfs)) paths saved"
    by (rule list_all2_trans [OF _ es sv(1)]) (auto simp: fmlookup_dom_iff)
  with dl sv tok show ?thesis by blast
qed

text \<open>The witness: one file, an empty relay, and the phrase typed with spaces in lower case.\<close>

definition sample_post :: "int server post" where
  "sample_post = relay_post (\<lambda>n. n) (\<lambda>_ n. (0 < n, n - 1)) (replicate 8 1) ''x'' 5"

definition sample_files :: filesys where
  "sample_files = \<lparr>fs_files = fmupd ''a'' [1, 2] fmempty, fs_dirs = {||}, fs_faults = []\<rparr>"

lemma sample_upload:
  assumes "int (length c) + 200 \<le> 524288000"
  shows "\<exists>s'. upload_encrypted sample_post 200 c (derive_token uc phrase) empty_server = (Inr (derive_token uc phrase), s')"
proof -
  obtain st where "store ''encrypted.bin'' (c, True) (derive_token uc phrase) (replicate 8 1) ''x'' 5 empty_store =
      (Inr (derive_token uc phrase), st)"
    using store_on_empty [OF valid_derived] by blast
  with assms valid_derived [of uc phrase] empty_server_limit show ?thesis
    by (simp add: upload_encrypted_def sample_post_def relay_post_def rate_limit_def
        allow_def flushed_def flush_due_def limiter_of_def handle_upload_file_def form_file_def upload_body_def
        reply_def Let_def empty_server_def new_ip_limiter_def split: option.split)
qed

lemma sample_send:
  "\<exists>tok s'. send_mailbox_native tag_seal (Some (replicate 24 5)) sample_post 200 [''a''] (derive_token uc phrase)
     (derive_key uc phrase) sample_files empty_server = (Inr tok, sample_files, s')"
proof -
  have b: "base_name ''a'' = ''a''" by (simp add: base_name_def)
  have r: "read_entries [''a''] sample_files = (Inr [\<lparr>en_name = ''a'', en_content = [1, 2]\<rparr>], sample_files)"
    by (simp add: os_read_file_def next_fault_none sample_files_def b)
  define es :: "entry list" where "es = [\<lparr>en_name = ''a'', en_content = [1, 2]\<rparr>]"
  have e: "encode_amb2 es = Inr (magicAMB2 @ put32 (word_of_nat (length es)) @ entries_bytes es)"
    by (simp add: result_iff es_def MaxFilesPerSend_def entry_ok_def MaxFilenameLen_def MaxFilePayload_eq)
  define c where "c = replicate 24 5 @ tag_seal (magicAMB2 @ put32 (word_of_nat (length es)) @ entries_bytes es)
      (replicate 24 5) (derive_key uc phrase)"
  have k: "length (derive_key uc phrase) = KeySize" by (simp add: derive_key_def KeySize_def)
  then have "encrypt tag_seal (Some (replicate 24 5)) (magicAMB2 @ put32 (word_of_nat (length es)) @ entries_bytes es)
      (derive_key uc phrase) = Inr c"
    by (simp add: result_iff c_def)
  moreover have "int (length c) + 200 \<le> 524288000"
    using k by (simp add: c_def es_def tag_seal_def KeySize_def)
  from sample_upload [OF this, of uc phrase] obtain s' where
    "upload_encrypted sample_post 200 c (derive_token uc phrase) empty_server = (Inr (derive_token uc phrase), s')" by blast
  ultimately show ?thesis
    using r e by (simp add: send_mailbox_native_def es_def)
qed

lemma mailbox_end_to_end_witness:
  "\<exists>tok s' saved rfs' s''.
     send_mailbox_native tag_seal (Some (replicate 24 5)) sample_post 200 [''a''] (derive_token id ''RED FOX'')
       (derive_key id ''RED FOX'') sample_files empty_server = (Inr tok, sample_files, s') \<and>
     download_phrase tag_open id relay_fetch ''d'' '' red  fox '' sample_files
       (relay_run sample_env [Request [] [] 7 (raw_get ''0123456789abcdef''), Tick 300] s') = (Finished (Inr ()) saved, rfs', s'') \<and>
     list_all2 (\<lambda>p q. fmlookup (fs_files rfs') q = Some [1, 2]) [''a''] saved"
proof -
  obtain tok s' where send: "send_mailbox_native tag_seal (Some (replicate 24 5)) sample_post 200 [''a'']
      (derive_token id ''RED FOX'') (derive_key id ''RED FOX'') sample_files empty_server = (Inr tok, sample_files, s')"
    using sample_send by blast
  have "base_name ''a'' = ''a''" by (simp add: base_name_def)
  then have names: "\<forall>p \<in> set [''a'']. safe_filename (base_name p) = Inr (base_name p)"
    by (simp add: result_iff plain_name_def char_of_eq_iff)
  have up: "char_of (82 :: nat) = CHR ''R''" "char_of (69 :: nat) = CHR ''E''" "char_of (68 :: nat) = CHR ''D''"
      "char_of (70 :: nat) = CHR ''F''" "char_of (79 :: nat) = CHR ''O''" "char_of (88 :: nat) = CHR ''X''"
    by (simp_all add: char_of_eq_iff)
  have norm: "normalize id '' red  fox '' = normalize id ''RED FOX''"
    by (simp add: normalize_def trim_space_def trim_left.simps space_len_def codes_def split_fields_def to_upper_def
        is_ascii_def upper_char_def up Let_def)
  have "length (replicate 24 (5 :: byte)) = NonceSize" "store_inv (sv_store empty_server)"
      "fs_faults (st_disk (sv_store empty_server)) = []" "fs_faults sample_files = []"
    by (simp_all add: NonceSize_def empty_server_def empty_store_inv sample_files_def)
  note calm = this
  let ?traffic = "[Request [] [] 7 (raw_get ''0123456789abcdef''), Tick 300]"
  have "\<forall>tick. Tick tick \<in> set ?traffic \<longrightarrow> tick \<le> 5 + st_expiry (sv_store empty_server)"
    by (simp add: empty_server_def empty_store_def)
  from mailbox_end_to_end [OF secretbox_ok_tag calm(1-3) names send [unfolded sample_post_def] this norm calm(4), of "''d''" sample_env]
  obtain saved rfs' s'' where dl:
      "download_phrase tag_open id relay_fetch ''d'' '' red  fox '' sample_files (relay_run sample_env ?traffic s') =
         (Finished (Inr ()) saved, rfs', s'')"
    and sv: "list_all2 (\<lambda>p q. fmlookup (fs_files rfs') q = fmlookup (fs_files sample_files) p \<and>
         p |\<in>| fmdom (fs_files sample_files)) [''a''] saved"
    by blast
  have "list_all2 (\<lambda>p q. fmlookup (fs_files rfs') q = Some [1, 2]) [''a''] saved"
    using sv by (simp add: sample_files_def list_all2_Cons1)
  with dl send show ?thesis by blast
qed

end
