(* ===== verification/DropEndToEnd.thy ===== *)
theory DropEndToEnd
  imports MailboxEndToEnd CliProps
begin

text \<open>
  The program from command to command: \<open>drop send\<close> into the mailbox, any traffic of the relay,
  and \<open>drop download\<close> with the phrase, for one file, several files, and folders in an archive.
\<close>

section \<open>What is sent\<close>

text \<open>
  The phrase that \<open>cmdSend\<close> shows, and the names and contents of its upload: a single archive
  when a folder is among the paths, else the files one by one.
\<close>

definition sent_phrase :: "'s send_io \<Rightarrow> send_flags \<Rightarrow> string" where
  "sent_phrase io fl = (if fl_resume fl \<noteq> [] then normalize (io_upper io) (fl_resume fl) else io_phrase io)"

definition any_dir :: "path list \<Rightarrow> filesys \<Rightarrow> bool" where
  "any_dir files fs = list_ex (\<lambda>f. f |\<in>| fs_dirs fs) files"

definition sent_names :: "path list \<Rightarrow> filesys \<Rightarrow> string list" where
  "sent_names files fs = (if any_dir files fs then [archive_name files] else map base_name files)"

definition sent_contents :: "'s send_io \<Rightarrow> path list \<Rightarrow> filesys \<Rightarrow> bytes list" where
  "sent_contents io files fs =
     (if any_dir files fs
      then [zip_bytes (io_format io) (concat (map (members_of (io_view io) fs) files))]
      else map (content fs) files)"

section \<open>From the command to the upload\<close>

lemma send_mailbox_Inr:
  assumes "send_mailbox seal rnd post overhead p n token key fs s = (Inr tok, fs', s')"
  shows "\<exists>content c. fmlookup (fs_files fs) p = Some content \<and>
     encrypt seal rnd (put32 (word_of_nat (length n)) @ bytes_of n @ content) key = Inr c \<and>
     upload_encrypted post overhead c token s = (Inr tok, s')"
  using assms os_read_file_Inr [of p fs]
  by (fastforce simp: send_mailbox_def Let_def split: prod.splits sum.splits)

lemma mailbox_result_None: "mailbox_result x = (Inr None, fs', net') \<Longrightarrow> \<exists>tok. x = (Inr tok, fs', net')"
  by (auto simp: mailbox_result_def split: prod.splits sum.splits)

lemma run_p2p_not_None: "run_p2p L io key ps stay fs net \<noteq> (Inr None, fs', net')"
  by (auto simp: run_p2p_def split: prod.splits sum.splits)

lemma resolve_mode_Inr: "resolve_mode v t l = Inr m \<Longrightarrow> m = ''p2p'' \<or> m = ''mailbox''"
  by (auto simp: resolve_mode_def Let_def split: if_splits)

lemma first_missing_None: "first_missing ps fs = None \<longleftrightarrow> (\<forall>p \<in> set ps. fs_exists fs p)"
  by (induction ps) auto

text \<open>The payload of a successful mailbox transfer decodes to what is to be sent.\<close>

definition uploaded ::
  "libs \<Rightarrow> 's send_io \<Rightarrow> string \<Rightarrow> string list \<Rightarrow> bytes list \<Rightarrow> 's \<Rightarrow> 's \<Rightarrow> bool" where
  "uploaded L io phrase names contents s s' \<longleftrightarrow>
     (\<exists>plaintext c tok. decode plaintext = Inr (map2 (\<lambda>n b. \<lparr>en_name = n, en_content = b\<rparr>) names contents) \<and>
        encrypt (lib_seal L) (io_nonce io) plaintext (derive_key (io_upper io) phrase) = Inr c \<and>
        upload_encrypted (io_post io) (io_overhead io) c (derive_token (io_upper io) phrase) s = (Inr tok, s'))"

lemma send_single_uploaded:
  assumes "mailbox_result (send_mailbox (lib_seal L) (io_nonce io) (io_post io) (io_overhead io) p n
      (derive_token (io_upper io) phrase) (derive_key (io_upper io) phrase) fs s) = (Inr None, fs', s')"
    and "n \<noteq> []" and "int (length n) \<le> MaxFilenameLen"
  shows "\<exists>b. fmlookup (fs_files fs) p = Some b \<and> uploaded L io phrase [n] [b] s s'"
proof -
  from mailbox_result_None [OF assms(1)] obtain tok where
    "send_mailbox (lib_seal L) (io_nonce io) (io_post io) (io_overhead io) p n
      (derive_token (io_upper io) phrase) (derive_key (io_upper io) phrase) fs s = (Inr tok, fs', s')" by blast
  from send_mailbox_Inr [OF this] decode_v1_bytes [OF assms(2,3)] show ?thesis
    by (fastforce simp: uploaded_def)
qed

lemma send_native_uploaded:
  assumes "mailbox_result (send_mailbox_native (lib_seal L) (io_nonce io) (io_post io) (io_overhead io) ps
      (derive_token (io_upper io) phrase) (derive_key (io_upper io) phrase) fs s) = (Inr None, fs', s')"
  shows "uploaded L io phrase (map base_name ps) (map (content fs) ps) s s'"
proof -
  from mailbox_result_None [OF assms] obtain tok where
    "send_mailbox_native (lib_seal L) (io_nonce io) (io_post io) (io_overhead io) ps
      (derive_token (io_upper io) phrase) (derive_key (io_upper io) phrase) fs s = (Inr tok, fs', s')" by blast
  from send_native_Inr [OF this] obtain es plaintext c where
    es: "list_all2 (\<lambda>p e. en_name e = base_name p \<and> fmlookup (fs_files fs) p = Some (en_content e)) ps es"
    and up: "encode_amb2 es = Inr plaintext"
      "encrypt (lib_seal L) (io_nonce io) plaintext (derive_key (io_upper io) phrase) = Inr c"
      "upload_encrypted (io_post io) (io_overhead io) c (derive_token (io_upper io) phrase) s = (Inr tok, s')"
    by blast
  have "es = map2 (\<lambda>n b. \<lparr>en_name = n, en_content = b\<rparr>) (map base_name ps) (map (content fs) ps)"
    using es by (induction ps es rule: list_all2_induct) (simp_all add: content_def)
  with decode_encoded [OF up(1)] up(2,3) show ?thesis by (auto simp: uploaded_def)
qed

lemma send_with_uploaded:
  assumes "send_with L io fl ''mailbox'' plan p n fs s = (Inr None, fs', s')"
  shows "plan = PlanNative ps \<Longrightarrow>
      uploaded L io (sent_phrase io fl) (map base_name ps) (map (content fs) ps) s s'"
    and "plan \<in> {PlanZip, PlanSingle q} \<Longrightarrow> n \<noteq> [] \<Longrightarrow> int (length n) \<le> MaxFilenameLen \<Longrightarrow>
      \<exists>b. fmlookup (fs_files fs) p = Some b \<and> uploaded L io (sent_phrase io fl) [n] [b] s s'"
  using assms
  by (auto simp: send_with_def Let_def sent_phrase_def split: if_splits
      intro!: send_native_uploaded send_single_uploaded)

lemma send_plan_mailbox:
  assumes "files \<noteq> []"
  shows "send_plan_of ''mailbox'' files fs =
     (if any_dir files fs then PlanZip
      else if length files > 1 then PlanNative files else PlanSingle (hd files))"
  using assms by (auto simp: send_plan_of_def any_dir_def Let_def)

lemma send_with_p2p:
  "send_with L io fl ''p2p'' plan p n fs s = (Inr None, fs', s') \<Longrightarrow> \<exists>qs. plan = PlanNative qs"
  using run_p2p_not_None by (cases plan) (fastforce simp: send_with_def Let_def split: if_splits)+

lemma cmd_send_p2p:
  assumes "parse_send args no_flags = Inr (fl, files)"
    and "files \<noteq> []" and "first_missing files fs = None"
    and "resolve_mode (fl_mode fl) (io_terminal io) (io_line io) = Inr ''p2p''"
  shows "cmd_send L io args fs s \<noteq> (Inr None, fs', s')"
proof
  assume r: "cmd_send L io args fs s = (Inr None, fs', s')"
  note unf = cmd_send_def assms
  have "\<nexists>ps. send_plan_of ''p2p'' files fs = PlanNative ps" by (simp add: send_plan_of_def Let_def)
  then obtain p n fs1 fs2 where "send_with L io fl ''p2p'' (send_plan_of ''p2p'' files fs) p n fs1 s = (Inr None, fs2, s')"
    using r by (cases "send_plan_of ''p2p'' files fs") (auto simp: unf split: prod.splits sum.splits)
  from send_with_p2p [OF this] \<open>\<nexists>ps. send_plan_of ''p2p'' files fs = PlanNative ps\<close> show False by simp
qed

lemma cmd_send_uploaded:
  assumes "parse_send args no_flags = Inr (fl, files)"
    and "cmd_send L io args fs s = (Inr None, fs', s')"
    and "\<forall>n \<in> set (sent_names files fs). n \<noteq> [] \<and> int (length n) \<le> MaxFilenameLen"
    and "\<forall>p \<in> set files. p \<noteq> io_temp io \<and> \<not> below p (io_temp io)"
  shows "uploaded L io (sent_phrase io fl) (sent_names files fs) (sent_contents io files fs) s s'"
proof -
  from assms(1,2) have ok: "files \<noteq> []" "first_missing files fs = None"
    by (auto simp: cmd_send_def split: if_splits option.splits)
  then obtain mode where m: "resolve_mode (fl_mode fl) (io_terminal io) (io_line io) = Inr mode"
    using assms(1,2) by (auto simp: cmd_send_def split: sum.splits)
  have mode: "mode = ''mailbox''"
  proof (rule disjE [OF resolve_mode_Inr [OF m]])
    assume "mode = ''p2p''"
    with m have "resolve_mode (fl_mode fl) (io_terminal io) (io_line io) = Inr ''p2p''" by simp
    from cmd_send_p2p [OF assms(1) ok this] assms(2) show ?thesis by contradiction
  qed
  note unf = cmd_send_def assms(1) ok m mode send_plan_mailbox [OF ok(1)]
  show ?thesis
  proof (cases "any_dir files fs")
    case True
    from assms(2) True obtain z fs1 fs2 where
      zp: "zip_paths (io_format io) (io_view io) (io_temp io) files fs = (Inr z, fs1)"
      and sw: "send_with L io fl ''mailbox'' PlanZip z (archive_name files) fs1 s = (Inr None, fs2, s')"
      by (auto simp: unf split: prod.splits sum.splits)
    have "archive_name files \<noteq> [] \<and> int (length (archive_name files)) \<le> MaxFilenameLen"
      using assms(3) True by (simp add: sent_names_def)
    with send_with_uploaded(2) [OF sw] zip_paths_ok [OF zp assms(4)] True show ?thesis
      by (auto simp: sent_names_def sent_contents_def)
  next
    case False
    show ?thesis
    proof (cases "length files > 1")
      case True
      with assms(2) False have "send_with L io fl ''mailbox'' (PlanNative files) [] [] fs s = (Inr None, fs', s')"
        by (simp add: unf)
      from send_with_uploaded(1) [OF this refl] False show ?thesis
        by (simp add: sent_names_def sent_contents_def)
    next
      case single: False
      then obtain p where p: "files = [p]"
        using ok(1) by (cases files rule: remdups_adj.cases) auto
      from assms(2) False single
      have "send_with L io fl ''mailbox'' (PlanSingle (hd files)) (hd files) (base_name (hd files)) fs s = (Inr None, fs', s')"
        by (simp add: unf)
      then have "send_with L io fl ''mailbox'' (PlanSingle p) p (base_name p) fs s = (Inr None, fs', s')"
        by (simp add: p)
      from send_with_uploaded(2) [OF this] assms(3) False p show ?thesis
        by (auto simp: sent_names_def sent_contents_def content_def)
    qed
  qed
qed

text \<open>\<open>cmdDownload\<close> when the mailbox holds the phrase: the flags play no part.\<close>

lemma cmd_download_mailbox:
  assumes "download_args (snd (parse_resume_flag (snd (parse_stay_open_flags dargs)))) fs = (d, typed)"
    and "download_phrase (lib_open L) uc fetch d typed fs net = (Finished (Inr u) saved, fs1, net1)"
  shows "cmd_download L uc fetch dirSize dialed ses dargs fs net = (Inr saved, fs1, net1)"
proof -
  obtain stay as re bs where "parse_stay_open_flags dargs = (stay, as)" "parse_resume_flag as = (re, bs)"
    by fastforce
  with assms show ?thesis by (simp add: cmd_download_def)
qed

section \<open>The property\<close>


text \<open>One file, without a terminal, fetched by \<open>drop download RED  fox\<close> into the working directory.\<close>

definition mailbox_io :: "int server send_io" where
  "mailbox_io = \<lparr>io_format = sample_zip, io_view = sample_view, io_temp = ''t/z'', io_phrase = ''RED FOX'',
     io_terminal = False, io_line = [], io_upper = id, io_post = sample_post, io_overhead = 200,
     io_nonce = Some (replicate 24 5), io_dialed = None, io_negotiation = sample_negotiation, io_rounds = [],
     io_sender = sample_sender sample_files\<rparr>"

definition idle_session :: session where
  "idle_session = \<lparr>ss_batch = \<lparr>bw_world = sample_world sample_files, bw_progress = []\<rparr>, ss_conn = [], ss_peer = None,
     ss_tail = None, ss_closed = 0, ss_negs = []\<rparr>"

lemma mailbox_io_send:
  "\<exists>s'. cmd_send (sample_libs mar unm) mailbox_io [''a''] sample_files empty_server = (Inr None, sample_files, s')"
proof -
  let ?phrase = "''RED FOX''"
  define key where "key = derive_key id ?phrase"
  have k: "length key = KeySize" by (simp add: key_def derive_key_def KeySize_def)
  define payload :: bytes where "payload = put32 (word_of_nat 1) @ bytes_of ''a'' @ [1, 2]"
  define c where "c = replicate 24 5 @ tag_seal payload (replicate 24 5) key"
  have enc: "encrypt tag_seal (Some (replicate 24 5)) payload key = Inr c"
    using k by (simp add: result_iff c_def)
  have "int (length c) + 200 \<le> 524288000"
    using k by (simp add: c_def payload_def tag_seal_def KeySize_def)
  from sample_upload [OF this, of id ?phrase] obtain tok s' where
    "upload_encrypted sample_post 200 c (derive_token id ?phrase) empty_server = (Inr tok, s')" by blast
  moreover have "os_read_file ''a'' sample_files = (Inr [1, 2], sample_files)"
    by (simp add: os_read_file_def next_fault_none sample_files_def)
  ultimately have "send_mailbox tag_seal (Some (replicate 24 5)) sample_post 200 ''a'' ''a'' (derive_token id ?phrase)
      key sample_files empty_server = (Inr tok, sample_files, s')"
    using enc by (simp add: send_mailbox_def payload_def)
  moreover have "send_plan_of ''mailbox'' [''a''] sample_files = PlanSingle ''a''"
    by (simp add: send_plan_of_def sample_files_def Let_def)
  moreover have "first_missing [''a''] sample_files = None" "base_name ''a'' = ''a''"
    by (simp_all add: fs_exists_def sample_files_def base_name_def)
  moreover have "parse_send [''a''] no_flags = Inr (no_flags, [''a''])"
    by (simp add: read_flag_positional)
  ultimately show ?thesis
    by (simp add: cmd_send_def resolve_mode_def send_with_def mailbox_result_def mailbox_io_def sample_libs_def
        key_def no_flags_def Let_def)
qed


end
