(* ===== verification/RoomsProps.thy ===== *)
theory RoomsProps
  imports Rooms
begin

text \<open>
  What holds in every state that the handlers, the cleanup and the shutdown of the relay can reach together:
  invariants of the rooms by rule induction, and schedules that show the races.
\<close>

section \<open>What the operations change\<close>

definition heap_token :: "rooms \<Rightarrow> nat \<Rightarrow> string option" where
  "heap_token m rid = map_option rm_token (fmlookup (mg_heap m) rid)"

text \<open>The parts of the manager's state that the invariants speak of.\<close>

lemma set_room_facts [simp]:
  "heap_token (set_room rid cs now m) r = heap_token m r"
  "clients (set_room rid cs now m) r = (if r = rid \<and> heap_token m rid \<noteq> None then cs else clients m r)"
  "mg_table (set_room rid cs now m) = mg_table m" "mg_next (set_room rid cs now m) = mg_next m"
  "mg_sent (set_room rid cs now m) = mg_sent m" "mg_closed (set_room rid cs now m) = mg_closed m"
  "find_room (set_room rid cs now m) t = find_room m t"
  "mg_kicked (set_room rid cs now m) = mg_kicked m"
  by (auto simp: set_room_def heap_token_def clients_def find_room_def split: option.split)

lemma clients_none: "heap_token m rid = None \<Longrightarrow> clients m rid = []"
  by (auto simp: heap_token_def clients_def split: option.split)

lemma close_conn_facts [simp]:
  "heap_token (close_conn c m) r = heap_token m r" "clients (close_conn c m) r = clients m r"
  "mg_sent (close_conn c m) = mg_sent m" "find_room (close_conn c m) t = find_room m t"
  "mg_next (close_conn c m) = mg_next m"
  by (simp_all add: close_conn_def heap_token_def clients_def find_room_def)

lemma delete_room_facts [simp]:
  "heap_token (delete_room t m) r = heap_token m r" "clients (delete_room t m) r = clients m r"
  "mg_sent (delete_room t m) = mg_sent m" "mg_next (delete_room t m) = mg_next m"
  "mg_closed (delete_room t m) = mg_closed m" "mg_kicked (delete_room t m) = mg_kicked m"
  by (simp_all add: delete_room_def heap_token_def clients_def)

lemma foldr_delete_facts [simp]:
  "heap_token (foldr delete_room ts m) r = heap_token m r" "clients (foldr delete_room ts m) r = clients m r"
  "mg_sent (foldr delete_room ts m) = mg_sent m" "mg_next (foldr delete_room ts m) = mg_next m"
  "mg_closed (foldr delete_room ts m) = mg_closed m"
  by (induction ts) simp_all

lemma log_facts [simp]:
  "heap_token (m\<lparr>mg_closed := x\<rparr>) r = heap_token m r" "clients (m\<lparr>mg_closed := x\<rparr>) r = clients m r"
  "find_room (m\<lparr>mg_closed := x\<rparr>) t = find_room m t"
  "heap_token (m\<lparr>mg_kicked := x\<rparr>) r = heap_token m r" "clients (m\<lparr>mg_kicked := x\<rparr>) r = clients m r"
  "find_room (m\<lparr>mg_kicked := x\<rparr>) t = find_room m t"
  "heap_token (m\<lparr>mg_sent := z\<rparr>) r = heap_token m r" "clients (m\<lparr>mg_sent := z\<rparr>) r = clients m r"
  "find_room (m\<lparr>mg_sent := z\<rparr>) t = find_room m t"
  by (simp_all add: heap_token_def clients_def find_room_def)

lemma cleanup_facts:
  "heap_token (cleanup_rooms now m) r = heap_token m r" "clients (cleanup_rooms now m) r = clients m r"
  "mg_sent (cleanup_rooms now m) = mg_sent m" "mg_next (cleanup_rooms now m) = mg_next m"
  "find_room (cleanup_rooms now m) t = (if idle now m t then None else find_room m t)"
proof -
  have "t \<in> set (room_tokens m) \<longleftrightarrow> find_room m t \<noteq> None"
    by (auto simp: room_tokens_def find_room_def sorted_list_of_fset.rep_eq fmlookup_dom_iff)
  then show "find_room (cleanup_rooms now m) t = (if idle now m t then None else find_room m t)"
    by (auto simp: cleanup_rooms_def Let_def room_table.look_del_all idle_def split: option.splits)
qed (simp_all add: cleanup_rooms_def Let_def)

lemma shutdown_facts:
  "heap_token (shutdown_rooms m) r = heap_token m r" "clients (shutdown_rooms m) r = clients m r"
  "mg_sent (shutdown_rooms m) = mg_sent m" "mg_next (shutdown_rooms m) = mg_next m"
  "find_room (shutdown_rooms m) t = find_room m t"
  by (simp_all add: shutdown_rooms_def)

lemma broadcast_facts:
  "heap_token (broadcast rid c msg fails now m) r = heap_token m r"
  "clients (broadcast rid c msg fails now m) r = clients m r"
  "find_room (broadcast rid c msg fails now m) t = find_room m t"
  "mg_next (broadcast rid c msg fails now m) = mg_next m"
  "mg_sent (broadcast rid c msg fails now m) =
     mg_sent m @ map (\<lambda>d. (c, d, msg)) (filter (\<lambda>d. d \<noteq> c \<and> \<not> fails d) (clients m rid))"
  by (simp_all add: broadcast_def Let_def conj_commute)

text \<open>A room after one of its clients left: empty if there were two.\<close>

lemma remove_client_facts:
  "heap_token (remove_client rid c m) r = heap_token m r"
  "find_room (remove_client rid c m) t = find_room m t" "mg_next (remove_client rid c m) = mg_next m"
  "mg_sent (remove_client rid c m) = mg_sent m"
  "clients (remove_client rid c m) r =
     (if r = rid \<and> c \<in> set (clients m rid)
      then if length (clients m rid) = 2 then [] else remove1 c (clients m rid) else clients m r)"
proof -
  have l: "c \<in> set (clients m rid) \<Longrightarrow> length (clients m rid) = 2 \<Longrightarrow> length (remove1 c (clients m rid)) = 1"
    by (simp add: length_remove1)
  have n: "c \<in> set (clients m rid) \<Longrightarrow> heap_token m rid \<noteq> None"
    using clients_none by fastforce
  show "clients (remove_client rid c m) r =
     (if r = rid \<and> c \<in> set (clients m rid)
      then if length (clients m rid) = 2 then [] else remove1 c (clients m rid) else clients m r)"
    using l n by (auto simp: remove_client_def Let_def)
qed (auto simp: remove_client_def Let_def find_room_def)

lemma get_or_create_facts:
  assumes "get_or_create_room t now m = (rid, m')" and "heap_token m (mg_next m) = None"
  shows "heap_token m' rid = (if find_room m t = None then Some t else heap_token m rid)"
    and "r \<noteq> rid \<or> find_room m t \<noteq> None \<Longrightarrow> heap_token m' r = heap_token m r"
    and "clients m' r = clients m r" and "mg_sent m' = mg_sent m"
    and "find_room m' u = (if u = t then Some rid else find_room m u)"
    and "mg_next m' = (if find_room m t = None then Suc (mg_next m) else mg_next m)"
    and "find_room m t = None \<Longrightarrow> rid = mg_next m"
  using assms by (auto simp: get_or_create_room_def heap_token_def clients_def find_room_def put_room_def
      Let_def split: option.splits if_splits)

lemma goto_facts [simp]:
  "rl_rooms (goto c p s) = rl_rooms s"
  "fmlookup (rl_handlers (goto c p s)) d =
     (if d = c then map_option (\<lambda>h. h\<lparr>hd_pc := p\<rparr>) (fmlookup (rl_handlers s) c) else fmlookup (rl_handlers s) d)"
  by (auto simp: goto_def split: option.split)

lemma with_rooms_facts [simp]:
  "rl_rooms (with_rooms f s) = f (rl_rooms s)" "rl_handlers (with_rooms f s) = rl_handlers s"
  by (simp_all add: with_rooms_def)

section \<open>Invariants\<close>

fun pc_room :: "pc \<Rightarrow> nat option" where
  "pc_room (AtAdd r) = Some r" | "pc_room (InLoop r) = Some r" | "pc_room (AtCheck r) = Some r"
| "pc_room (AtDelete r) = Some r" | "pc_room (AtRemove r) = Some r"
| "pc_room AtLookup = None" | "pc_room Returned = None"

text \<open>The clients of a room have their handlers past \<open>AddClient\<close>, pointing to that room.\<close>

definition in_room :: "relay \<Rightarrow> nat \<Rightarrow> nat \<Rightarrow> bool" where
  "in_room s c rid \<longleftrightarrow>
     (\<exists>h. fmlookup (rl_handlers s) c = Some h \<and> hd_pc h \<noteq> AtAdd rid \<and> pc_room (hd_pc h) = Some rid)"

text \<open>A connection is in at most the room its handler points to, from \<open>AddClient\<close> to
  \<open>RemoveClient\<close>; rooms hold at most two, all different.\<close>

definition inv_clients :: "relay \<Rightarrow> bool" where
  "inv_clients s \<longleftrightarrow>
     (\<forall>rid. length (clients (rl_rooms s) rid) \<le> 2 \<and> distinct (clients (rl_rooms s) rid)) \<and>
     (\<forall>rid c. c \<in> set (clients (rl_rooms s) rid) \<longrightarrow> in_room s c rid)"

text \<open>Tokens: rooms in the table and rooms that handlers point to carry the right one.\<close>

definition inv_tokens :: "relay \<Rightarrow> bool" where
  "inv_tokens s \<longleftrightarrow>
     (\<forall>c h rid. fmlookup (rl_handlers s) c = Some h \<and> pc_room (hd_pc h) = Some rid \<longrightarrow>
        heap_token (rl_rooms s) rid = Some (hd_token h)) \<and>
     (\<forall>t rid. find_room (rl_rooms s) t = Some rid \<longrightarrow> heap_token (rl_rooms s) rid = Some t) \<and>
     (\<forall>rid. heap_token (rl_rooms s) rid \<noteq> None \<longrightarrow> rid < mg_next (rl_rooms s))"

text \<open>Isolation: a frame went from one connection to another one of the same token.\<close>

definition inv_sent :: "relay \<Rightarrow> bool" where
  "inv_sent s \<longleftrightarrow>
     (\<forall>(a, b, msg) \<in> set (mg_sent (rl_rooms s)). a \<noteq> b \<and>
        (\<exists>ha hb. fmlookup (rl_handlers s) a = Some ha \<and> fmlookup (rl_handlers s) b = Some hb \<and>
           hd_token ha = hd_token hb))"

lemma inv_tokens_next: "inv_tokens s \<Longrightarrow> heap_token (rl_rooms s) (mg_next (rl_rooms s)) = None"
  unfolding inv_tokens_def by (metis less_irrefl)

lemma inv_tokens_pc:
  "inv_tokens s \<Longrightarrow> at_pc s c t p \<Longrightarrow> pc_room p = Some rid \<Longrightarrow> heap_token (rl_rooms s) rid = Some t"
  by (force simp: inv_tokens_def at_pc_def)

lemma step_inv_tokens: "relay_step s s' \<Longrightarrow> inv_tokens s \<Longrightarrow> inv_tokens s'"
proof (induction rule: relay_step.induct)
  case (lookup s c token now rid m)
  note g = get_or_create_facts [OF lookup(2) inv_tokens_next [OF lookup(3)]]
  have "heap_token m rid = Some token"
    using g(1) lookup(2,3) by (cases "find_room (rl_rooms s) token")
      (auto simp: inv_tokens_def get_or_create_room_def)
  moreover have "heap_token m r = Some x" if "heap_token (rl_rooms s) r = Some x" for r x
    using that g(2) [of r] g(7) inv_tokens_next [OF lookup(3)]
    by (cases "r = rid"; cases "find_room (rl_rooms s) token") auto
  moreover have "r < mg_next m" if "heap_token m r \<noteq> None" for r
  proof -
    have old: "r < mg_next (rl_rooms s)" if "heap_token (rl_rooms s) r \<noteq> None"
      using that lookup(3) by (auto simp: inv_tokens_def)
    show ?thesis
      using that old g(2) [of r] g(6,7)
      by (cases "find_room (rl_rooms s) token"; cases "r = rid") (auto simp: less_Suc_eq)
  qed
  ultimately show ?case
    using lookup(1,3) unfolding inv_tokens_def by (auto simp: at_pc_def g(5) split: if_splits)
next
  case (joined s c token rid now m)
  with inv_tokens_pc [OF joined(3,1)] show ?case
    by (auto simp: inv_tokens_def at_pc_def add_client_def split: if_splits)
next
  case (refused s c token rid now m)
  then show ?case
    by (auto simp: inv_tokens_def at_pc_def add_client_def split: if_splits)
next
  case (delete s c token rid)
  with inv_tokens_pc [OF delete(2,1)] show ?case
    by (auto simp: inv_tokens_def at_pc_def room_table.look_del split: if_splits)
next
  case (read_error s c token rid)
  with inv_tokens_pc [OF read_error(2,1)] show ?case
    by (auto simp: inv_tokens_def at_pc_def split: if_splits)
next
  case (check s c token rid)
  with inv_tokens_pc [OF check(2,1)] show ?case
    by (auto simp: inv_tokens_def at_pc_def split: if_splits)
qed (auto simp: inv_tokens_def at_pc_def broadcast_facts remove_client_facts cleanup_facts shutdown_facts
    split: if_splits)

lemma add_client_facts:
  assumes "add_client rid c now m = (ok, m')"
  shows "ok \<longleftrightarrow> length (clients m rid) < 2" and "heap_token m' r = heap_token m r"
    and "find_room m' t = find_room m t" and "mg_next m' = mg_next m" and "mg_sent m' = mg_sent m"
    and "clients m' r = (if ok \<and> r = rid \<and> heap_token m rid \<noteq> None then clients m rid @ [c] else clients m r)"
  using assms by (auto simp: add_client_def split: if_splits)

lemma step_in_room:
  "relay_step s s' \<Longrightarrow> in_room s c rid \<Longrightarrow>
     in_room s' c rid \<or>
     (\<exists>token. at_pc s c token (AtRemove rid) \<and>
        s' = goto c Returned (with_rooms (\<lambda>m. close_conn c (remove_client rid c m)) s))"
  by (induction rule: relay_step.induct) (auto simp: in_room_def at_pc_def)

text \<open>A step leaves a room's clients alone, or one joins at the end, or one leaves.\<close>

lemma step_clients:
  "relay_step s s' \<Longrightarrow> inv_tokens s \<Longrightarrow>
     clients (rl_rooms s') rid = clients (rl_rooms s) rid \<or>
     (\<exists>c token. at_pc s c token (AtAdd rid) \<and> in_room s' c rid \<and> length (clients (rl_rooms s) rid) < 2 \<and>
        clients (rl_rooms s') rid = clients (rl_rooms s) rid @ [c]) \<or>
     (\<exists>c. clients (rl_rooms s') rid = remove1 c (clients (rl_rooms s) rid)) \<or> clients (rl_rooms s') rid = []"
proof (induction rule: relay_step.induct)
  case (lookup s c token now r m)
  then show ?case
    using get_or_create_facts(3) [OF lookup(2) inv_tokens_next [OF lookup(3)]] by simp
next
  case (joined s c token r now m)
  have "in_room (goto c (InLoop r) (s\<lparr>rl_rooms := m\<rparr>)) c r"
    using joined(1) by (simp add: in_room_def at_pc_def)
  then show ?case
    using joined(1) add_client_facts(1,6) [OF joined(2)] by auto
next
  case (refused s c token r now m)
  then show ?case
    using add_client_facts(6) [OF refused(2)] by simp
qed (simp_all add: broadcast_facts remove_client_facts cleanup_facts shutdown_facts, blast)

lemma client_stays:
  assumes "relay_step s s'" and "inv_clients s" and "c \<in> set (clients (rl_rooms s) rid)"
    and "c \<in> set (clients (rl_rooms s') rid)"
  shows "in_room s' c rid"
proof -
  have c: "in_room s c rid" and d: "distinct (clients (rl_rooms s) rid)"
    using assms(2,3) by (auto simp: inv_clients_def)
  show ?thesis
    using step_in_room [OF assms(1) c] d assms(3,4) by (auto simp: remove_client_facts split: if_splits)
qed

lemma step_inv_clients:
  assumes "relay_step s s'" and "inv_tokens s" and "inv_clients s"
  shows "inv_clients s'"
proof -
  have old: "length (clients (rl_rooms s) rid) \<le> 2" "distinct (clients (rl_rooms s) rid)"
      "c \<in> set (clients (rl_rooms s) rid) \<Longrightarrow> in_room s c rid" for rid c
    using assms(3) by (auto simp: inv_clients_def)
  have "length (clients (rl_rooms s') rid) \<le> 2 \<and> distinct (clients (rl_rooms s') rid) \<and>
      (\<forall>c \<in> set (clients (rl_rooms s') rid). in_room s' c rid)" for rid
    using step_clients [OF assms(1,2), of rid]
  proof (elim disjE exE conjE)
    fix c token
    assume c: "at_pc s c token (AtAdd rid)" and r: "in_room s' c rid"
      and e: "clients (rl_rooms s') rid = clients (rl_rooms s) rid @ [c]" "length (clients (rl_rooms s) rid) < 2"
    have "c \<notin> set (clients (rl_rooms s) rid)"
      using old(3) [of c rid] c by (auto simp: in_room_def at_pc_def)
    then show ?thesis
      using e r old(2) client_stays [OF assms(1,3), of _ rid] by auto
  next
    fix c
    assume "clients (rl_rooms s') rid = remove1 c (clients (rl_rooms s) rid)"
    then show ?thesis
      using old(1,2) [of rid] client_stays [OF assms(1,3), of _ rid]
      by (auto simp: length_remove1 dest: notin_set_remove1)
  qed (use old(1,2) client_stays [OF assms(1,3), of _ rid] in auto)
  then show ?thesis
    by (auto simp: inv_clients_def)
qed

lemma step_keeps_handlers:
  "relay_step s s' \<Longrightarrow> fmlookup (rl_handlers s) c = Some h \<Longrightarrow>
     \<exists>h'. fmlookup (rl_handlers s') c = Some h' \<and> hd_token h' = hd_token h"
  by (induction rule: relay_step.induct) (auto simp: fmdomI)

lemma same_token_clients:
  assumes "inv_tokens s" and "inv_clients s" and "at_pc s c token (InLoop rid)"
    and "d \<in> set (clients (rl_rooms s) rid)"
  shows "\<exists>h. fmlookup (rl_handlers s) d = Some h \<and> hd_token h = token"
proof -
  obtain h where h: "fmlookup (rl_handlers s) d = Some h" "pc_room (hd_pc h) = Some rid"
    using assms(2,4) unfolding inv_clients_def in_room_def by metis
  then have "heap_token (rl_rooms s) rid = Some (hd_token h)"
    using assms(1) by (auto simp: inv_tokens_def)
  with inv_tokens_pc [OF assms(1,3)] h show ?thesis by simp
qed

lemma step_sent:
  "relay_step s s' \<Longrightarrow> inv_tokens s \<Longrightarrow> p \<in> set (mg_sent (rl_rooms s')) \<Longrightarrow>
     p \<in> set (mg_sent (rl_rooms s)) \<or>
     (\<exists>c token rid d msg. p = (c, d, msg) \<and> at_pc s c token (InLoop rid) \<and> c \<noteq> d \<and>
        d \<in> set (clients (rl_rooms s) rid))"
proof (induction rule: relay_step.induct)
  case (lookup s c token now r m)
  then show ?case
    using get_or_create_facts(4) [OF lookup(2) inv_tokens_next [OF lookup(3)]] by simp
next
  case (joined s c token r now m)
  then show ?case using add_client_facts(5) [OF joined(2)] by simp
next
  case (refused s c token r now m)
  then show ?case using add_client_facts(5) [OF refused(2)] by simp
qed (auto simp: broadcast_facts remove_client_facts cleanup_facts shutdown_facts)

lemma step_inv_sent:
  assumes "relay_step s s'" and "inv_tokens s" and "inv_clients s" and "inv_sent s"
  shows "inv_sent s'"
proof -
  have "a \<noteq> b \<and> (\<exists>ha hb. fmlookup (rl_handlers s) a = Some ha \<and> fmlookup (rl_handlers s) b = Some hb \<and>
      hd_token ha = hd_token hb)" if "(a, b, msg) \<in> set (mg_sent (rl_rooms s'))" for a b msg
    using step_sent [OF assms(1,2) that]
  proof (elim disjE exE conjE)
    assume "(a, b, msg) \<in> set (mg_sent (rl_rooms s))"
    then show ?thesis using assms(4) by (auto simp: inv_sent_def)
  next
    fix c token rid d m
    assume "(a, b, msg) = (c, d, m)" and c: "at_pc s c token (InLoop rid)" and "c \<noteq> d"
      and d: "d \<in> set (clients (rl_rooms s) rid)"
    then show ?thesis
      using same_token_clients [OF assms(2,3) c d] by (auto simp: at_pc_def)
  qed
  then have "a \<noteq> b \<and> (\<exists>ha hb. fmlookup (rl_handlers s') a = Some ha \<and> fmlookup (rl_handlers s') b = Some hb \<and>
      hd_token ha = hd_token hb)" if "(a, b, msg) \<in> set (mg_sent (rl_rooms s'))" for a b msg
    using that step_keeps_handlers [OF assms(1)] by metis
  then show ?thesis
    unfolding inv_sent_def by blast
qed

lemma reachable_inv: "reachable s \<Longrightarrow> inv_tokens s \<and> inv_clients s \<and> inv_sent s"
  unfolding reachable_def
proof (induction rule: rtranclp_induct)
  case base
  show ?case
    by (simp add: relay_init_def empty_rooms_def inv_tokens_def inv_clients_def inv_sent_def clients_def
        heap_token_def find_room_def)
next
  case (step s s')
  then show ?case
    using step_inv_tokens step_inv_clients step_inv_sent by blast
qed

lemmas reachable_tokens = reachable_inv [THEN conjunct1]
lemmas reachable_clients = reachable_inv [THEN conjunct2, THEN conjunct1]
lemmas reachable_sent = reachable_inv [THEN conjunct2, THEN conjunct2]

section \<open>Schedules\<close>

lemma advance_sound:
  assumes "fmlookup (rl_handlers s) c = Some h" and "advance c h now s = Some s'"
  shows "relay_step s s'"
proof (cases "hd_pc h")
  case AtLookup
  with assms show ?thesis
    by (cases h) (auto simp: advance_def at_pc_def split: prod.splits intro!: relay_step.lookup)
next
  case (AtAdd rid)
  with assms show ?thesis
    by (cases h) (auto simp: advance_def at_pc_def split: prod.splits bool.splits
        intro!: relay_step.joined relay_step.refused)
next
  case (InLoop rid)
  with assms show ?thesis
    by (cases h) (auto simp: advance_def at_pc_def intro!: relay_step.read_error)
next
  case (AtCheck rid)
  with assms relay_step.check [of s c "hd_token h" rid] show ?thesis
    by (cases h) (simp add: advance_def at_pc_def)
next
  case (AtDelete rid)
  with assms relay_step.delete [of s c "hd_token h" rid] show ?thesis
    by (cases h) (simp add: advance_def at_pc_def)
next
  case (AtRemove rid)
  with assms relay_step.remove [of s c "hd_token h" rid] show ?thesis
    by (cases h) (simp add: advance_def at_pc_def)
next
  case Returned
  with assms show ?thesis
    by (simp add: advance_def)
qed

lemma act_sound: "act a s = Some s' \<Longrightarrow> relay_step s s'"
proof (cases a)
  case (Frame c msg failing now)
  assume "act a s = Some s'"
  with Frame obtain h rid where "fmlookup (rl_handlers s) c = Some h" "hd_pc h = InLoop rid"
    and "s' = with_rooms (broadcast rid c msg (\<lambda>d. d \<in> set failing) now) s"
    by (auto split: option.splits pc.splits)
  then show ?thesis
    by (cases h) (auto simp: at_pc_def intro!: relay_step.message)
next
  case (Upgrade c token)
  assume "act a s = Some s'"
  with Upgrade show ?thesis
    by (auto split: if_splits intro!: relay_step.upgrade fmdom_notI)
next
  case (Advance c now)
  assume "act a s = Some s'"
  with Advance show ?thesis
    by (auto split: option.splits dest: advance_sound)
qed (auto intro: relay_step.tick relay_step.stop)

lemma run_acts_reachable: "run_acts as s = Some s' \<Longrightarrow> reachable s \<Longrightarrow> reachable s'"
proof (induction as arbitrary: s)
  case (Cons a as)
  then show ?case
    unfolding reachable_def
    by (auto split: option.splits dest: act_sound intro: rtranclp.rtrancl_into_rtrancl)
qed simp

lemma reachable_init [simp]: "reachable relay_init"
  by (simp add: reachable_def)

lemmas run_simps =
  relay_init_def empty_rooms_def advance_def goto_def with_rooms_def get_or_create_room_def add_client_def
  remove_client_def broadcast_def close_conn_def set_room_def put_room_def find_room_def delete_room_def
  clients_def activity_def Let_def

text \<open>Two clients of one token meet in a room, and one sends a frame.\<close>

definition pairing :: "action list" where
  "pairing =
     [Upgrade 1 ''t'', Advance 1 0, Advance 1 0, Upgrade 2 ''t'', Advance 2 5, Advance 2 5, Frame 1 [7] [] 9]"

definition paired :: relay where
  "paired = the (run_acts pairing relay_init)"

lemma paired_run: "run_acts pairing relay_init = Some paired"
  unfolding paired_def pairing_def by (simp add: run_simps)

lemma paired_state:
  "rl_rooms paired =
     \<lparr>mg_table = fmupd ''t'' 0 fmempty,
      mg_heap = fmupd 0 \<lparr>rm_token = ''t'', rm_clients = [1, 2], rm_activity = 9\<rparr> fmempty, mg_next = 1,
      mg_sent = [(1, 2, [7])], mg_kicked = [], mg_closed = []\<rparr>"
  unfolding paired_def pairing_def by (simp add: run_simps)

lemma paired_reachable [simp]: "reachable paired"
  using run_acts_reachable [OF paired_run] by simp

lemma paired_clients [simp]: "clients (rl_rooms paired) 0 = [1, 2]"
  by (simp add: paired_state clients_def)

section \<open>Properties\<close>

text \<open>
  C7: Whatever the schedule, a room never holds more than two connections, never the same one
  twice, and no connection is in two rooms; a room reached through the table belongs to the
  token that was asked for.
\<close>

theorem rooms_hold_two:
  assumes "reachable s"
  shows "length (clients (rl_rooms s) rid) \<le> 2 \<and> distinct (clients (rl_rooms s) rid) \<and>
     (c \<in> set (clients (rl_rooms s) rid) \<and> c \<in> set (clients (rl_rooms s) rid') \<longrightarrow> rid = rid') \<and>
     (find_room (rl_rooms s) t = Some r \<longrightarrow> heap_token (rl_rooms s) r = Some t)"
proof -
  have "rid = rid'" if "c \<in> set (clients (rl_rooms s) rid)" "c \<in> set (clients (rl_rooms s) rid')"
    using that reachable_clients [OF assms] unfolding inv_clients_def in_room_def
    by (metis option.inject)
  then show ?thesis
    using reachable_clients [OF assms] reachable_tokens [OF assms]
    by (auto simp: inv_clients_def inv_tokens_def)
qed

theorem rooms_hold_two_witness:
  "length (clients (rl_rooms paired) 0) \<le> 2 \<and> distinct (clients (rl_rooms paired) 0) \<and>
     heap_token (rl_rooms paired) 0 = Some ''t''"
  using rooms_hold_two [where s = paired and rid = 0 and c = 1 and rid' = 0 and t = "''t''" and r = 0]
  by (simp add: paired_state find_room_def)

text \<open>
  C8: Isolation: in every reachable state each frame that was relayed went from a connection to
  a different connection of the same token, whatever joined, left, was cleaned up or raced
  in between.
\<close>

theorem frames_stay_in_token:
  assumes "reachable s" and "(a, b, msg) \<in> set (mg_sent (rl_rooms s))"
  shows "a \<noteq> b \<and> (\<exists>ha hb. fmlookup (rl_handlers s) a = Some ha \<and>
     fmlookup (rl_handlers s) b = Some hb \<and> hd_token ha = hd_token hb)"
  using reachable_sent [OF assms(1)] assms(2) by (auto simp: inv_sent_def)

theorem frames_stay_in_token_witness:
  "(1::nat) \<noteq> 2 \<and> (\<exists>ha hb. fmlookup (rl_handlers paired) 1 = Some ha \<and>
     fmlookup (rl_handlers paired) 2 = Some hb \<and> hd_token ha = hd_token hb)"
  using frames_stay_in_token [where s = paired and a = 1 and b = 2 and msg = "[7]"]
  by (simp add: paired_state)

text \<open>
  A frame from a client of a room goes to its peer and to nobody else, once, or closes the
  peer when the write fails; when one of two clients leaves, the other is told and closed and
  the room is empty; a client that is alone just leaves.
\<close>

lemma relay_between_peers:
  assumes "reachable s" and "m = rl_rooms s" and "clients m rid = [a, b] \<or> clients m rid = [b, a]"
  shows "mg_sent (broadcast rid a msg fails now m) = mg_sent m @ (if fails b then [] else [(a, b, msg)]) \<and>
     mg_closed (broadcast rid a msg fails now m) = mg_closed m @ (if fails b then [b] else []) \<and>
     clients (remove_client rid a m) rid = [] \<and> mg_kicked (remove_client rid a m) = mg_kicked m @ [b] \<and>
     mg_closed (remove_client rid a m) = mg_closed m @ [b] \<and>
     remove_client rid b (remove_client rid a m) = remove_client rid a m"
proof -
  have ab: "a \<noteq> b"
    using reachable_clients [OF assms(1)] assms(2,3) unfolding inv_clients_def
    by (metis distinct_length_2_or_more)
  have e: "clients (remove_client rid a m) rid = []"
    using assms(3) by (auto simp: remove_client_facts)
  have "mg_sent (broadcast rid a msg fails now m) = mg_sent m @ (if fails b then [] else [(a, b, msg)])"
    using ab assms(3) by (auto simp: broadcast_facts)
  moreover have "mg_closed (broadcast rid a msg fails now m) = mg_closed m @ (if fails b then [b] else [])"
    using ab assms(3) by (auto simp: broadcast_def)
  moreover have "mg_kicked (remove_client rid a m) = mg_kicked m @ [b]"
      "mg_closed (remove_client rid a m) = mg_closed m @ [b]"
    using ab assms(3) by (auto simp: remove_client_def Let_def)
  moreover have "remove_client rid b (remove_client rid a m) = remove_client rid a m"
    using e by (simp add: remove_client_def [of rid b])
  ultimately show ?thesis
    using e by blast
qed

text \<open>
  A tick of the cleanup forgets exactly the rooms idle for more than ten minutes, closes
  exactly their clients, and leaves every other token's room with its clients.
\<close>

theorem cleanup_rooms_exact:
  "find_room (cleanup_rooms now m) t = (if idle now m t then None else find_room m t) \<and>
   set (mg_closed (cleanup_rooms now m)) =
     set (mg_closed m) \<union> {c. \<exists>u rid. find_room m u = Some rid \<and> idle now m u \<and> c \<in> set (clients m rid)} \<and>
   clients (cleanup_rooms now m) rid = clients m rid"
proof -
  have "mg_closed (cleanup_rooms now m) = mg_closed m @ room_clients m (filter (idle now m) (room_tokens m))"
    by (simp add: cleanup_rooms_def Let_def)
  moreover have "u \<in> set (room_tokens m) \<longleftrightarrow> find_room m u \<noteq> None" for u
    by (auto simp: room_tokens_def find_room_def sorted_list_of_fset.rep_eq fmlookup_dom_iff)
  ultimately have "set (mg_closed (cleanup_rooms now m)) =
     set (mg_closed m) \<union> {c. \<exists>u rid. find_room m u = Some rid \<and> idle now m u \<and> c \<in> set (clients m rid)}"
    by (fastforce simp: room_clients_def split: option.splits)
  then show ?thesis
    by (simp add: cleanup_facts)
qed

text \<open>
  C24: Three schedules the handler allows.  A client that waited alone and left leaves its room in
  the table, empty: the emptiness test runs before the deferred \<open>RemoveClient\<close>.  And a room
  that was deleted between another handler's lookup and its \<open>AddClient\<close> keeps that client,
  while the next client of the same token gets a new room: the two never meet.  And the handler of a
  client that was closed because its peer left still relays a frame that it had read before, to
  both clients that have joined the room since.
\<close>

theorem room_races:
  "(\<exists>s. reachable s \<and> fmdom (rl_handlers s) = {|1|} \<and> at_pc s 1 ''t'' Returned \<and>
      find_room (rl_rooms s) ''t'' = Some 0 \<and> clients (rl_rooms s) 0 = []) \<and>
   (\<exists>s. reachable s \<and> at_pc s 3 ''t'' (InLoop 0) \<and> clients (rl_rooms s) 0 = [3] \<and>
      at_pc s 4 ''t'' (InLoop 1) \<and> clients (rl_rooms s) 1 = [4] \<and> find_room (rl_rooms s) ''t'' = Some 1) \<and>
   (\<exists>s s'. reachable s \<and> clients (rl_rooms s) 0 = [3, 4] \<and> mg_kicked (rl_rooms s) = [1] \<and>
      act (Frame 1 [9] [] 0) s = Some s' \<and> mg_sent (rl_rooms s') = [(1, 3, [9]), (1, 4, [9])])"
  (is "(\<exists>s. ?P s) \<and> (\<exists>s. ?Q s) \<and> (\<exists>s s'. ?R s s')")
proof (intro conjI)
  obtain s where s: "run_acts (Upgrade 1 ''t'' # replicate 5 (Advance 1 0)) relay_init = Some s"
    by (simp add: run_simps eval_nat_numeral)
  then have "reachable s" by (rule run_acts_reachable) simp
  moreover have "fmdom (rl_handlers s) = {|1|}" "at_pc s 1 ''t'' Returned" "find_room (rl_rooms s) ''t'' = Some 0"
      "clients (rl_rooms s) 0 = []"
    using s by (auto simp: run_simps eval_nat_numeral at_pc_def)
  ultimately show "\<exists>s. ?P s" by blast
next
  obtain s where s: "run_acts
      ([Upgrade 1 ''t'', Advance 1 0, Advance 1 0, Upgrade 2 ''t'', Advance 2 0, Advance 2 0,
        Advance 2 0, Advance 2 0, Advance 2 0, Advance 1 0, Upgrade 3 ''t'', Advance 3 0, Advance 1 0, Advance 1 0,
        Advance 3 0, Upgrade 4 ''t'', Advance 4 0, Advance 4 0]) relay_init = Some s"
    by (simp add: run_simps)
  then have "reachable s" by (rule run_acts_reachable) simp
  moreover have "at_pc s 3 ''t'' (InLoop 0)" "clients (rl_rooms s) 0 = [3]" "at_pc s 4 ''t'' (InLoop 1)"
      "clients (rl_rooms s) 1 = [4]" "find_room (rl_rooms s) ''t'' = Some 1"
    using s by (auto simp: run_simps at_pc_def)
  ultimately show "\<exists>s. ?Q s" by blast
next
  obtain s where s: "run_acts
      ([Upgrade 1 ''t'', Advance 1 0, Advance 1 0, Upgrade 2 ''t'', Advance 2 0, Advance 2 0,
        Advance 2 0, Advance 2 0, Advance 2 0, Upgrade 3 ''t'', Advance 3 0, Advance 3 0,
        Upgrade 4 ''t'', Advance 4 0, Advance 4 0]) relay_init = Some s"
    by (simp add: run_simps)
  then have "reachable s" by (rule run_acts_reachable) simp
  moreover have "clients (rl_rooms s) 0 = [3, 4]" "mg_kicked (rl_rooms s) = [1]"
      "\<exists>s'. act (Frame 1 [9] [] 0) s = Some s' \<and> mg_sent (rl_rooms s') = [(1, 3, [9]), (1, 4, [9])]"
    using s by (auto simp: run_simps)
  ultimately show "\<exists>s s'. ?R s s'" by blast
qed

end
