(* ===== verification/RoomsChannel.thy ===== *)
theory RoomsChannel
  imports RoomsProps
begin

text \<open>
  A room with its two clients is a pair of channels: what one sends the other receives, all of it and in
  order, whatever the rest of the relay does meanwhile.
\<close>

section \<open>What clients send and receive\<close>

fun frame_of :: "nat \<Rightarrow> action \<Rightarrow> bytes list" where
  "frame_of c (Frame d msg failing now) = (if d = c then [msg] else [])"
| "frame_of c _ = []"

definition sent_by :: "nat \<Rightarrow> action list \<Rightarrow> bytes list" where
  "sent_by c as = concat (map (frame_of c) as)"

definition received_by :: "nat \<Rightarrow> relay \<Rightarrow> bytes list" where
  "received_by c s = map (\<lambda>(a, b, msg). msg) (filter (\<lambda>(a, b, msg). b = c) (mg_sent (rl_rooms s)))"

text \<open>
  The room \<open>rid\<close> belongs to \<open>a\<close> and \<open>b\<close>, and no handler of an earlier client is still in its loop.
\<close>

definition paired_in :: "nat \<Rightarrow> nat \<Rightarrow> nat \<Rightarrow> relay \<Rightarrow> bool" where
  "paired_in rid a b s \<longleftrightarrow>
     a \<noteq> b \<and> set (clients (rl_rooms s) rid) = {a, b} \<and>
     fmpred (\<lambda>c h. hd_pc h = InLoop rid \<longrightarrow> c = a \<or> c = b) (rl_handlers s)"

text \<open>Neither \<open>a\<close> nor \<open>b\<close> goes on to another step, and no write to them fails.\<close>

fun undisturbed :: "nat \<Rightarrow> nat \<Rightarrow> action \<Rightarrow> bool" where
  "undisturbed a b (Advance c now) \<longleftrightarrow> c \<noteq> a \<and> c \<noteq> b"
| "undisturbed a b (Frame c msg failing now) \<longleftrightarrow> a \<notin> set failing \<and> b \<notin> set failing"
| "undisturbed a b _ \<longleftrightarrow> True"

section \<open>One action\<close>

lemma paired_length: "paired_in rid a b s \<Longrightarrow> \<not> length (clients (rl_rooms s) rid) < 2"
proof
  assume p: "paired_in rid a b s" and l: "length (clients (rl_rooms s) rid) < 2"
  from p have "card (set (clients (rl_rooms s) rid)) = 2" by (simp add: paired_in_def)
  with l card_length [of "clients (rl_rooms s) rid"] show False by simp
qed

lemma paired_sym: "paired_in rid a b s \<Longrightarrow> paired_in rid b a s"
  by (auto simp: paired_in_def fmpred_iff)

lemma paired_other_room:
  assumes "inv_clients s" and "paired_in rid a b s" and "r \<noteq> rid"
  shows "a \<notin> set (clients (rl_rooms s) r)" and "b \<notin> set (clients (rl_rooms s) r)"
  using assms unfolding inv_clients_def in_room_def paired_in_def by (metis insert_iff option.inject)+

lemma filter_single: "distinct xs \<Longrightarrow> x \<in> set xs \<Longrightarrow> filter (\<lambda>y. y = x) xs = [x]"
  by (induction xs) (auto simp: filter_empty_conv)

lemma received_broadcast:
  "received_by b (with_rooms (broadcast rid c msg fails now) s) =
     received_by b s @ map (\<lambda>_. msg) (filter (\<lambda>d. d = b \<and> d \<noteq> c \<and> \<not> fails d) (clients (rl_rooms s) rid))"
  by (simp add: received_by_def broadcast_facts filter_map comp_def split_def conj_commute conj_left_commute)

lemma act_frame:
  assumes "inv_clients s" and p: "paired_in rid a b s" and u: "undisturbed a b (Frame c msg failing now)"
    and run: "act (Frame c msg failing now) s = Some s'"
  shows "paired_in rid a b s' \<and> received_by b s' = received_by b s @ frame_of a (Frame c msg failing now)"
proof -
  from run obtain h r where h: "fmlookup (rl_handlers s) c = Some h" "hd_pc h = InLoop r"
    and s': "s' = with_rooms (broadcast r c msg (\<lambda>d. d \<in> set failing) now) s"
    by (auto split: option.splits pc.splits)
  have paired: "paired_in rid a b s'" using p by (simp add: paired_in_def s' broadcast_facts)
  have d: "distinct (clients (rl_rooms s) r)" using assms(1) by (simp add: inv_clients_def)
  show ?thesis
  proof (cases "r = rid")
    case True
    with h p have "c = a \<or> c = b" by (auto simp: paired_in_def fmpred_iff)
    moreover have "b \<in> set (clients (rl_rooms s) rid)" "a \<noteq> b" using p by (auto simp: paired_in_def)
    moreover have "filter (\<lambda>x. x = b \<and> x \<noteq> c \<and> x \<notin> set failing) (clients (rl_rooms s) r) =
        (if b \<noteq> c \<and> b \<notin> set failing then filter (\<lambda>x. x = b) (clients (rl_rooms s) r) else [])"
      by (auto intro: filter_cong simp: filter_empty_conv)
    ultimately show ?thesis
      using paired u True d filter_single [OF d, of b] by (auto simp: s' received_broadcast)
  next
    case False
    have "a \<noteq> c"
    proof
      assume "a = c"
      have "in_room s a rid" using assms(1) p by (auto simp: inv_clients_def paired_in_def)
      with h False \<open>a = c\<close> show False by (auto simp: in_room_def)
    qed
    moreover have "filter (\<lambda>x. x = b \<and> x \<noteq> c \<and> x \<notin> set failing) (clients (rl_rooms s) r) = []"
      using paired_other_room(2) [OF assms(1) p False] by (auto simp: filter_empty_conv)
    ultimately show ?thesis using paired by (simp add: s' received_broadcast)
  qed
qed

lemma paired_goto:
  assumes "paired_in rid a b s" and "fmlookup (rl_handlers s) c = Some h" and "c \<noteq> a" and "c \<noteq> b" and "q \<noteq> InLoop rid"
    and "set (clients m rid) = set (clients (rl_rooms s) rid)"
  shows "paired_in rid a b (goto c q (s\<lparr>rl_rooms := m\<rparr>))"
  using assms by (auto simp: paired_in_def fmpred_iff)

lemma act_advance:
  assumes t: "inv_tokens s" and i: "inv_clients s" and p: "paired_in rid a b s" and c: "c \<noteq> a" "c \<noteq> b"
    and run: "act (Advance c now) s = Some s'"
  shows "paired_in rid a b s' \<and> received_by b s' = received_by b s"
proof -
  from run obtain h where h: "fmlookup (rl_handlers s) c = Some h" "advance c h now s = Some s'"
    by (auto split: option.splits)
  have "\<exists>q m. s' = goto c q (s\<lparr>rl_rooms := m\<rparr>) \<and> q \<noteq> InLoop rid \<and> clients m rid = clients (rl_rooms s) rid \<and>
     mg_sent m = mg_sent (rl_rooms s)"
  proof (cases "hd_pc h")
    case AtLookup
    obtain r m where g: "get_or_create_room (hd_token h) now (rl_rooms s) = (r, m)" by fastforce
    with h(2) AtLookup have "s' = goto c (AtAdd r) (s\<lparr>rl_rooms := m\<rparr>)" by (simp add: advance_def)
    with get_or_create_facts(3,4) [OF g inv_tokens_next [OF t]] show ?thesis by blast
  next
    case (AtAdd r)
    obtain ok m where g: "add_client r c now (rl_rooms s) = (ok, m)" by fastforce
    note f = add_client_facts [OF g]
    have "ok \<Longrightarrow> r \<noteq> rid" using f(1) paired_length [OF p] by auto
    then show ?thesis
      using h(2) AtAdd g f(5,6)
      by (cases ok)
        (force simp: advance_def intro: exI [of _ "InLoop r"], force simp: advance_def close_conn_def clients_def intro: exI [of _ Returned])
  next
    case (AtRemove r)
    have out: "c \<notin> set (clients (rl_rooms s) rid)" using p c by (auto simp: paired_in_def)
    have "s' = goto c Returned (s\<lparr>rl_rooms := close_conn c (remove_client r c (rl_rooms s))\<rparr>)"
      using h(2) AtRemove by (simp add: advance_def with_rooms_def)
    moreover have "clients (close_conn c (remove_client r c (rl_rooms s))) rid = clients (rl_rooms s) rid"
        "mg_sent (close_conn c (remove_client r c (rl_rooms s))) = mg_sent (rl_rooms s)"
      using out by (auto simp: remove_client_facts)
    ultimately show ?thesis by blast
  next
    case (AtDelete r)
    then show ?thesis
      using h(2) by (intro exI [of _ "AtRemove r"] exI [of _ "delete_room (hd_token h) (rl_rooms s)"])
        (simp add: advance_def with_rooms_def)
  next
    case (InLoop r)
    then show ?thesis
      using h(2) by (intro exI [of _ "AtCheck r"] exI [of _ "rl_rooms s"]) (simp add: advance_def)
  next
    case (AtCheck r)
    then show ?thesis
      using h(2) by (intro exI [of _ "if length (clients (rl_rooms s) r) = 0 then AtDelete r else AtRemove r"] exI [of _ "rl_rooms s"])
        (simp add: advance_def)
  next
    case Returned
    then show ?thesis using h(2) by (simp add: advance_def)
  qed
  then show ?thesis
    using paired_goto [OF p h(1) c] by (auto simp: received_by_def)
qed

lemma act_channel:
  assumes "reachable s" and p: "paired_in rid a b s" and u: "undisturbed a b x" and run: "act x s = Some s'"
  shows "paired_in rid a b s' \<and> received_by b s' = received_by b s @ frame_of a x"
proof (cases x)
  case (Frame c msg failing now)
  with act_frame [OF reachable_clients [OF assms(1)] p] u run show ?thesis by simp
next
  case (Advance c now)
  have "act (Advance c now) s = Some s'" using run by (simp only: Advance)
  from act_advance [OF reachable_tokens [OF assms(1)] reachable_clients [OF assms(1)] p _ _ this] u Advance
  show ?thesis by simp
next
  case (Upgrade c token)
  with run have s': "s' = s\<lparr>rl_handlers := fmupd c \<lparr>hd_token = token, hd_pc = AtLookup\<rparr> (rl_handlers s)\<rparr>"
    by (auto split: if_splits)
  have "fmpred (\<lambda>c h. hd_pc h = InLoop rid \<longrightarrow> c = a \<or> c = b) (rl_handlers s')"
    using p by (auto simp: s' paired_in_def intro: fmpred_upd)
  with p show ?thesis by (simp add: s' Upgrade paired_in_def received_by_def)
next
  case (Tick now)
  with run p show ?thesis by (auto simp: paired_in_def received_by_def cleanup_facts)
next
  case Stop
  with run p show ?thesis by (auto simp: paired_in_def received_by_def shutdown_facts)
qed

lemma run_channel:
  "run_acts as s = Some s' \<Longrightarrow> reachable s \<Longrightarrow> paired_in rid a b s \<Longrightarrow> list_all (undisturbed a b) as \<Longrightarrow>
     paired_in rid a b s' \<and> received_by b s' = received_by b s @ sent_by a as"
proof (induction as arbitrary: s)
  case (Cons x as)
  then obtain s1 where s1: "act x s = Some s1" "run_acts as s1 = Some s'" by (auto split: option.splits)
  have "undisturbed a b x" using Cons.prems(4) by simp
  from act_channel [OF Cons.prems(2,3) this s1(1)] Cons.IH [OF s1(2)] Cons.prems(4) run_acts_reachable [of "[x]" s s1] s1(1) Cons.prems(2)
  show ?case by (simp add: sent_by_def)
qed (simp add: sent_by_def)

section \<open>Carrying a conversation\<close>

text \<open>
  What one of two clients has received, of what the other wrote since they met, in some run of the relay in which
  both stay connected.
\<close>

definition relay_carries :: "bytes list \<Rightarrow> bytes list \<Rightarrow> bool" where
  "relay_carries frames got \<longleftrightarrow>
     (\<exists>s s' rid a b as. reachable s \<and> paired_in rid a b s \<and> received_by b s = [] \<and>
        run_acts as s = Some s' \<and> list_all (undisturbed a b) as \<and> sent_by a as = frames \<and> received_by b s' = got)"

lemma relay_carries_all: "relay_carries frames got \<Longrightarrow> got = frames"
  unfolding relay_carries_def using run_channel by fastforce

text \<open>Any conversation can be carried: two clients of a fresh relay meet, and one writes.\<close>

lemma run_frames:
  "fmlookup (rl_handlers s) a = Some h \<Longrightarrow> hd_pc h = InLoop rid \<Longrightarrow>
     \<exists>s'. run_acts (map (\<lambda>f. Frame a f [] now) fs) s = Some s'"
  by (induction fs arbitrary: s) auto

lemma sent_by_frames: "sent_by a (map (\<lambda>f. Frame a f [] now) fs) = fs"
  by (induction fs) (simp_all add: sent_by_def)

lemma met_run:
  "\<exists>s. run_acts [Upgrade 1 ''t'', Advance 1 0, Advance 1 0, Upgrade 2 ''t'', Advance 2 5, Advance 2 5] relay_init = Some s \<and>
     paired_in 0 1 2 s \<and> received_by 2 s = [] \<and>
     fmlookup (rl_handlers s) 1 = Some \<lparr>hd_token = ''t'', hd_pc = InLoop 0\<rparr>"
  by (simp add: run_simps paired_in_def received_by_def) (auto simp: fmpred_iff split: if_splits)

lemma relay_carries_any: "relay_carries frames frames"
proof -
  obtain s where s: "run_acts [Upgrade 1 ''t'', Advance 1 0, Advance 1 0, Upgrade 2 ''t'', Advance 2 5, Advance 2 5] relay_init = Some s"
      "paired_in 0 1 2 s" "received_by 2 s = []" "fmlookup (rl_handlers s) 1 = Some \<lparr>hd_token = ''t'', hd_pc = InLoop 0\<rparr>"
    using met_run by blast
  have r: "reachable s" using run_acts_reachable [OF s(1)] by simp
  let ?as = "map (\<lambda>f. Frame 1 f [] 9) frames"
  obtain s' where s': "run_acts ?as s = Some s'" using run_frames [OF s(4), of 0] by auto
  have u: "list_all (undisturbed 1 2) ?as" by (simp add: list_all_iff)
  from run_channel [OF s' r s(2) u] s(3) have "received_by 2 s' = frames" by (simp add: sent_by_frames)
  with r s(2,3) s' u sent_by_frames [of 1 9 frames] show ?thesis unfolding relay_carries_def by blast
qed

section \<open>The property\<close>


lemma paired_handlers:
  "rl_handlers paired = fmupd 2 \<lparr>hd_token = ''t'', hd_pc = InLoop 0\<rparr> (fmupd 1 \<lparr>hd_token = ''t'', hd_pc = InLoop 0\<rparr> fmempty)"
  unfolding paired_def pairing_def by (simp add: run_simps)

lemma paired_is_paired: "paired_in 0 1 2 paired"
  by (auto simp: paired_in_def paired_handlers intro!: fmpred_upd)


end
