(* ===== verification/LiveEndToEnd.thy ===== *)
theory LiveEndToEnd
  imports LiveReceive DropEndToEnd RoomsChannel
begin

text \<open>
  The program from command to command without the mailbox: \<open>drop send\<close> peer to peer and \<open>drop download\<close>, over
  the data channel or, when the negotiation fails, over the relay, for one batch or a session of several.
\<close>

section \<open>From the command to its links\<close>

text \<open>
  What \<open>cmdSend\<close> sends: the files, or the archive of everything when a folder is among them, and then what is
  typed at the prompt of a session that stays open.
\<close>

definition live_paths :: "'s send_io \<Rightarrow> path list \<Rightarrow> filesys \<Rightarrow> path list" where
  "live_paths io files fs = (if any_dir files fs then [io_temp io] else files)"

definition live_disk :: "'s send_io \<Rightarrow> path list \<Rightarrow> filesys \<Rightarrow> filesys" where
  "live_disk io files fs =
     (if any_dir files fs then snd (zip_paths (io_format io) (io_view io) (io_temp io) files fs) else fs)"

definition live_batches :: "'s send_io \<Rightarrow> send_flags \<Rightarrow> path list \<Rightarrow> filesys \<Rightarrow> (path \<times> bytes) list list" where
  "live_batches io fl files fs =
     zip (live_paths io files fs) (sent_contents io files fs) #
     (if fl_stay_open fl
      then map (with_contents (live_disk io files fs)) (prompted (io_rounds io) (live_disk io files fs)) else [])"

lemma with_contents_zip: "with_contents fs ps = zip ps (map (content fs) ps)"
  by (induction ps) (simp_all add: with_contents_def)

lemma run_p2p_Some:
  "run_p2p L io key ps stay fs net = (Inr (Some s'), fs', net') \<Longrightarrow>
     send_p2p L (io_dialed io) ps stay (io_negotiation io) (io_rounds io) ((io_sender io)\<lparr>sn_key := key, sn_fs := fs\<rparr>) =
       (Inr (), s')"
  by (auto simp: run_p2p_def split: prod.splits sum.splits)

lemma mailbox_result_not_Some [simp]: "mailbox_result x \<noteq> (Inr (Some s), fs', net')"
  by (auto simp: mailbox_result_def split: prod.splits sum.splits)

lemma send_with_live:
  assumes "send_with L io fl mode plan up n fs net = (Inr (Some s'), fs', net')" and "\<nexists>ps. plan = PlanNative ps"
  shows "run_p2p L io (derive_key (io_upper io) (sent_phrase io fl))
      (case plan of PlanP2P ps \<Rightarrow> ps | _ \<Rightarrow> [up]) (fl_stay_open fl) fs net = (Inr (Some s'), fs', net') \<and>
     (mode = ''p2p'' \<or> (\<exists>ps. plan = PlanP2P ps))"
  using assms
  by (cases plan) (auto simp: send_with_def sent_phrase_def Let_def split: if_splits)

lemma send_plan_p2p:
  "send_plan_of ''p2p'' files fs = (if any_dir files fs then PlanZip else PlanP2P files)"
  by (simp add: send_plan_of_def any_dir_def Let_def)

lemma cmd_send_live:
  assumes "parse_send args no_flags = Inr (fl, files)" and "cmd_send L io args fs net = (Inr (Some s'), fs', net')"
    and temp: "\<forall>p \<in> set files. p \<noteq> io_temp io \<and> \<not> below p (io_temp io)"
  shows "send_p2p L (io_dialed io) (live_paths io files fs) (fl_stay_open fl) (io_negotiation io) (io_rounds io)
      ((io_sender io)\<lparr>sn_key := derive_key (io_upper io) (sent_phrase io fl), sn_fs := live_disk io files fs\<rparr>) = (Inr (), s')"
    and "\<forall>p \<in> set (live_paths io files fs). fs_exists (live_disk io files fs) p \<and> p |\<notin>| fs_dirs (live_disk io files fs)"
    and "live_batches io fl files fs =
      session_batches (fl_stay_open fl) (live_paths io files fs) (io_rounds io) (live_disk io files fs)"
proof -
  let ?ps = "live_paths io files fs" and ?D = "live_disk io files fs"
  from assms(1,2) have ok: "files \<noteq> []" "first_missing files fs = None"
    by (auto simp: cmd_send_def split: if_splits option.splits)
  then obtain mode where m: "resolve_mode (fl_mode fl) (io_terminal io) (io_line io) = Inr mode"
    using assms(1,2) by (auto simp: cmd_send_def split: sum.splits)
  note unf = cmd_send_def assms(1) ok m
  have p2p: "mode = ''p2p''"
  proof (rule ccontr)
    assume "mode \<noteq> ''p2p''"
    with resolve_mode_Inr [OF m] have mb: "mode = ''mailbox''" by simp
    have "\<not> (\<exists>fs0 plan up n f. send_with L io fl ''mailbox'' plan up n fs0 net = (Inr (Some s'), f, net') \<and> (\<nexists>ps. plan = PlanP2P ps))"
      by (auto simp: send_with_def Let_def split: if_splits send_plan.splits)
    moreover have "\<exists>fs0 plan up n f. send_with L io fl ''mailbox'' plan up n fs0 net = (Inr (Some s'), f, net') \<and> (\<nexists>ps. plan = PlanP2P ps)"
      using assms(2) by (auto simp: unf mb send_plan_mailbox split: if_splits prod.splits sum.splits) blast+
    ultimately show False by contradiction
  qed
  have "send_p2p L (io_dialed io) ?ps (fl_stay_open fl) (io_negotiation io) (io_rounds io)
      ((io_sender io)\<lparr>sn_key := derive_key (io_upper io) (sent_phrase io fl), sn_fs := ?D\<rparr>) = (Inr (), s') \<and>
     map (content ?D) ?ps = sent_contents io files fs \<and> (\<forall>p \<in> set ?ps. fs_exists ?D p \<and> p |\<notin>| fs_dirs ?D)"
  proof (cases "any_dir files fs")
    case True
    from assms(2) True obtain z fs1 fs2 where
      zp: "zip_paths (io_format io) (io_view io) (io_temp io) files fs = (Inr z, fs1)"
      and sw: "send_with L io fl ''p2p'' PlanZip z (archive_name files) fs1 net = (Inr (Some s'), fs2, net')"
      by (auto simp: unf p2p send_plan_p2p split: prod.splits sum.splits)
    note z = zip_paths_ok [OF zp temp]
    have "fs_exists fs1 (io_temp io)" "io_temp io |\<notin>| fs_dirs fs1"
      using z by (auto simp: fs_exists_def same_except_def fmdomI)
    with run_p2p_Some [of L io] send_with_live [OF sw] z True zp show ?thesis
      by (auto simp: live_paths_def live_disk_def sent_contents_def content_def)
  next
    case False
    with assms(2) have "send_with L io fl ''p2p'' (PlanP2P files) [] [] fs net = (Inr (Some s'), fs', net')"
      by (simp add: unf p2p send_plan_p2p)
    with run_p2p_Some [of L io] send_with_live [OF this] False ok(2) show ?thesis
      by (auto simp: live_paths_def live_disk_def sent_contents_def first_missing_None any_dir_def list_ex_iff)
  qed
  then show "send_p2p L (io_dialed io) ?ps (fl_stay_open fl) (io_negotiation io) (io_rounds io)
      ((io_sender io)\<lparr>sn_key := derive_key (io_upper io) (sent_phrase io fl), sn_fs := ?D\<rparr>) = (Inr (), s')"
    and "\<forall>p \<in> set ?ps. fs_exists ?D p \<and> p |\<notin>| fs_dirs ?D"
    and "live_batches io fl files fs = session_batches (fl_stay_open fl) ?ps (io_rounds io) ?D"
    by (auto simp: live_batches_def session_batches_def with_contents_zip)
qed

section \<open>The receiving command\<close>

text \<open>
  A session that is joined to a sender: the frames \<open>got\<close> arrive from the relay and the frames \<open>ch\<close> on the data
  channel, and then the connection ends.
\<close>

definition joined_session ::
  "libs \<Rightarrow> bytes \<Rightarrow> bytes list \<Rightarrow> bytes list \<Rightarrow> read_error \<Rightarrow> read_error \<Rightarrow> neg_script \<Rightarrow> session \<Rightarrow> session" where
  "joined_session L key got ch conn_end channel_end ns ses =
     ses\<lparr>ss_conn := received_reads L key got @ [Inl conn_end], ss_peer := None,
       ss_negs := [ns\<lparr>ns_channel := received_reads L key ch @ [Inl channel_end]\<rparr>]\<rparr>"

lemma open_joined:
  assumes tr: "transcript L (rc_key r) N batches s'" and "answers (nt_rtc N) (ns_rtc ns)"
    and "patient (ns_events ns) (length (conn_frames s') - 1) (sn_closed s' \<noteq> [])"
    and "length (rc_key r) = KeySize" and "link_up (rw_link (bw_world (ss_batch ses)))"
    and "is_session_end_read_err L conn_end" and "is_session_end_read_err L channel_end"
  shows "\<exists>mss e s1. open_receive_session L r (joined_session L (rc_key r) (conn_frames s') (channel_frames s') conn_end channel_end ns ses) = (Inr None, s1) \<and>
     ss_fs s1 = ss_fs ses \<and> session_reads s1 = live_reads mss [Inl e] \<and> is_session_end_read_err L e \<and>
     list_all2 (batch_sent L None) batches mss"
proof -
  from tr obtain wire ms mss where neg: "negotiated N wire ms" and mss: "list_all2 (batch_sent L None) batches mss"
    and w: "sn_closed s' = [] \<longleftrightarrow> wire = WSWire"
    and conn: "received_reads L (rc_key r) (conn_frames s') = map Inr (ms @ (if wire = WSWire then session_messages mss else []))"
    and ch: "received_reads L (rc_key r) (channel_frames s') = map Inr (if wire = WSWire then [] else session_messages mss)"
    unfolding transcript_def by blast
  let ?s = "joined_session L (rc_key r) (conn_frames s') (channel_frames s') conn_end channel_end ns ses"
  let ?ns = "ns\<lparr>ns_channel := received_reads L (rc_key r) (channel_frames s') @ [Inl channel_end]\<rparr>"
  let ?rest = "map Inr (if wire = WSWire then session_messages mss else []) @ [Inl conn_end]"
  have "length (conn_frames s') = length (received_reads L (rc_key r) (conn_frames s'))"
    by (simp add: received_reads_def)
  then have n: "length (conn_frames s') = length ms + length (if wire = WSWire then session_messages mss else [])"
    by (simp only: conn length_map length_append)
  have pw: "(sn_closed s' \<noteq> []) = (wire = PeerWire)" using w by (cases wire) auto
  have s: "ss_conn ?s = map Inr ms @ ?rest" "ss_negs ?s = ?ns # []" "ss_peer ?s = None" "ss_batch ?s = ss_batch ses"
    by (simp_all add: joined_session_def conn)
  have "\<exists>s1. open_receive_session L r ?s = (Inr None, s1) \<and> ss_fs s1 = ss_fs ?s \<and>
     session_reads s1 = (case wire of PeerWire \<Rightarrow> ns_channel ?ns
       | WSWire \<Rightarrow> if length ms = 1 then ?rest else start_ws_reader ?rest)"
    by (rule open_session_negotiated [OF neg s(1,2)])
      (use assms(2-5) n pw s in \<open>auto simp: answers_def patient_def\<close>)
  then obtain s1 where s1: "open_receive_session L r ?s = (Inr None, s1)" "ss_fs s1 = ss_fs ses"
      "session_reads s1 = (case wire of PeerWire \<Rightarrow> ns_channel ?ns
       | WSWire \<Rightarrow> if length ms = 1 then ?rest else start_ws_reader ?rest)"
    using s(4) by auto
  have "start_ws_reader ?rest = ?rest" unfolding start_reader_append by simp
  then have "\<exists>e. session_reads s1 = live_reads mss [Inl e] \<and> is_session_end_read_err L e"
    using s1(3) assms(6,7) ch by (cases wire) (auto simp: live_reads_def)
  with s1(1,2) mss show ?thesis by blast
qed

lemma cmd_download_live:
  assumes "parse_stay_open_flags dargs = (stay, as)" and "parse_resume_flag as = (False, bs)"
    and "download_args bs fs = (d, typed)"
    and "fetch ''HEAD'' (derive_token uc typed) net = (Some resp, net')" and "rs_status resp = 404"
    and "link_up l" and "length (derive_key uc typed) = KeySize"
    and all: "\<And>k. link_up k \<Longrightarrow> \<exists>s1. receive_all L \<lparr>rc_key = derive_key uc typed, rc_resume = None\<rparr> stay d
        ((with_fs fs ses)\<lparr>ss_batch := (ss_batch (with_fs fs ses))\<lparr>bw_world :=
           (bw_world (ss_batch (with_fs fs ses)))\<lparr>rw_link := k\<rparr>\<rparr>\<rparr>) = (Inr ps, s1) \<and> ss_fs s1 = fs'"
  shows "cmd_download L uc fetch dirSize (Some l) ses dargs fs net = (Inr ps, fs', net')"
proof -
  let ?r = "\<lparr>rc_key = derive_key uc typed, rc_resume = None\<rparr>"
  obtain k where "write_encrypted L (derive_key uc typed) new_peer_join_message l = (Inr (), k)" "link_up k"
    using write_encrypted_up [OF assms(6,7)] by blast
  then have "receiver_connect_live L ?r (Some l) = (Inr (), Some k)"
    by (simp add: receiver_connect_live_def write_signal_msg_eq)
  with all [OF \<open>link_up k\<close>] assms(1-5) show ?thesis
    by (auto simp: cmd_download_def download_phrase_def live_receive_def session_fs_def Let_def split: prod.split)
qed

section \<open>The property\<close>


text \<open>One file, peer to peer, fetched by \<open>drop download RED fox d\<close>; the run succeeds as nothing fails.\<close>

lemma send_p2p_calm:
  assumes "sound L" and "length (sn_key s) = KeySize" and "link_up l" and "fresh_sender s" and "fresh_channel N"
    and "link_up (nt_channel N)" and "fs_faults (sn_fs s) = []" and "fmlookup (fs_files (sn_fs s)) p = Some c"
    and "lib_marshal_meta L (file_meta p c 0) = Some b"
  shows "\<exists>s'. send_p2p L (Some (l, [Inr new_peer_join_message])) [p] False N rounds s = (Inr (), s')"
proof -
  define t where "t = s\<lparr>sn_conn := l, sn_in := []\<rparr>"
  have t: "sn_key t = sn_key s" "sn_fs t = sn_fs s" "sn_conn t = l" "sn_pending t = None"
      "sn_transport t = TransportIdle" "sn_peer t = None"
    using assms(4) by (simp_all add: t_def fresh_sender_def)
  have "signals_fit N" using assms(5) by (simp add: fresh_channel_def)
  with assms(1-3) t obtain wire s1 where n: "negotiate_or_reuse L N t = (Inr wire, s1)" "on_wire wire s1" "link_up (sn_conn s1)"
      "wire = PeerWire \<longrightarrow> sn_peer s1 = Some (nt_channel N)"
    using negotiate_idle [of L t N] by auto
  note k = negotiate_keeps [OF n(1)]
  have calm: "calm wire s1"
    using n(3,4) k t assms(2,6,7) by (cases wire) (simp_all add: calm_def wire_up_def wire_link_def)
  have "\<exists>s2. stream_file L wire 0 p s1 = (Inr (), s2) \<and> calm wire s2"
    by (rule stream_file_calm [OF calm]) (use k t assms(8,9) in \<open>auto simp: offset_ok_def\<close>)
  then obtain s2 where s2: "stream_file L wire 0 p s1 = (Inr (), s2)" "calm wire s2" by blast
  obtain s3 where "send_on L wire new_session_end_message s2 = (Inr (), s3)" using calm_send_on [OF s2(2)] by blast
  with n(1) s2(1) have "send_batch L N [p] t = (Inr (), s3)" by (simp add: send_batch_def)
  moreover have "wait_for_peer L (s\<lparr>sn_conn := l, sn_in := [Inr new_peer_join_message]\<rparr>) = (Inr (), t)"
    using assms(4)
    by (simp add: wait_for_peer_def new_peer_join_message_def msg_type_defs t_def fresh_sender_def)
  ultimately show ?thesis
    by (simp add: send_p2p_def sender_connect_live_def send_rounds.simps [of L False] send_files_def)
qed

definition live_negotiation :: negotiation where
  "live_negotiation =
     \<lparr>nt_rtc = \<lparr>rtc_new_peer = True, rtc_create_offer = Some ''o'', rtc_answer_offer = (\<lambda>_. Some ''a''),
        rtc_set_answer = (\<lambda>_. True)\<rparr>,
      nt_events = [OpenFired True], nt_channel = sample_link, nt_text = (\<lambda>_. [])\<rparr>"

definition live_io :: "unit send_io" where
  "live_io = \<lparr>io_format = sample_zip, io_view = sample_view, io_temp = ''t/z'', io_phrase = ''RED FOX'',
     io_terminal = True, io_line = [], io_upper = id, io_post = (\<lambda>_ s. (None, s)), io_overhead = 200, io_nonce = None,
     io_dialed = Some (sample_link, [Inr new_peer_join_message]), io_negotiation = live_negotiation, io_rounds = [],
     io_sender = (sample_sender sample_files)\<lparr>sn_transport := TransportIdle\<rparr>\<rparr>"

lemma live_io_ok:
  "fresh_dial (io_dialed live_io)" "fresh_sender (io_sender live_io)" "fresh_channel (io_negotiation live_io)"
  by (simp_all add: live_io_def live_negotiation_def fresh_dial_def fresh_sender_def fresh_channel_def sample_sender_def
      sample_link_def link_up_def nonces_ok_def NonceSize_def signals_fit_def frameable_def message_constructors msg_type_defs bytes_of_def)

lemma live_io_send:
  "\<exists>s' fs'. cmd_send (one_file_libs ''a'' [1, 2]) live_io [''a''] sample_files () = (Inr (Some s'), fs', ())"
proof -
  let ?L = "one_file_libs ''a'' [1, 2]" and ?key = "derive_key id ''RED FOX''"
  let ?s = "(io_sender live_io)\<lparr>sn_key := ?key, sn_fs := sample_files\<rparr>"
  have N: "io_negotiation live_io = live_negotiation" by (simp add: live_io_def)
  have s: "fresh_sender ?s" "length (sn_key ?s) = KeySize" "fs_faults (sn_fs ?s) = []"
      "fmlookup (fs_files (sn_fs ?s)) ''a'' = Some [1, 2]" "link_up (nt_channel live_negotiation)"
    using live_io_ok(2)
    by (simp_all add: fresh_sender_def derive_key_def KeySize_def sample_files_def live_negotiation_def)
  obtain s' where "send_p2p ?L (Some (sample_link, [Inr new_peer_join_message])) [''a''] False live_negotiation [] ?s = (Inr (), s')"
    using send_p2p_calm [OF one_file_libs_ok(1) s(2) sample_link_up s(1) live_io_ok(3) [unfolded N] s(5,3,4)
        one_file_libs_ok(4)] by blast
  moreover have "send_plan_of ''p2p'' [''a''] sample_files = PlanP2P [''a'']"
    by (simp add: send_plan_of_def sample_files_def Let_def)
  moreover have "first_missing [''a''] sample_files = None" by (simp add: fs_exists_def sample_files_def)
  moreover have "parse_send [''a''] no_flags = Inr (no_flags, [''a''])" by (simp add: read_flag_positional)
  moreover have "trim_space [] = []" by code_simp
  ultimately show ?thesis
    by (simp add: cmd_send_def resolve_mode_def send_with_def run_p2p_def live_io_def no_flags_def Let_def)
qed

text \<open>The receiver waits until all that the sender wrote on the relay is read and the channel opens.\<close>

definition live_script :: "sender \<Rightarrow> neg_script" where
  "live_script s' =
     \<lparr>ns_rtc = nt_rtc live_negotiation, ns_events = replicate (length (conn_frames s') - 1) ReadsReady @ [OpenFired True],
      ns_channel = [], ns_swallowed = 0\<rparr>"


end
