(* ===== verification/RelaySpec.thy ===== *)
theory RelaySpec
  imports Routes
begin

text \<open>
  What a relay is to its users, without disk, limiter, rooms and routes: a map from tokens to
  contents with the time of their acceptance.  The modelled relay refines it, on every run and
  with any faults of the disk.
\<close>

section \<open>Refinement\<close>

fun trace :: "('a \<Rightarrow> 'o \<Rightarrow> 'a \<Rightarrow> bool) \<Rightarrow> 'a \<Rightarrow> 'o list \<Rightarrow> 'a \<Rightarrow> bool" where
  "trace step a [] b \<longleftrightarrow> a = b"
| "trace step a (l # ls) b \<longleftrightarrow> (\<exists>a'. step a l a' \<and> trace step a' ls b)"

fun labels :: "('e \<Rightarrow> 'c \<Rightarrow> 'o) \<Rightarrow> ('e \<Rightarrow> 'c \<Rightarrow> 'c) \<Rightarrow> 'e list \<Rightarrow> 'c \<Rightarrow> 'o list" where
  "labels label cstep [] c = []"
| "labels label cstep (e # es) c = label e c # labels label cstep es (cstep e c)"

lemma trace_append: "trace step a (xs @ ys) b \<longleftrightarrow> (\<exists>m. trace step a xs m \<and> trace step m ys b)"
  by (induction xs arbitrary: a) auto

text \<open>A forward simulation: each step of the program is a step of the specification with the label it shows.\<close>

locale simulation =
  fixes cstep :: "'e \<Rightarrow> 'c \<Rightarrow> 'c" and label :: "'e \<Rightarrow> 'c \<Rightarrow> 'o"
    and inv :: "'c \<Rightarrow> bool" and abs :: "'c \<Rightarrow> 'a" and astep :: "'a \<Rightarrow> 'o \<Rightarrow> 'a \<Rightarrow> bool"
  assumes keeps: "inv c \<Longrightarrow> inv (cstep e c)"
    and simulates: "inv c \<Longrightarrow> astep (abs c) (label e c) (abs (cstep e c))"
begin

lemma run_keeps: "inv c \<Longrightarrow> inv (fold cstep es c)"
  by (induction es arbitrary: c) (simp_all add: keeps)

lemma run_refines: "inv c \<Longrightarrow> trace astep (abs c) (labels label cstep es c) (abs (fold cstep es c))"
proof (induction es arbitrary: c)
  case (Cons e es)
  from simulates [OF Cons.prems] Cons.IH [OF keeps [OF Cons.prems]] show ?case by auto
qed simp

end

section \<open>The specification\<close>

type_synonym mail = "string \<Rightarrow> (bytes \<times> int) option"

text \<open>
  What is seen of a relay: it accepts a content under a token, it answers a download with a content or with
  ``not found'', its cleanup runs, or something else happens.
\<close>

datatype mail_event = Accept string bytes int | Answer string "bytes option" | Sweep int | Quiet

definition swept :: "int \<Rightarrow> int \<Rightarrow> mail \<Rightarrow> mail" where
  "swept life now m =
     (\<lambda>t. case m t of None \<Rightarrow> None | Some (c, born) \<Rightarrow> if now - born > life then None else Some (c, born))"

inductive mail_step :: "int \<Rightarrow> mail \<Rightarrow> mail_event \<Rightarrow> mail \<Rightarrow> bool" for life where
  accept: "m t = None \<Longrightarrow> mail_step life m (Accept t c now) (m(t \<mapsto> (c, now)))"
| answer: "r = map_option fst (m t) \<Longrightarrow> mail_step life m (Answer t r) m"
| sweep: "mail_step life m (Sweep now) (swept life now m)"
| quiet: "mail_step life m Quiet m"

inductive_simps mail_step_simps [simp]:
  "mail_step life m (Accept t c now) m'"
  "mail_step life m (Answer t r) m'"
  "mail_step life m (Sweep now) m'"
  "mail_step life m Quiet m'"

text \<open>What the map holds is what was accepted and not swept since.\<close>

lemma mail_step_holds:
  assumes "mail_step life m e m'"
  shows "m' t = Some (c, born) \<longleftrightarrow>
     e = Accept t c born \<or> m t = Some (c, born) \<and> (\<forall>n. e = Sweep n \<longrightarrow> n - born \<le> life)"
  using assms by cases (auto simp: swept_def split: option.splits if_splits)

definition kept :: "int \<Rightarrow> mail_event list \<Rightarrow> string \<Rightarrow> bytes \<Rightarrow> int \<Rightarrow> bool" where
  "kept life ls t c born \<longleftrightarrow>
     (\<exists>before after. ls = before @ Accept t c born # after \<and> (\<forall>n. Sweep n \<in> set after \<longrightarrow> n - born \<le> life))"

lemma kept_snoc:
  "kept life (ls @ [e]) t c born \<longleftrightarrow>
     e = Accept t c born \<or> kept life ls t c born \<and> (\<forall>n. e = Sweep n \<longrightarrow> n - born \<le> life)" (is "?l \<longleftrightarrow> ?r")
proof
  assume ?l
  then obtain before after where s: "ls @ [e] = before @ Accept t c born # after"
    and ok: "\<forall>n. Sweep n \<in> set after \<longrightarrow> n - born \<le> life" by (auto simp: kept_def)
  then show ?r by (cases after rule: rev_cases) (auto simp: kept_def)
next
  assume ?r
  then show ?l
  proof
    assume "e = Accept t c born"
    then show ?l unfolding kept_def by (intro exI [of _ ls] exI [of _ "[]"]) simp
  next
    assume "kept life ls t c born \<and> (\<forall>n. e = Sweep n \<longrightarrow> n - born \<le> life)"
    then obtain before after where "ls = before @ Accept t c born # after"
      "\<forall>n. Sweep n \<in> set (after @ [e]) \<longrightarrow> n - born \<le> life" by (fastforce simp: kept_def)
    then show ?l unfolding kept_def by (intro exI [of _ before] exI [of _ "after @ [e]"]) simp
  qed
qed

lemma mail_history:
  "trace (mail_step life) Map.empty ls m \<Longrightarrow> m t = Some (c, born) \<longleftrightarrow> kept life ls t c born"
proof (induction ls arbitrary: m rule: rev_induct)
  case (snoc e ls)
  then obtain m1 where t: "trace (mail_step life) Map.empty ls m1" and e: "mail_step life m1 e m"
    by (auto simp: trace_append)
  show ?case unfolding mail_step_holds [OF e] snoc.IH [OF t] kept_snoc ..
qed (auto simp: kept_def)

section \<open>The relay\<close>

definition mail :: "file_store \<Rightarrow> mail" where
  "mail st = (\<lambda>t. case get st t of None \<Rightarrow> None | Some f \<Rightarrow> map_option (\<lambda>c. (c, sf_created f)) (blob st t))"

definition request_label :: "int \<Rightarrow> upload_request \<Rightarrow> response \<Rightarrow> mail_event" where
  "request_label now u resp =
     (case route_of (rq_method u) (rq_path u) of
        Upload \<Rightarrow>
          (case rs_body resp of
             UploadReply t _ \<Rightarrow> (case up_file u of None \<Rightarrow> Quiet | Some (_, c, _) \<Rightarrow> Accept t c now)
           | _ \<Rightarrow> Quiet)
      | Raw t \<Rightarrow>
          (case rs_body resp of
             RawBytes c \<Rightarrow> Answer t (Some c)
           | _ \<Rightarrow> if rs_status resp = 404 then Answer t None else Quiet)
      | _ \<Rightarrow> Quiet)"

fun relay_label :: "'l relay_env \<Rightarrow> relay_event \<Rightarrow> 'l server \<Rightarrow> mail_event" where
  "relay_label E (Request rt rn now u) s =
     (case fst (serve E rt rn now u s) of None \<Rightarrow> Quiet | Some resp \<Rightarrow> request_label now u resp)"
| "relay_label E (Tick now) s = Sweep now"
| "relay_label E (RoomWork m n) s = Quiet"

lemma relay_run_fold: "relay_run E es s = fold (relay_event_step E) es s"
  by (induction es arbitrary: s) simp_all

lemma mail_cong: "get st' = get st \<Longrightarrow> blob st' = blob st \<Longrightarrow> mail st' = mail st"
  by (simp add: mail_def fun_eq_iff split: option.split)

lemma mail_cleanup:
  assumes "store_inv st"
  shows "mail (cleanup_tick now st) = swept (st_expiry st) now (mail st)"
proof
  fix t
  show "mail (cleanup_tick now st) t = swept (st_expiry st) now (mail st) t"
  proof (cases "get st t")
    case (Some f)
    with assms cleanup_blob [OF assms, of now t] store_inv_blob [OF assms] show ?thesis
      by (cases "expired now st t") (auto simp: mail_def swept_def cleanup_get expired_def split: option.splits)
  qed (simp add: mail_def swept_def cleanup_get expired_def)
qed

text \<open>An upload: accepted under a free token, or the map stays as it was.\<close>

lemma upload_mail:
  assumes "handle_upload_file rt rn now u s = (resp, s')" and "store_inv (sv_store s)"
    and "route_of (rq_method u) (rq_path u) = Upload"
  shows "mail_step life (mail (sv_store s)) (request_label now u resp) (mail (sv_store s'))"
proof (cases "\<exists>t n. rs_body resp = UploadReply t n")
  case True
  then obtain t n where b: "rs_body resp = UploadReply t n" by blast
  with assms(1) obtain fn r st where
    u: "form_file (cf_max_upload (sv_cfg s)) u = Some (fn, r)"
    and run: "store fn r (up_client_token u) rt rn now (sv_store s) = (Inr t, st)" and s': "sv_store s' = st"
    by (auto simp: handle_upload_file_def reply_def Let_def
        split: option.splits if_splits prod.splits sum.splits store_error.splits)
  have f: "up_file u = Some (fn, r)" using u by (auto simp: form_file_def split: if_splits)
  note k = store_ok [OF run assms(2)]
  then have "mail st = (mail (sv_store s))(t \<mapsto> (fst r, now))" "mail (sv_store s) t = None"
    by (auto simp: mail_def fun_eq_iff split: option.split)
  with b f s' assms(3) show ?thesis by (cases r) (simp add: request_label_def)
next
  case False
  have "get (sv_store s') = get (sv_store s) \<and> blob (sv_store s') = blob (sv_store s)"
    using assms(1) False store_err [OF _ assms(2)]
    by (auto simp: handle_upload_file_def reply_def Let_def
        split: option.splits if_splits prod.splits sum.splits store_error.splits)
  then have "mail (sv_store s') = mail (sv_store s)" by (intro mail_cong) simp_all
  moreover have "request_label now u resp = Quiet"
    using False assms(3) by (auto simp: request_label_def split: body.split)
  ultimately show ?thesis by simp
qed

lemma rate_limit_mail:
  assumes "rate_limit nl la now r h s = (resp, s')"
  shows "sv_store s' = sv_store s \<and> rs_status resp = 429 \<and> rs_body resp = ErrorText ''rate limited'' \<or>
     (\<exists>il. h (s\<lparr>sv_limiter := il\<rparr>) = (resp, s'))"
  using assms by (auto simp: rate_limit_def reply_def Let_def split: prod.splits if_splits)

lemma raw_mail:
  assumes "handle_raw_download r s = (resp, s')" and "store_inv (sv_store s)"
    and "route_of (rq_method u) (rq_path u) = Raw (rq_token r)"
  shows "mail_step life (mail (sv_store s)) (request_label now u resp) (mail (sv_store s'))"
proof (cases "rq_token r = [] \<or> get (sv_store s) (rq_token r) = None")
  case True
  with assms(1,3) show ?thesis
    by (auto simp: handle_raw_download_def reply_def request_label_def mail_def split: if_splits option.splits)
next
  case False
  then obtain f where f: "rq_token r \<noteq> []" "get (sv_store s) (rq_token r) = Some f" by auto
  obtain c where c: "fmlookup (fs_files (st_disk (sv_store s))) (sf_path f) = Some c"
    using store_inv_file [OF assms(2) f(2)] by blast
  obtain x fs where o: "os_open (sf_path f) (st_disk (sv_store s)) = (x, fs)" by fastforce
  note d = os_open_disk [OF o]
  then have m: "mail ((sv_store s)\<lparr>st_disk := fs\<rparr>) = mail (sv_store s)"
    using blob_disk [OF d] by (intro mail_cong) simp_all
  have x: "x = Inr (Some b) \<Longrightarrow> b = c" for b
    using o c by (auto simp: os_open_def dest!: next_fault_frame split: prod.splits option.splits if_splits)
  have "mail (sv_store s) (rq_token r) = Some (c, sf_created f)" using f c by (simp add: mail_def blob_def)
  with assms(1,3) f o m x show ?thesis
    by (auto simp: handle_raw_download_def reply_def request_label_def Let_def
        split: if_splits sum.splits option.splits)
qed

lemma serve_mail:
  assumes "serve E rt rn now u s = (resp, s')" and "store_inv (sv_store s)"
  shows "mail_step life (mail (sv_store s)) (relay_label E (Request rt rn now u) s) (mail (sv_store s'))"
proof -
  let ?lim = "rate_limit (re_new_limiter E) (re_lim_allow E) now (http_request.truncate u)"
  have quiet: "sv_store s' = sv_store s \<Longrightarrow> route_of (rq_method u) (rq_path u) \<noteq> Upload \<Longrightarrow>
      \<nexists>t. route_of (rq_method u) (rq_path u) = Raw t \<Longrightarrow> ?thesis"
    using assms(1) by (auto simp: request_label_def split: option.split route.split)
  show ?thesis
  proof (cases "route_of (rq_method u) (rq_path u)")
    case Upload
    obtain q s1 where l: "?lim (handle_upload_file rt rn now u) s = (q, s1)" by fastforce
    with assms(1) Upload have r: "resp = Some q" "s' = s1" by (auto simp: serve_def)
    from rate_limit_mail [OF l] show ?thesis
    proof
      assume "sv_store s1 = sv_store s \<and> rs_status q = 429 \<and> rs_body q = ErrorText ''rate limited''"
      with assms(1) r Upload show ?thesis by (simp add: request_label_def)
    next
      assume "\<exists>il. handle_upload_file rt rn now u (s\<lparr>sv_limiter := il\<rparr>) = (q, s1)"
      then obtain il where h: "handle_upload_file rt rn now u (s\<lparr>sv_limiter := il\<rparr>) = (q, s1)" by blast
      from upload_mail [OF h _ Upload] assms r show ?thesis by simp
    qed
  next
    case (Raw t)
    obtain q s1 where h: "handle_raw_download ((http_request.truncate u)\<lparr>rq_token := t\<rparr>) s = (q, s1)" by fastforce
    with assms(1) Raw have r: "resp = Some q" "s' = s1" by (auto simp: serve_def)
    from raw_mail [OF h assms(2), of u] Raw assms(1) r show ?thesis by simp
  next
    case (WebSocket t)
    obtain q s1 where l: "?lim (\<lambda>s1. (reply 101 NoBody, s1)) s = (q, s1)" by fastforce
    show ?thesis
      by (rule quiet) (use assms(1) WebSocket l rate_limit_mail [OF l] in \<open>auto simp: serve_def split: if_splits\<close>)
  next
    case (RoomStatus t)
    obtain q s1 where l: "?lim (\<lambda>s1. (handle_room_status ((http_request.truncate u)\<lparr>rq_token := t\<rparr>) s1, s1)) s = (q, s1)"
      by fastforce
    show ?thesis
      by (rule quiet) (use assms(1) RoomStatus l rate_limit_mail [OF l] in \<open>auto simp: serve_def\<close>)
  qed (use assms(1) in \<open>auto simp: serve_def request_label_def Let_def\<close>)
qed

interpretation relay_mail: simulation "relay_event_step E" "relay_label E"
    "\<lambda>s. store_inv (sv_store s) \<and> st_expiry (sv_store s) = life" "\<lambda>s. mail (sv_store s)" "mail_step life"
  for E :: "'l relay_env" and life
proof
  fix s :: "'l server" and e
  assume inv: "store_inv (sv_store s) \<and> st_expiry (sv_store s) = life"
  show "store_inv (sv_store (relay_event_step E e s)) \<and> st_expiry (sv_store (relay_event_step E e s)) = life"
  proof (cases e)
    case (Request rt rn now u)
    obtain resp s1 where "serve E rt rn now u s = (resp, s1)" by fastforce
    with serve_retains [OF this] inv Request show ?thesis by (simp add: retains_def)
  qed (use inv in \<open>simp_all add: cleanup_inv cleanup_get\<close>)
  show "mail_step life (mail (sv_store s)) (relay_label E e s) (mail (sv_store (relay_event_step E e s)))"
  proof (cases e)
    case (Request rt rn now u)
    obtain resp s1 where "serve E rt rn now u s = (resp, s1)" by fastforce
    with serve_mail [OF this, of life] inv Request show ?thesis by simp
  qed (use inv mail_cleanup in auto)
qed

section \<open>Properties\<close>

lemma new_server_empty:
  "new_server made cfg version now disk = Inr s \<Longrightarrow>
     st_files (sv_store s) = fmempty \<and> st_expiry (sv_store s) = cf_expiry cfg"
  by (auto simp: new_server_def new_file_store_def split: sum.splits)

lemma empty_files: "st_files st = fmempty \<Longrightarrow> store_inv st \<and> mail st = Map.empty"
  by (simp add: store_inv_def mail_def get_def fun_eq_iff)




lemma sample_labels:
  "labels (relay_label sample_env) (relay_event_step sample_env)
     [Request (replicate 8 1) ''x'' 5 sample_upload, Request [] [] 7 (raw_get ''0123456789abcdef'')] empty_server =
   [Accept ''0123456789abcdef'' [1, 2] 5] @ Answer ''0123456789abcdef'' (Some [1, 2]) # []"
proof -
  let ?t = "''0123456789abcdef''"
  obtain s1 where s1: "serve sample_env (replicate 8 1) ''x'' 5 sample_upload empty_server =
      (Some (reply 200 (UploadReply ?t ''f'')), s1)"
    using sample_serve by (metis prod.collapse)
  have e: "store_inv (sv_store empty_server)" "fs_faults (st_disk (sv_store empty_server)) = []"
    by (simp_all add: empty_server_def empty_store_inv)
  have v: "valid_token ?t" by (simp add: valid_token_def hex_digits_def)
  have u: "route_of (rq_method sample_upload) (rq_path sample_upload) = Upload"
      "up_file sample_upload = Some (''f'', [1, 2], True)"
    using upload_route [of sample_upload] by (simp_all add: sample_upload_def)
  have accept: "relay_label sample_env (Request (replicate 8 1) ''x'' 5 sample_upload) empty_server = Accept ?t [1, 2] 5"
    using s1 u by (simp add: request_label_def reply_def)
  have "fs_faults (st_disk (sv_store s1)) = []" "store_inv (sv_store s1)"
    using serve_calm [OF e(2), of sample_env "replicate 8 1" "''x''" 5 sample_upload] serve_retains [OF s1 e(1)] s1
    by (simp_all add: retains_def)
  moreover have "mail (sv_store s1) ?t = Some ([1, 2], 5)"
    using serve_mail [OF s1 e(1), of 600] unfolding accept by simp
  then have "blob (sv_store s1) ?t = Some [1, 2]" by (auto simp: mail_def split: option.splits)
  ultimately have "fst (serve sample_env [] [] 7 (raw_get ?t) s1) = Some (reply 200 (RawBytes [1, 2]))"
    by (simp add: serve_raw_get [OF _ _ v])
  moreover have "route_of (rq_method (raw_get ?t)) (rq_path (raw_get ?t)) = Raw ?t"
    using raw_route [OF v] by (simp add: raw_get_def)
  ultimately show ?thesis using accept s1 by (simp add: request_label_def reply_def)
qed


end
