(* ===== verification/RelayMain.thy ===== *)
theory RelayMain
  imports Routes
begin

text \<open>
  \<open>cmd/relay/main.go\<close>: the life of a relay process, from its temporary directory to its exit code.
  What it serves in between is a run of \<open>Routes\<close>; logging is left out.
\<close>

section \<open>Definitions\<close>

text \<open>
  How the process ends: \<open>ListenAndServe\<close> fails, in its goroutine, or a signal comes, and \<open>Shutdown\<close> of
  the HTTP server lets the requests under way finish.
\<close>

datatype run_end = ListenFailed | Signalled "relay_event list"

text \<open>
  \<open>main\<close>, to the exit code and what is on the disk.  \<open>os.Exit\<close> does not run the deferred
  \<open>s.Shutdown\<close>; returning does.
\<close>

definition relay_main ::
  "'l relay_env \<Rightarrow> (os_error + path) \<Rightarrow> config \<Rightarrow> string \<Rightarrow> int \<Rightarrow> filesys \<Rightarrow> relay_event list \<Rightarrow> run_end \<Rightarrow>
     nat \<times> filesys" where
  "relay_main E made cfg version now disk served how =
     (case new_server made cfg version now disk of
        Inl _ \<Rightarrow> (1, disk)
      | Inr s \<Rightarrow>
          let s1 = relay_run E served s
          in (case how of
                ListenFailed \<Rightarrow> (1, st_disk (sv_store s1))
              | Signalled finishing \<Rightarrow> (0, st_disk (sv_store (server_shutdown (relay_run E finishing s1))))))"

section \<open>What a run can touch\<close>

definition below_dir :: "path \<Rightarrow> path \<Rightarrow> bool" where
  "below_dir d p \<longleftrightarrow> take (Suc (length d)) p = d @ ''/''"

text \<open>The random parts of temporary names are digits; that they have no slash is enough.\<close>

definition names_ok :: "relay_event list \<Rightarrow> bool" where
  "names_ok es \<longleftrightarrow> list_all (\<lambda>e. case e of Request _ rn _ _ \<Rightarrow> CHR ''/'' \<notin> set rn | _ \<Rightarrow> True) es"

definition proper_dir :: "path \<Rightarrow> bool" where
  "proper_dir d \<longleftrightarrow> clean d = d \<and> d \<notin> {[], ''.'', ''/''}"

lemma temp_path_below:
  assumes "proper_dir d" and "CHR ''/'' \<notin> set rn"
  shows "below_dir d (temp_path d rn)"
proof -
  have "plain_name (''upload-'' @ rn)" using assms(2) by (simp add: plain_name_def)
  from join_plain [OF this, of d] assms(1) show ?thesis
    by (simp add: temp_path_def proper_dir_def below_dir_def)
qed

text \<open>The disk \<open>F\<close> before the start, outside of the store's directory, which holds every blob.\<close>

definition contained :: "path \<Rightarrow> filesys \<Rightarrow> file_store \<Rightarrow> bool" where
  "contained d F st \<longleftrightarrow>
     st_dir st = d \<and> (\<forall>t f. get st t = Some f \<longrightarrow> below_dir d (sf_path f)) \<and>
     fs_dirs (st_disk st) = finsert d (fs_dirs F) \<and>
     (\<forall>p. \<not> below_dir d p \<longrightarrow> fmlookup (fs_files (st_disk st)) p = fmlookup (fs_files F) p)"

lemma contained_step:
  assumes "contained d F st" and "same_except P (st_disk st) (st_disk st')" and "\<forall>p \<in> P. below_dir d p"
    and "st_dir st' = st_dir st"
    and "\<And>t f. get st' t = Some f \<Longrightarrow> get st t = Some f \<or> below_dir d (sf_path f)"
  shows "contained d F st'"
  using assms by (auto simp: contained_def same_except_def) (metis assms(3))+

lemma same_except_mono: "same_except P fs fs' \<Longrightarrow> P \<subseteq> Q \<Longrightarrow> same_except Q fs fs'"
  by (auto simp: same_except_def)

lemma store_frame:
  assumes "store f r ct rt rn now st = (x, st')" and "store_inv st"
  shows "same_except {temp_path (st_dir st) rn} (st_disk st) (st_disk st') \<and> st_dir st' = st_dir st"
proof (cases "store_taken (store_token ct rt) st")
  case True
  with assms(1) show ?thesis by (auto simp: store_def)
next
  case False
  obtain y st1 where c: "store_copy rn r st = (y, st1)" by fastforce
  have "st_disk st' = st_disk st1 \<and> st_dir st' = st_dir st1"
    using assms(1) False c
    by (auto simp: store_def store_insert_def insert_file_def Let_def split: sum.splits)
  moreover have "same_except {temp_path (st_dir st) rn} (st_disk st) (st_disk st1)"
    using c store_copy_Inl [of rn r st] store_copy_Inr [of rn r st] by (cases y) fastforce+
  moreover have "st_dir st1 = st_dir st" using store_copy_keeps [OF c assms(2)] by blast
  ultimately show ?thesis by simp
qed

lemma store_contained:
  assumes "store f r ct rt rn now st = (x, st')" and "contained d F st" and "store_inv st"
    and "below_dir d (temp_path d rn)"
  shows "contained d F st'"
proof -
  have d: "st_dir st = d" using assms(2) by (simp add: contained_def)
  note k = store_frame [OF assms(1,3)]
  have "get st t = Some g \<or> below_dir d (sf_path g)" if "get st' t = Some g" for t g
  proof (cases x)
    case (Inl e)
    with store_err [OF assms(1) [unfolded Inl] assms(3)] that show ?thesis by simp
  next
    case (Inr token)
    with store_ok [OF assms(1) [unfolded Inr] assms(3)] that assms(4) d show ?thesis
      by (cases "t = token") auto
  qed
  with k assms(4) d show ?thesis
    by (intro contained_step [OF assms(2), of "{temp_path (st_dir st) rn}"]) auto
qed

lemma request_contained:
  assumes "serve E rt rn now u s = (resp, s')" and "contained d F (sv_store s)" and "store_inv (sv_store s)"
    and "below_dir d (temp_path d rn)"
  shows "contained d F (sv_store s')"
proof -
  have "contained d F ((sv_store s)\<lparr>st_disk := fs\<rparr>)" if "os_open p (st_disk (sv_store s)) = (x, fs)" for p x fs
    using os_open_disk [OF that] by (intro contained_step [OF assms(2), of "{}"]) auto
  with serve_effect [OF assms(1)] assms(2) store_contained [OF _ assms(2-4)] show ?thesis
    unfolding store_effect_def by metis
qed

lemma tick_contained:
  assumes "contained d F st"
  shows "contained d F (cleanup_tick now st)"
  by (rule contained_step [OF assms cleanup_disk])
    (use assms in \<open>auto simp: contained_def expired_paths_def cleanup_get split: if_splits\<close>)

lemma run_contained:
  assumes "contained d F (sv_store s)" and "store_inv (sv_store s)" and "proper_dir d" and "names_ok es"
  shows "contained d F (sv_store (relay_run E es s)) \<and> store_inv (sv_store (relay_run E es s))"
  using assms
proof (induction es arbitrary: s)
  case (Cons e es)
  have "contained d F (sv_store (relay_event_step E e s))"
  proof (cases e)
    case (Request rt rn now u)
    obtain resp s1 where r: "serve E rt rn now u s = (resp, s1)" by fastforce
    have "below_dir d (temp_path d rn)"
      using Cons.prems(3,4) Request by (intro temp_path_below) (simp_all add: names_ok_def)
    from request_contained [OF r Cons.prems(1,2) this] r Request show ?thesis by simp
  qed (use Cons.prems tick_contained in simp_all)
  with Cons.IH [of "relay_event_step E e s"] relay_event_inv [OF Cons.prems(2)] Cons.prems(3,4)
  show ?case by (simp add: names_ok_def)
qed simp

text \<open>\<open>Shutdown\<close> brings back the disk of before.\<close>

definition absent :: "path \<Rightarrow> filesys \<Rightarrow> bool" where
  "absent d fs \<longleftrightarrow> \<not> fs_exists fs d \<and> fBall (fmdom (fs_files fs) |\<union>| fs_dirs fs) (\<lambda>p. \<not> below_dir d p)"

lemma shutdown_restores:
  assumes "contained d F st" and "absent d F"
  shows "fs_files (st_disk (shutdown st)) = fs_files F \<and> fs_dirs (st_disk (shutdown st)) = fs_dirs F"
proof -
  have d: "st_dir st = d" and paths: "\<And>t f. get st t = Some f \<Longrightarrow> below_dir d (sf_path f)"
    and dirs: "fs_dirs (st_disk st) = finsert d (fs_dirs F)"
    and files: "\<And>p. \<not> below_dir d p \<Longrightarrow> fmlookup (fs_files (st_disk st)) p = fmlookup (fs_files F) p"
    using assms(1) by (auto simp: contained_def)
  define rm where "rm = (\<lambda>t fs. case get st t of None \<Rightarrow> fs | Some f \<Rightarrow> snd (os_remove (sf_path f) fs))"
  have removed: "same_except {p. below_dir d p} (st_disk st) (foldr rm ts (st_disk st))" for ts
  proof (induction ts)
    case (Cons t ts)
    show ?case
    proof (cases "get st t")
      case (Some f)
      have "same_except {p. below_dir d p} (foldr rm ts (st_disk st)) (rm t (foldr rm ts (st_disk st)))"
        using same_except_mono [OF os_remove_same, of "sf_path f" "{p. below_dir d p}"] paths [OF Some] Some
        by (simp add: rm_def)
      with Cons show ?thesis by (auto intro: same_except_same)
    qed (use Cons in \<open>simp add: rm_def\<close>)
  qed auto
  let ?fs = "foldr rm (tokens st) (st_disk st)"
  have gone: "below_dir d p \<Longrightarrow> p |\<notin>| fmdom (fs_files F) \<and> p |\<notin>| fs_dirs F" for p
    using assms(2) by (auto simp: absent_def)
  have "d |\<notin>| fs_dirs F" using assms(2) by (auto simp: absent_def fs_exists_def)
  have sh: "st_disk (shutdown st) = ?fs\<lparr>fs_files := fmfilter (\<lambda>p. \<not> below_dir d p) (fs_files ?fs),
      fs_dirs := ffilter (\<lambda>p. p \<noteq> d \<and> \<not> below_dir d p) (fs_dirs ?fs)\<rparr>"
    unfolding shutdown_def d rm_def below_dir_def Let_def by simp
  have "fs_files (st_disk (shutdown st)) = fs_files F"
  proof (rule fmap_ext)
    fix p
    show "fmlookup (fs_files (st_disk (shutdown st))) p = fmlookup (fs_files F) p"
      using removed [of "tokens st"] files [of p] gone [of p]
      by (cases "below_dir d p") (auto simp: sh same_except_def fmdom_notD)
  qed
  moreover have "fs_dirs (st_disk (shutdown st)) = fs_dirs F"
    using removed [of "tokens st"] dirs gone \<open>d |\<notin>| fs_dirs F\<close> by (auto simp: sh same_except_def)
  ultimately show ?thesis ..
qed

lemma new_contained:
  assumes "new_server (Inr d) cfg version now F = Inr s"
  shows "contained d F (sv_store s) \<and> store_inv (sv_store s)"
  using assms by (auto simp: new_server_def new_file_store_def contained_def store_inv_def get_def)

section \<open>Property\<close>



end
