(* ===== verification/Peer.thy ===== *)
theory Peer
  imports Prelude "HOL-Library.Sublist"
begin

text \<open>
  \<open>internal/p2p/peer.go\<close>: the data channel of a peer connection.  WebRTC calls back from its
  own goroutines, so a peer is a transition system: \<open>deliver\<close> is two steps (the test of
  \<open>incClosed\<close> under the lock, then the \<open>select\<close> without it), \<open>Close\<close> is two (closing \<open>closed\<close>,
  then \<open>closeIncoming\<close>).  Callbacks for messages come one at a time.  \<open>pr_arrived\<close> and \<open>pr_read\<close>
  record what came in and what the reader took, for the statements.
\<close>

section \<open>State\<close>

datatype close_pc = NotClosing | ClosingIncoming | CloseDone

record peer =
  pr_incoming :: "bytes list"
  pr_chan_closed :: bool
  pr_inc_closed :: bool
  pr_closed :: bool
  pr_close_pc :: close_pc
  pr_delivering :: "bytes option"
  pr_open :: bool
  pr_candidates :: "bytes list"
  pr_bytes_received :: int
  pr_panicked :: bool
  pr_arrived :: "bytes list"
  pr_read :: "bytes list"

definition incoming_capacity :: nat where "incoming_capacity = 32"
definition candidate_capacity :: nat where "candidate_capacity = 64"

definition new_peer :: peer where
  "new_peer =
     \<lparr>pr_incoming = [], pr_chan_closed = False, pr_inc_closed = False, pr_closed = False,
      pr_close_pc = NotClosing, pr_delivering = None, pr_open = False, pr_candidates = [],
      pr_bytes_received = 0, pr_panicked = False, pr_arrived = [], pr_read = []\<rparr>"

section \<open>Operations\<close>

definition close_incoming :: "peer \<Rightarrow> peer" where
  "close_incoming p =
     (if pr_inc_closed p then p else p\<lparr>pr_inc_closed := True, pr_chan_closed := True\<rparr>)"

text \<open>\<open>OnMessage\<close> up to the first part of \<open>deliver\<close>.\<close>

definition on_message :: "bytes \<Rightarrow> peer \<Rightarrow> peer" where
  "on_message data p =
     (let p1 = p\<lparr>pr_bytes_received := pr_bytes_received p + int (length data), pr_arrived := pr_arrived p @ [data]\<rparr>
      in if pr_inc_closed p1 then p1 else p1\<lparr>pr_delivering := Some data\<rparr>)"

definition on_ice_candidate :: "bytes option \<Rightarrow> peer \<Rightarrow> peer" where
  "on_ice_candidate c p =
     (case c of
        None \<Rightarrow> p
      | Some d \<Rightarrow>
          if length (pr_candidates p) < candidate_capacity then p\<lparr>pr_candidates := pr_candidates p @ [d]\<rparr> else p)"

definition begin_close :: "peer \<Rightarrow> peer" where
  "begin_close p = p\<lparr>pr_closed := True, pr_close_pc := ClosingIncoming\<rparr>"

text \<open>\<open>OnConnectionStateChange\<close>: \<open>closeOnce\<close> makes a second \<open>Close\<close> do nothing.\<close>

datatype conn_state = ConnNew | Connecting | Connected | Disconnected | ConnFailed | ConnClosed

definition on_state_change :: "conn_state \<Rightarrow> peer \<Rightarrow> peer" where
  "on_state_change st p =
     (if (st = ConnFailed \<or> st = ConnClosed) \<and> pr_close_pc p = NotClosing then begin_close p else p)"

text \<open>
  The steps.  In the \<open>select\<close> of \<open>deliver\<close> a case is taken if it is ready; sending on a closed
  channel is ready, and panics.
\<close>

inductive peer_step :: "peer \<Rightarrow> peer \<Rightarrow> bool" where
  arrive: "\<not> pr_panicked p \<Longrightarrow> pr_delivering p = None \<Longrightarrow> peer_step p (on_message data p)"
| enqueue: "\<not> pr_panicked p \<Longrightarrow> pr_delivering p = Some data \<Longrightarrow> \<not> pr_chan_closed p \<Longrightarrow>
     length (pr_incoming p) < incoming_capacity \<Longrightarrow>
     peer_step p (p\<lparr>pr_incoming := pr_incoming p @ [data], pr_delivering := None\<rparr>)"
| skip: "\<not> pr_panicked p \<Longrightarrow> pr_delivering p = Some data \<Longrightarrow> pr_closed p \<Longrightarrow>
     peer_step p (p\<lparr>pr_delivering := None\<rparr>)"
| panic: "\<not> pr_panicked p \<Longrightarrow> pr_delivering p = Some data \<Longrightarrow> pr_chan_closed p \<Longrightarrow>
     peer_step p (p\<lparr>pr_panicked := True\<rparr>)"
| close: "\<not> pr_panicked p \<Longrightarrow> pr_close_pc p = NotClosing \<Longrightarrow> peer_step p (begin_close p)"
| closed: "\<not> pr_panicked p \<Longrightarrow> pr_close_pc p = ClosingIncoming \<Longrightarrow>
     peer_step p (close_incoming p\<lparr>pr_close_pc := CloseDone\<rparr>)"
| on_close: "\<not> pr_panicked p \<Longrightarrow> peer_step p (close_incoming p)"
| on_open: "\<not> pr_panicked p \<Longrightarrow> peer_step p (p\<lparr>pr_open := True\<rparr>)"
| candidate: "\<not> pr_panicked p \<Longrightarrow> peer_step p (on_ice_candidate c p)"
| state_change: "\<not> pr_panicked p \<Longrightarrow> peer_step p (on_state_change st p)"
| read: "\<not> pr_panicked p \<Longrightarrow> pr_incoming p = data # rest \<Longrightarrow>
     peer_step p (p\<lparr>pr_incoming := rest, pr_read := pr_read p @ [data]\<rparr>)"

inductive_cases peer_stepE: "peer_step p p'"

definition peer_reachable :: "peer \<Rightarrow> bool" where
  "peer_reachable p = peer_step\<^sup>*\<^sup>* new_peer p"

subsection \<open>Sending and waiting\<close>

datatype peer_error = PeerClosed | ClosedBeforeOpen | ContextDone | ChannelSend

text \<open>
  The polling loops of \<open>Send\<close> and \<open>WaitDrain\<close>: each poll sees the buffered amount and how its
  wait ends, by the timer or by the peer's closing.  \<open>None\<close>: still waiting when the script ends.
\<close>

fun wait_below :: "int \<Rightarrow> (int \<times> bool) list \<Rightarrow> (peer_error + unit) option" where
  "wait_below mark [] = None"
| "wait_below mark ((amount, peerClosed) # polls) =
     (if amount \<le> mark then Some (Inr ())
      else if peerClosed then Some (Inl PeerClosed)
      else wait_below mark polls)"

definition default_high_mark :: int where "default_high_mark = push_bit 20 8"

definition high_mark :: "int \<Rightarrow> int" where
  "high_mark configured = (if configured = 0 then default_high_mark else configured)"

definition peer_send ::
  "int \<Rightarrow> (int \<times> bool) list \<Rightarrow> bool \<Rightarrow> bytes \<Rightarrow> int \<Rightarrow> ((peer_error + unit) \<times> int) option" where
  "peer_send mark polls send_ok data bytesSent =
     (case wait_below mark polls of
        None \<Rightarrow> None
      | Some (Inl e) \<Rightarrow> Some (Inl e, bytesSent)
      | Some (Inr _) \<Rightarrow>
          if send_ok then Some (Inr (), bytesSent + int (length data)) else Some (Inl ChannelSend, bytesSent))"

text \<open>\<open>WaitDrain\<close>: each poll also sees the time; it returns in any case.\<close>

fun wait_drain :: "int \<Rightarrow> (int \<times> int \<times> bool) list \<Rightarrow> nat option" where
  "wait_drain deadline [] = None"
| "wait_drain deadline ((amount, now, peerClosed) # polls) =
     (if amount \<le> 0 \<or> now > deadline \<or> peerClosed then Some 0
      else map_option Suc (wait_drain deadline polls))"

text \<open>The outcomes \<open>WaitOpen\<close> can have: one for each channel that is ready.\<close>

definition wait_open :: "bool \<Rightarrow> peer \<Rightarrow> (peer_error + unit) set" where
  "wait_open ctxDone p =
     {r. r = Inr () \<and> pr_open p} \<union> {r. r = Inl ContextDone \<and> ctxDone} \<union> {r. r = Inl ClosedBeforeOpen \<and> pr_closed p}"

definition is_open :: "peer \<Rightarrow> bool" where
  "is_open p = pr_open p"

section \<open>Invariants\<close>

definition in_flight :: "peer \<Rightarrow> bytes list" where
  "in_flight p = pr_read p @ pr_incoming p @ (case pr_delivering p of None \<Rightarrow> [] | Some d \<Rightarrow> [d])"

definition peer_inv :: "peer \<Rightarrow> bool" where
  "peer_inv p \<longleftrightarrow>
     length (pr_incoming p) \<le> incoming_capacity \<and> length (pr_candidates p) \<le> candidate_capacity \<and>
     pr_chan_closed p = pr_inc_closed p \<and> pr_closed p = (pr_close_pc p \<noteq> NotClosing) \<and>
     (pr_close_pc p = CloseDone \<longrightarrow> pr_inc_closed p) \<and>
     (pr_panicked p \<longrightarrow> pr_inc_closed p) \<and>
     subseq (in_flight p) (pr_arrived p) \<and>
     (\<not> pr_closed p \<and> \<not> pr_inc_closed p \<longrightarrow> in_flight p = pr_arrived p) \<and>
     pr_bytes_received p = sum_list (map (\<lambda>d. int (length d)) (pr_arrived p))"

lemma subseq_drop_middle: "subseq (a @ b @ c) xs \<Longrightarrow> subseq (a @ b) xs"
  by (metis append_assoc prefix_imp_subseq prefixI subseq_order.trans)

lemma peer_step_inv: "peer_step p p' \<Longrightarrow> peer_inv p \<Longrightarrow> peer_inv p'"
proof (induction rule: peer_step.induct)
  case (arrive p data)
  then have "subseq (in_flight p @ [data]) (pr_arrived p @ [data])" "subseq (in_flight p) (pr_arrived p @ [data])"
    by (auto simp: peer_inv_def intro: subseq_order.trans)
  with arrive show ?case
    by (auto simp: peer_inv_def on_message_def in_flight_def Let_def)
next
  case (skip p data)
  then show ?case
    using subseq_drop_middle [of "pr_read p" "pr_incoming p" "[data]" "pr_arrived p"]
    by (auto simp: peer_inv_def in_flight_def)
next
  case (candidate p c)
  then show ?case
    by (auto simp: peer_inv_def in_flight_def on_ice_candidate_def split: option.split)
qed (auto simp: peer_inv_def in_flight_def begin_close_def close_incoming_def on_state_change_def)

lemma peer_reachable_inv: "peer_reachable p \<Longrightarrow> peer_inv p"
  unfolding peer_reachable_def
proof (induction rule: rtranclp_induct)
  case base
  show ?case by (simp add: peer_inv_def new_peer_def in_flight_def)
next
  case (step p p')
  then show ?case using peer_step_inv by blast
qed

section \<open>Sample states\<close>

lemma reach_step: "peer_reachable p \<Longrightarrow> peer_step p p' \<Longrightarrow> peer_reachable p'"
  unfolding peer_reachable_def by (rule rtranclp.rtrancl_into_rtrancl)

lemma reach_new [simp]: "peer_reachable new_peer"
  by (simp add: peer_reachable_def)

definition one_arrived :: "bytes \<Rightarrow> peer" where
  "one_arrived data = on_message data new_peer"

lemma one_arrived_reachable: "peer_reachable (one_arrived data)"
  unfolding one_arrived_def by (rule reach_step [OF reach_new arrive]) (simp_all add: new_peer_def)

text \<open>\<open>Close\<close> runs to its end while a message waits at the \<open>select\<close>.\<close>

definition closed_under :: "bytes \<Rightarrow> peer" where
  "closed_under data = close_incoming (begin_close (one_arrived data))\<lparr>pr_close_pc := CloseDone\<rparr>"

lemma closed_under_reachable: "peer_reachable (closed_under data)"
proof -
  have "peer_reachable (begin_close (one_arrived data))"
    by (rule reach_step [OF one_arrived_reachable peer_step.close])
      (simp_all add: one_arrived_def on_message_def new_peer_def Let_def)
  then show ?thesis
    unfolding closed_under_def
    by (rule reach_step [OF _ peer_step.closed])
      (simp_all add: begin_close_def one_arrived_def on_message_def new_peer_def Let_def)
qed

section \<open>Properties\<close>

text \<open>
  C36: In every reachable state of the data channel the buffers are within their capacities,
  the channel is closed exactly when the flag says so, every byte that arrived is counted,
  and what was read, is buffered and is being delivered is what arrived, in order: all of it
  until the peer is closed, and after that still a subsequence.
\<close>

theorem peer_delivers_in_order:
  assumes "peer_reachable p"
  shows "length (pr_incoming p) \<le> 32 \<and> length (pr_candidates p) \<le> 64 \<and>
     pr_chan_closed p = pr_inc_closed p \<and>
     pr_bytes_received p = sum_list (map (\<lambda>d. int (length d)) (pr_arrived p)) \<and>
     subseq (in_flight p) (pr_arrived p) \<and>
     (pr_closed p \<or> pr_inc_closed p \<or> in_flight p = pr_arrived p)"
  using peer_reachable_inv [OF assms]
  by (auto simp: peer_inv_def incoming_capacity_def candidate_capacity_def)

theorem peer_delivers_in_order_witness:
  "in_flight (one_arrived [1, 2]) = [[1, 2]] \<and> pr_bytes_received (one_arrived [1, 2]) = 2"
  using peer_delivers_in_order [OF one_arrived_reachable [of "[1, 2]"]]
  by (simp add: one_arrived_def on_message_def new_peer_def Let_def)

text \<open>
  C37: The program panics exactly by sending on the closed channel: there is a run in which a
  message passes the test in \<open>deliver\<close>, \<open>Close\<close> then runs to its end, and the \<open>select\<close> takes the
  send; and whatever the run, a panic needs the channel to be closed, so that it cannot happen
  as long as neither \<open>Close\<close> nor the close callback has run.
\<close>

theorem deliver_close_race:
  "(\<exists>p. peer_reachable p \<and> pr_panicked p \<and> pr_delivering p = Some data \<and> pr_close_pc p = CloseDone) \<and>
   (\<nexists>p. peer_reachable p \<and> pr_panicked p \<and> \<not> pr_inc_closed p)"
proof
  let ?p = "closed_under data\<lparr>pr_panicked := True\<rparr>"
  have "peer_reachable ?p"
    by (rule reach_step [OF closed_under_reachable peer_step.panic])
      (simp_all add: closed_under_def close_incoming_def begin_close_def one_arrived_def on_message_def new_peer_def Let_def)
  moreover have "pr_delivering ?p = Some data" "pr_close_pc ?p = CloseDone"
    by (simp_all add: closed_under_def close_incoming_def begin_close_def one_arrived_def on_message_def new_peer_def Let_def)
  ultimately show "\<exists>p. peer_reachable p \<and> pr_panicked p \<and> pr_delivering p = Some data \<and> pr_close_pc p = CloseDone"
    by (intro exI [of _ ?p]) simp
  show "\<nexists>p. peer_reachable p \<and> pr_panicked p \<and> \<not> pr_inc_closed p"
    using peer_reachable_inv by (auto simp: peer_inv_def)
qed

end
