(* ===== verification/PeerSetup.thy ===== *)
theory PeerSetup
  imports Peer Signaling
begin

text \<open>
  Setting up a peer connection (\<open>internal/p2p/peer.go\<close>): \<open>NewPeer\<close> and the exchange of session
  descriptions, and how the negotiation of \<open>Signaling\<close> rests on them.  The WebRTC library is a record of functions on its connection; \<open>webrtc_ok\<close> states
  the signaling states that JSEP (RFC 9429) prescribes for it.
\<close>

section \<open>The library\<close>

datatype sdp_kind = OfferSDP | AnswerSDP

text \<open>A call that can fail gives \<open>None\<close> or \<open>False\<close>.\<close>

record ('w, 'c) webrtc =
  wr_new :: "string list \<Rightarrow> 'w option"
  wr_channel :: "'w \<Rightarrow> bool \<times> 'w"
  wr_close :: "'w \<Rightarrow> 'w"
  wr_create_offer :: "'w \<Rightarrow> string option \<times> 'w"
  wr_create_answer :: "'w \<Rightarrow> string option \<times> 'w"
  wr_set_local :: "sdp_kind \<Rightarrow> string \<Rightarrow> 'w \<Rightarrow> bool \<times> 'w"
  wr_set_remote :: "sdp_kind \<Rightarrow> string \<Rightarrow> 'w \<Rightarrow> bool \<times> 'w"
  wr_decode_candidate :: "bytes \<Rightarrow> 'c option"
  wr_add_candidate :: "'c \<Rightarrow> 'w \<Rightarrow> bool \<times> 'w"

datatype setup_error = NewFailed | ChannelFailed | WrongRole | CallFailed | BadCandidate

section \<open>\<open>NewPeer\<close>\<close>

definition default_ice_servers :: "string list" where
  "default_ice_servers =
     [''stun:stun.l.google.com:19302'', ''stun:stun1.l.google.com:19302'', ''stun:stun.cloudflare.com:3478'']"

text \<open>A configuration: the servers (\<open>None\<close> is \<open>nil\<close>) and the mark of the send buffer.\<close>

record peer_config =
  pc_ice_servers :: "string list option"
  pc_high_mark :: int

definition with_defaults :: "peer_config \<Rightarrow> peer_config" where
  "with_defaults cfg =
     \<lparr>pc_ice_servers = Some (case pc_ice_servers cfg of None \<Rightarrow> default_ice_servers | Some s \<Rightarrow> s),
      pc_high_mark = high_mark (pc_high_mark cfg)\<rparr>"

text \<open>A connection, its data channel as a transition system, its role and its configuration.\<close>

record 'w connection =
  cn_pc :: 'w
  cn_peer :: peer
  cn_role :: role
  cn_cfg :: peer_config

text \<open>The second component is a connection that was made and then closed.\<close>

definition new_peer_connection ::
  "('w, 'c) webrtc \<Rightarrow> role \<Rightarrow> peer_config \<Rightarrow> (setup_error + 'w connection) \<times> 'w option" where
  "new_peer_connection R r cfg0 =
     (let cfg = with_defaults cfg0
      in case wr_new R (the (pc_ice_servers cfg)) of
        None \<Rightarrow> (Inl NewFailed, None)
      | Some pc \<Rightarrow>
          (case wr_channel R pc of
             (False, pc1) \<Rightarrow> (Inl ChannelFailed, Some (wr_close R pc1))
           | (True, pc1) \<Rightarrow> (Inr \<lparr>cn_pc = pc1, cn_peer = new_peer, cn_role = r, cn_cfg = cfg\<rparr>, None)))"

section \<open>Offer and answer\<close>

definition peer_create_offer :: "('w, 'c) webrtc \<Rightarrow> 'w connection \<Rightarrow> (setup_error + string) \<times> 'w connection" where
  "peer_create_offer R c =
     (if cn_role c \<noteq> RoleOfferer then (Inl WrongRole, c)
      else case wr_create_offer R (cn_pc c) of
        (None, pc1) \<Rightarrow> (Inl CallFailed, c\<lparr>cn_pc := pc1\<rparr>)
      | (Some offer, pc1) \<Rightarrow>
          (case wr_set_local R OfferSDP offer pc1 of
             (ok, pc2) \<Rightarrow> (if ok then Inr offer else Inl CallFailed, c\<lparr>cn_pc := pc2\<rparr>)))"

definition peer_set_remote_offer :: "('w, 'c) webrtc \<Rightarrow> string \<Rightarrow> 'w connection \<Rightarrow> (setup_error + string) \<times> 'w connection" where
  "peer_set_remote_offer R sdp c =
     (if cn_role c \<noteq> RoleAnswerer then (Inl WrongRole, c)
      else case wr_set_remote R OfferSDP sdp (cn_pc c) of
        (False, pc1) \<Rightarrow> (Inl CallFailed, c\<lparr>cn_pc := pc1\<rparr>)
      | (True, pc1) \<Rightarrow>
          (case wr_create_answer R pc1 of
             (None, pc2) \<Rightarrow> (Inl CallFailed, c\<lparr>cn_pc := pc2\<rparr>)
           | (Some answer, pc2) \<Rightarrow>
               (case wr_set_local R AnswerSDP answer pc2 of
                  (ok, pc3) \<Rightarrow> (if ok then Inr answer else Inl CallFailed, c\<lparr>cn_pc := pc3\<rparr>))))"

definition peer_set_remote_answer :: "('w, 'c) webrtc \<Rightarrow> string \<Rightarrow> 'w connection \<Rightarrow> (setup_error + unit) \<times> 'w connection" where
  "peer_set_remote_answer R sdp c =
     (case wr_set_remote R AnswerSDP sdp (cn_pc c) of
        (ok, pc1) \<Rightarrow> (if ok then Inr () else Inl CallFailed, c\<lparr>cn_pc := pc1\<rparr>))"

definition peer_add_ice_candidate :: "('w, 'c) webrtc \<Rightarrow> bytes \<Rightarrow> 'w connection \<Rightarrow> (setup_error + unit) \<times> 'w connection" where
  "peer_add_ice_candidate R raw c =
     (case wr_decode_candidate R raw of
        None \<Rightarrow> (Inl BadCandidate, c)
      | Some cand \<Rightarrow>
          (case wr_add_candidate R cand (cn_pc c) of
             (ok, pc1) \<Rightarrow> (if ok then Inr () else Inl CallFailed, c\<lparr>cn_pc := pc1\<rparr>)))"

section \<open>What the exchange achieves\<close>

datatype signaling = Stable | HaveLocalOffer | HaveRemoteOffer | ClosedState

text \<open>
  The documented behaviour: in the signaling states in which JSEP allows a call, it succeeds and
  moves to the next state, recording the local and the remote description.
\<close>

definition webrtc_ok :: "('w, 'c) webrtc \<Rightarrow> ('w \<Rightarrow> signaling \<times> string option \<times> string option) \<Rightarrow> bool" where
  "webrtc_ok R sig \<longleftrightarrow>
     (\<forall>w l r. sig w = (Stable, l, r) \<longrightarrow>
        (\<exists>sdp w'. wr_create_offer R w = (Some sdp, w') \<and> sig w' = sig w) \<and>
        (\<forall>sdp. \<exists>w'. wr_set_local R OfferSDP sdp w = (True, w') \<and> sig w' = (HaveLocalOffer, Some sdp, r)) \<and>
        (\<forall>sdp. \<exists>w'. wr_set_remote R OfferSDP sdp w = (True, w') \<and> sig w' = (HaveRemoteOffer, l, Some sdp))) \<and>
     (\<forall>w l r. sig w = (HaveRemoteOffer, l, r) \<longrightarrow>
        (\<exists>sdp w'. wr_create_answer R w = (Some sdp, w') \<and> sig w' = sig w) \<and>
        (\<forall>sdp. \<exists>w'. wr_set_local R AnswerSDP sdp w = (True, w') \<and> sig w' = (Stable, Some sdp, r))) \<and>
     (\<forall>w l r sdp. sig w = (HaveLocalOffer, l, r) \<longrightarrow>
        (\<exists>w'. wr_set_remote R AnswerSDP sdp w = (True, w') \<and> sig w' = (Stable, l, Some sdp)))"

lemma offer_stable:
  assumes "webrtc_ok R sig" and "sig (cn_pc a) = (Stable, None, None)" and "cn_role a = RoleOfferer"
  obtains offer a1 where "peer_create_offer R a = (Inr offer, a1)" and "sig (cn_pc a1) = (HaveLocalOffer, Some offer, None)"
proof -
  obtain offer w1 where o: "wr_create_offer R (cn_pc a) = (Some offer, w1)" "sig w1 = (Stable, None, None)"
    using assms(1,2) unfolding webrtc_ok_def by metis
  then obtain w2 where "wr_set_local R OfferSDP offer w1 = (True, w2)" "sig w2 = (HaveLocalOffer, Some offer, None)"
    using assms(1) unfolding webrtc_ok_def by metis
  with o assms(3) that [of offer "a\<lparr>cn_pc := w2\<rparr>"] show thesis by (simp add: peer_create_offer_def)
qed

lemma remote_offer_stable:
  assumes "webrtc_ok R sig" and "sig (cn_pc b) = (Stable, None, None)" and "cn_role b = RoleAnswerer"
  obtains answer b1 where "peer_set_remote_offer R offer b = (Inr answer, b1)"
    and "sig (cn_pc b1) = (Stable, Some answer, Some offer)"
proof -
  obtain w1 where r: "wr_set_remote R OfferSDP offer (cn_pc b) = (True, w1)" "sig w1 = (HaveRemoteOffer, None, Some offer)"
    using assms(1,2) unfolding webrtc_ok_def by metis
  then obtain answer w2 where a: "wr_create_answer R w1 = (Some answer, w2)" "sig w2 = (HaveRemoteOffer, None, Some offer)"
    using assms(1) unfolding webrtc_ok_def by metis
  then obtain w3 where "wr_set_local R AnswerSDP answer w2 = (True, w3)" "sig w3 = (Stable, Some answer, Some offer)"
    using assms(1) unfolding webrtc_ok_def by metis
  with r a assms(3) that [of answer "b\<lparr>cn_pc := w3\<rparr>"] show thesis by (simp add: peer_set_remote_offer_def)
qed

text \<open>A peer in the wrong role does not touch its connection.\<close>

lemma wrong_role:
  "cn_role c = RoleAnswerer \<Longrightarrow> peer_create_offer R c = (Inl WrongRole, c)"
  "cn_role c = RoleOfferer \<Longrightarrow> peer_set_remote_offer R sdp c = (Inl WrongRole, c)"
  by (simp_all add: peer_create_offer_def peer_set_remote_offer_def)

text \<open>A failed set-up leaves no open connection: a connection that was made is closed again.\<close>

lemma new_peer_closes:
  "new_peer_connection R r cfg = (Inl e, closed) \<Longrightarrow>
     closed = (case wr_new R (the (pc_ice_servers (with_defaults cfg))) of
       None \<Rightarrow> None | Some pc \<Rightarrow> Some (wr_close R (snd (wr_channel R pc))))"
  by (auto simp: new_peer_connection_def Let_def split: option.splits prod.splits bool.splits)

text \<open>
  What the peer operations of a library answer, as the negotiations of \<open>Signaling\<close> ask them: the
  role checks there and here are the same, and on a library that follows JSEP nothing fails.
\<close>

definition rtc_answers :: "('w, 'c) webrtc \<Rightarrow> 'w connection \<Rightarrow> 'w connection \<Rightarrow> rtc" where
  "rtc_answers R a b =
     \<lparr>rtc_new_peer = True,
      rtc_create_offer = (case peer_create_offer R a of (Inr sdp, _) \<Rightarrow> Some sdp | _ \<Rightarrow> None),
      rtc_answer_offer = (\<lambda>sdp. case peer_set_remote_offer R sdp b of (Inr answer, _) \<Rightarrow> Some answer | _ \<Rightarrow> None),
      rtc_set_answer = (\<lambda>sdp. fst (peer_set_remote_answer R sdp (snd (peer_create_offer R a))) = Inr ())\<rparr>"

lemma negotiations_ask_peers:
  assumes "cn_role a = RoleOfferer" and "cn_role b = RoleAnswerer"
  shows "create_offer RoleOfferer (rtc_answers R a b) =
      (case peer_create_offer R a of (Inr sdp, _) \<Rightarrow> Inr sdp | _ \<Rightarrow> Inl OfferFailed)"
    and "set_remote_offer RoleAnswerer (rtc_answers R a b) sdp =
      (case peer_set_remote_offer R sdp b of (Inr answer, _) \<Rightarrow> Inr answer | _ \<Rightarrow> Inl AnswerFailed)"
  by (auto simp: create_offer_def set_remote_offer_def rtc_answers_def split: prod.split sum.split)

lemma rtc_answers_ok:
  assumes "webrtc_ok R sig" and "cn_role a = RoleOfferer" and "cn_role b = RoleAnswerer"
    and "sig (cn_pc a) = (Stable, None, None)" and "sig (cn_pc b) = (Stable, None, None)"
  shows "rtc_create_offer (rtc_answers R a b) \<noteq> None" and "rtc_answer_offer (rtc_answers R a b) sdp \<noteq> None"
    and "rtc_set_answer (rtc_answers R a b) sdp"
proof -
  obtain offer a1 where a1: "peer_create_offer R a = (Inr offer, a1)" "sig (cn_pc a1) = (HaveLocalOffer, Some offer, None)"
    using offer_stable [OF assms(1,4,2)] by blast
  then show "rtc_create_offer (rtc_answers R a b) \<noteq> None" by (simp add: rtc_answers_def)
  obtain answer b1 where "peer_set_remote_offer R sdp b = (Inr answer, b1)"
    using remote_offer_stable [OF assms(1,5,3)] by blast
  then show "rtc_answer_offer (rtc_answers R a b) sdp \<noteq> None" by (simp add: rtc_answers_def)
  obtain w where "wr_set_remote R AnswerSDP sdp (cn_pc a1) = (True, w)"
    using assms(1) a1(2) unfolding webrtc_ok_def by metis
  then show "rtc_set_answer (rtc_answers R a b) sdp" using a1 by (simp add: rtc_answers_def peer_set_remote_answer_def)
qed

section \<open>Property\<close>


text \<open>A library whose connection is its signaling state.\<close>

definition sample_webrtc :: "(signaling \<times> string option \<times> string option, bytes) webrtc" where
  "sample_webrtc =
     \<lparr>wr_new = (\<lambda>_. Some (Stable, None, None)), wr_channel = (\<lambda>w. (True, w)), wr_close = (\<lambda>(_, l, r). (ClosedState, l, r)),
      wr_create_offer = (\<lambda>w. (Some ''offer'', w)), wr_create_answer = (\<lambda>w. (Some ''answer'', w)),
      wr_set_local = (\<lambda>k sdp (st, l, r).
        if k = OfferSDP \<and> st = Stable then (True, HaveLocalOffer, Some sdp, r)
        else if k = AnswerSDP \<and> st = HaveRemoteOffer then (True, Stable, Some sdp, r) else (False, st, l, r)),
      wr_set_remote = (\<lambda>k sdp (st, l, r).
        if k = OfferSDP \<and> st = Stable then (True, HaveRemoteOffer, l, Some sdp)
        else if k = AnswerSDP \<and> st = HaveLocalOffer then (True, Stable, l, Some sdp) else (False, st, l, r)),
      wr_decode_candidate = Some, wr_add_candidate = (\<lambda>_ w. (True, w))\<rparr>"

definition sample_connection :: "role \<Rightarrow> (signaling \<times> string option \<times> string option) connection" where
  "sample_connection r =
     \<lparr>cn_pc = (Stable, None, None), cn_peer = new_peer, cn_role = r,
      cn_cfg = with_defaults \<lparr>pc_ice_servers = None, pc_high_mark = 0\<rparr>\<rparr>"


end
