(* ===== verification/Update.thy ===== *)
theory Update
  imports FileSys GoStrings
begin

text \<open>
  \<open>cmd/drop/update.go\<close>: replacing the running binary by the latest release.  The HTTP answers,
  the path of the executable and the \<open>sudo\<close> command are arguments; the file operations run on
  the file system with faults.
\<close>

section \<open>Definitions\<close>

text \<open>The tag is the last element of the redirect's \<open>Location\<close>; \<open>None\<close> is a failed request.\<close>

definition latest_tag :: "string option \<Rightarrow> string" where
  "latest_tag location =
     (case location of None \<Rightarrow> [] | Some loc \<Rightarrow> last (split_on CHR ''/'' loc))"

definition version_label :: "string \<Rightarrow> string" where
  "version_label tag = (if tag = [] then ''latest'' else tag)"

definition copy_file :: "path \<Rightarrow> path \<Rightarrow> filesys \<Rightarrow> (os_error + unit) \<times> filesys" where
  "copy_file src dst fs =
     (case os_read_file src fs of
        (Inl e, fs1) \<Rightarrow> (Inl e, fs1)
      | (Inr c, fs1) \<Rightarrow> os_write_file dst c fs1)"

datatype update_error =
    DownloadFailed
  | DownloadStatus int
  | NoExecutable
  | PathNotResolved
  | TempNotWritten os_error
  | OldNotMoved os_error
  | MoveFailed os_error
  | SudoFailed

text \<open>
  Windows: the old binary is moved aside first.  A failed move is followed by a copy, and a
  failed copy by an attempt to move the old binary back.
\<close>

definition replace_windows :: "path \<Rightarrow> path \<Rightarrow> filesys \<Rightarrow> (update_error + unit) \<times> filesys" where
  "replace_windows tmpPath execPath fs =
     (let old_path = execPath @ ''.old'';
          fs1 = snd (os_remove old_path fs)
      in case os_rename execPath old_path fs1 of
           (Inl e, fs2) \<Rightarrow> (Inl (OldNotMoved e), snd (os_remove tmpPath fs2))
         | (Inr _, fs2) \<Rightarrow>
             (case os_rename tmpPath execPath fs2 of
                (Inr _, fs3) \<Rightarrow> (Inr (), fs3)
              | (Inl _, fs3) \<Rightarrow>
                  (case copy_file tmpPath execPath fs3 of
                     (Inl e, fs4) \<Rightarrow>
                       (Inl (MoveFailed e), snd (os_remove tmpPath (snd (os_rename old_path execPath fs4))))
                   | (Inr _, fs4) \<Rightarrow> (Inr (), snd (os_remove tmpPath fs4)))))"

text \<open>Elsewhere: the old binary is removed; only if that fails is \<open>sudo\<close> asked.\<close>

definition replace_unix ::
  "(path \<Rightarrow> path \<Rightarrow> filesys \<Rightarrow> bool \<times> filesys) \<Rightarrow> path \<Rightarrow> path \<Rightarrow> filesys \<Rightarrow> (update_error + unit) \<times> filesys" where
  "replace_unix sudo tmpPath execPath fs =
     (case os_remove execPath fs of
        (Inr _, fs1) \<Rightarrow>
          (case os_rename tmpPath execPath fs1 of
             (Inr _, fs2) \<Rightarrow> (Inr (), snd (os_remove tmpPath fs2))
           | (Inl _, fs2) \<Rightarrow>
               (case copy_file tmpPath execPath fs2 of
                  (Inl e, fs3) \<Rightarrow> (Inl (MoveFailed e), snd (os_remove tmpPath fs3))
                | (Inr _, fs3) \<Rightarrow> (Inr (), snd (os_remove tmpPath fs3))))
      | (Inl _, fs1) \<Rightarrow>
          (case sudo tmpPath execPath fs1 of
             (True, fs2) \<Rightarrow> (Inr (), fs2)
           | (False, fs2) \<Rightarrow> (Inl SudoFailed, snd (os_remove tmpPath fs2))))"

record update_env =
  ue_windows :: bool
  ue_response :: "(int \<times> bytes option) option"
  ue_executable :: "path option"
  ue_resolved :: "path option"
  ue_temp_dir :: path
  ue_sudo :: "path \<Rightarrow> path \<Rightarrow> filesys \<Rightarrow> bool \<times> filesys"

definition temp_binary :: "update_env \<Rightarrow> path" where
  "temp_binary E = join (ue_temp_dir E) (''drop-update'' @ (if ue_windows E then ''.exe'' else []))"

definition cmd_update :: "update_env \<Rightarrow> filesys \<Rightarrow> (update_error + unit) \<times> filesys" where
  "cmd_update E fs =
     (case ue_response E of
        None \<Rightarrow> (Inl DownloadFailed, fs)
      | Some (status, body) \<Rightarrow>
          if status \<noteq> 200 then (Inl (DownloadStatus status), fs)
          else case body of
            None \<Rightarrow> (Inl DownloadFailed, fs)
          | Some binary \<Rightarrow>
              (case ue_executable E of
                 None \<Rightarrow> (Inl NoExecutable, fs)
               | Some _ \<Rightarrow>
                   (case ue_resolved E of
                      None \<Rightarrow> (Inl PathNotResolved, fs)
                    | Some execPath \<Rightarrow>
                        (case os_write_file (temp_binary E) binary fs of
                           (Inl e, fs1) \<Rightarrow> (Inl (TempNotWritten e), fs1)
                         | (Inr _, fs1) \<Rightarrow>
                             if ue_windows E then replace_windows (temp_binary E) execPath fs1
                             else replace_unix (ue_sudo E) (temp_binary E) execPath fs1))))"

section \<open>What a successful call leaves\<close>

lemma next_fault_files: "fs_files (snd (next_fault fs)) = fs_files fs"
  by (simp add: next_fault_def split: list.split)

lemma os_rename_Inr:
  "os_rename a b fs = (Inr x, fs') \<Longrightarrow>
     fmlookup (fs_files fs') b = fmlookup (fs_files fs) a \<and> fmlookup (fs_files fs) a \<noteq> None"
  using next_fault_files [of fs]
  by (cases "next_fault fs") (auto simp: os_rename_def split: option.splits if_splits)

lemma os_rename_Inl: "os_rename a b fs = (Inl e, fs') \<Longrightarrow> fs_files fs' = fs_files fs"
  using next_fault_files [of fs]
  by (cases "next_fault fs") (auto simp: os_rename_def split: option.splits if_splits)

lemma os_remove_other: "p \<noteq> q \<Longrightarrow> fmlookup (fs_files (snd (os_remove p fs))) q = fmlookup (fs_files fs) q"
  using os_remove_same [of p fs] by (simp add: same_except_def)

lemma os_create_Inr: "os_create p fs = (Inr x, fs') \<Longrightarrow> fmlookup (fs_files fs') p = Some []"
  by (cases "next_fault fs") (auto simp: os_create_def split: option.splits if_splits)

lemma os_append_None:
  "os_append p c fs = ((n, None), fs') \<Longrightarrow> fmlookup (fs_files fs) p = Some d \<Longrightarrow>
     fmlookup (fs_files fs') p = Some (d @ c)"
  using next_fault_files [of fs]
  by (cases "next_fault fs") (auto simp: os_append_def Let_def split: option.splits)

lemma os_write_file_Inr:
  assumes "os_write_file p c fs = (Inr x, fs')"
  shows "fmlookup (fs_files fs') p = Some c"
proof -
  from assms obtain y fs1 n where "os_create p fs = (Inr y, fs1)" "os_append p c fs1 = ((n, None), fs')"
    by (auto simp: os_write_file_def split: prod.splits sum.splits option.splits)
  with os_create_Inr os_append_None show ?thesis by fastforce
qed

lemma copy_file_Inr:
  "copy_file a b fs = (Inr x, fs') \<Longrightarrow> fmlookup (fs_files fs') b = fmlookup (fs_files fs) a"
proof -
  assume c: "copy_file a b fs = (Inr x, fs')"
  then obtain d fs1 where r: "os_read_file a fs = (Inr d, fs1)" and w: "os_write_file b d fs1 = (Inr x, fs')"
    by (auto simp: copy_file_def split: prod.splits sum.splits)
  from r have "fmlookup (fs_files fs) a = Some d"
    using next_fault_files [of fs]
    by (cases "next_fault fs") (auto simp: os_read_file_def split: option.splits if_splits)
  with os_write_file_Inr [OF w] show ?thesis by simp
qed

lemma replace_windows_Inr:
  assumes "replace_windows t x fs = (Inr u, fs')" and "t \<noteq> x" and "t \<noteq> x @ ''.old''"
  shows "fmlookup (fs_files fs') x = fmlookup (fs_files fs) t"
proof -
  from assms(1) obtain fs2 where old: "os_rename x (x @ ''.old'') (snd (os_remove (x @ ''.old'') fs)) = (Inr (), fs2)"
    by (auto simp: replace_windows_def Let_def split: prod.splits sum.splits)
  have t: "fmlookup (fs_files fs2) t = fmlookup (fs_files fs) t"
    using os_rename_same [of x "x @ ''.old''" "snd (os_remove (x @ ''.old'') fs)"] old assms(2,3)
      os_remove_other [of "x @ ''.old''" t fs] by (simp add: same_except_def)
  show ?thesis
    using assms old t os_remove_other [of t x]
    by (auto simp: replace_windows_def Let_def split: prod.splits sum.splits
        dest!: os_rename_Inr os_rename_Inl copy_file_Inr)
qed

lemma replace_unix_Inr:
  assumes "replace_unix sudo t x fs = (Inr u, fs')" and "t \<noteq> x"
    and "\<forall>fs1 fs2. sudo t x fs1 = (True, fs2) \<longrightarrow> fmlookup (fs_files fs2) x = fmlookup (fs_files fs1) t"
  shows "fmlookup (fs_files fs') x = fmlookup (fs_files fs) t"
proof (cases "os_remove x fs")
  case (Pair r fs1)
  have t: "fmlookup (fs_files fs1) t = fmlookup (fs_files fs) t"
    using os_remove_other [of x t fs] Pair assms(2) by simp
  show ?thesis
    using assms Pair t os_remove_other [of t x]
    by (auto simp: replace_unix_def split: prod.splits sum.splits bool.splits
        dest!: os_rename_Inr os_rename_Inl copy_file_Inr)
qed

lemma early_errors:
  assumes "ue_resolved E = Some x" and "temp_binary E \<noteq> x" and "cmd_update E fs = (Inl e, fs')"
    and "\<forall>err. e \<noteq> MoveFailed err" and "e \<noteq> SudoFailed"
  shows "fmlookup (fs_files fs') x = fmlookup (fs_files fs) x"
proof -
  let ?t = "temp_binary E"
  have w: "fmlookup (fs_files (snd (os_write_file ?t b fs))) x = fmlookup (fs_files fs) x" for b
    using os_write_file_same [of ?t fs b] assms(2) by (simp add: same_except_def)
  have nu: "\<exists>err. e' = MoveFailed err \<or> e' = SudoFailed" if "replace_unix s ?t x f = (Inl e', f')" for s f e' f'
    using that by (auto simp: replace_unix_def split: prod.splits sum.splits bool.splits)
  have ww: "fmlookup (fs_files f') x = fmlookup (fs_files f) x"
    if r: "replace_windows ?t x f = (Inl e', f')" and n: "\<forall>err. e' \<noteq> MoveFailed err" for f e' f'
  proof -
    let ?f1 = "snd (os_remove (x @ ''.old'') f)"
    from r n obtain err fs2 where "os_rename x (x @ ''.old'') ?f1 = (Inl err, fs2)" "f' = snd (os_remove ?t fs2)"
      by (auto simp: replace_windows_def Let_def split: prod.splits sum.splits)
    then show ?thesis
      using os_rename_Inl os_remove_other [of ?t x fs2] os_remove_other [of "x @ ''.old''" x f] assms(2) by simp
  qed
  show ?thesis
    using assms nu ww w
    by (auto simp: cmd_update_def split: option.splits prod.splits sum.splits if_splits) (metis snd_conv)+
qed

section \<open>Properties\<close>

text \<open>A Unix system on which the move and then the copy fail.\<close>

definition losing_env :: update_env where
  "losing_env =
     \<lparr>ue_windows = False, ue_response = Some (200, Some [2]), ue_executable = Some ''/bin/drop'',
      ue_resolved = Some ''/bin/drop'', ue_temp_dir = ''/tmp'', ue_sudo = (\<lambda>_ _ fs. (False, fs))\<rparr>"

definition losing_disk :: filesys where
  "losing_disk =
     \<lparr>fs_files = fmupd ''/bin/drop'' [1] fmempty, fs_dirs = {||},
      fs_faults = [None, None, None, Some 0, None, Some 0, None]\<rparr>"

lemma losing_temp: "temp_binary losing_env = ''/tmp/drop-update''"
  by (simp add: temp_binary_def losing_env_def join_def clean_def rooted_def render_def clean_elems_def clean_step_def)



end
