(* ===== verification/GoFloat.thy ===== *)
theory GoFloat
  imports Complex_Main Prelude
begin

text \<open>
  Go's \<open>float64\<close> as far as the progress bars need it.  A finite value is the rational it stands
  for, and an operation is the exact one followed by the rounding of the format, an argument
  (\<open>rnd\<close>) of which only what IEEE 754 prescribes is used: it is monotone and leaves small
  integers alone.  What a conversion to an integer gives for a value out of range is up to
  the processor, an argument too (\<open>bad\<close>; on amd64 it is the least integer).
\<close>

section \<open>Definitions\<close>

datatype fl = NaN | PosInf | NegInf | Fin rat

type_synonym rounding = "rat \<Rightarrow> rat"

definition fl_of :: "rounding \<Rightarrow> int \<Rightarrow> fl" where
  "fl_of rnd n = Fin (rnd (of_int n))"

text \<open>Division, the divisor finite; an integer converts to a zero without a sign.\<close>

definition fl_div :: "rounding \<Rightarrow> fl \<Rightarrow> rat \<Rightarrow> fl" where
  "fl_div rnd x y =
     (case x of
        Fin a \<Rightarrow>
          if y = 0 then (if a = 0 then NaN else if a > 0 then PosInf else NegInf) else Fin (rnd (a / y))
      | NaN \<Rightarrow> NaN
      | PosInf \<Rightarrow> if y < 0 then NegInf else PosInf
      | NegInf \<Rightarrow> if y < 0 then PosInf else NegInf)"

text \<open>Multiplication by a positive constant.\<close>

definition fl_scale :: "rounding \<Rightarrow> fl \<Rightarrow> rat \<Rightarrow> fl" where
  "fl_scale rnd x k = (case x of Fin a \<Rightarrow> Fin (rnd (a * k)) | _ \<Rightarrow> x)"

definition fl_less :: "fl \<Rightarrow> rat \<Rightarrow> bool" where
  "fl_less x y = (case x of Fin a \<Rightarrow> a < y | NegInf \<Rightarrow> True | _ \<Rightarrow> False)"

definition fl_greater :: "fl \<Rightarrow> rat \<Rightarrow> bool" where
  "fl_greater x y = (case x of Fin a \<Rightarrow> a > y | PosInf \<Rightarrow> True | _ \<Rightarrow> False)"

definition toward_zero :: "rat \<Rightarrow> int" where
  "toward_zero x = (if x \<ge> 0 then \<lfloor>x\<rfloor> else \<lceil>x\<rceil>)"

definition int_range :: "int \<Rightarrow> bool" where
  "int_range n \<longleftrightarrow> - (2 ^ 63) \<le> n \<and> n < 2 ^ 63"

definition fl_int :: "int \<Rightarrow> fl \<Rightarrow> int" where
  "fl_int bad x = (case x of Fin a \<Rightarrow> if int_range (toward_zero a) then toward_zero a else bad | _ \<Rightarrow> bad)"

section \<open>Rounding\<close>

definition rounding_ok :: "rounding \<Rightarrow> bool" where
  "rounding_ok rnd \<longleftrightarrow>
     (\<forall>a b. a \<le> b \<longrightarrow> rnd a \<le> rnd b) \<and> (\<forall>n :: int. \<bar>n\<bar> \<le> 2 ^ 53 \<longrightarrow> rnd (of_int n) = of_int n) \<and>
     (\<forall>k :: nat. k \<le> 63 \<longrightarrow> rnd (2 ^ k) = 2 ^ k)"

lemma rounding_ok_id: "rounding_ok (\<lambda>x. x)"
  by (simp add: rounding_ok_def)

lemma rnd_mono: "rounding_ok rnd \<Longrightarrow> a \<le> b \<Longrightarrow> rnd a \<le> rnd b"
  by (simp add: rounding_ok_def)

lemma rnd_int: "rounding_ok rnd \<Longrightarrow> \<bar>n\<bar> \<le> 2 ^ 53 \<Longrightarrow> rnd (of_int n) = of_int n"
  by (simp add: rounding_ok_def)

lemma rnd_at_most:
  assumes "rounding_ok rnd" and "\<bar>n\<bar> \<le> 2 ^ 53" and "a \<le> of_int n"
  shows "rnd a \<le> of_int n"
  using rnd_mono [OF assms(1,3)] rnd_int [OF assms(1,2)] by simp

lemma rnd_at_least:
  assumes "rounding_ok rnd" and "\<bar>n\<bar> \<le> 2 ^ 53" and "of_int n \<le> a"
  shows "of_int n \<le> rnd a"
  using rnd_mono [OF assms(1,3)] rnd_int [OF assms(1,2)] by simp

lemma toward_zero_bounds: "of_int m \<le> x \<Longrightarrow> 0 \<le> m \<Longrightarrow> m \<le> toward_zero x"
  "x \<le> of_int n \<Longrightarrow> 0 \<le> x \<Longrightarrow> toward_zero x \<le> n"
proof -
  show "of_int m \<le> x \<Longrightarrow> 0 \<le> m \<Longrightarrow> m \<le> toward_zero x"
  proof -
    assume "of_int m \<le> x" "0 \<le> m"
    then have "0 \<le> x" by (meson of_int_0_le_iff order_trans)
    with \<open>of_int m \<le> x\<close> show ?thesis by (simp add: toward_zero_def le_floor_iff)
  qed
  show "x \<le> of_int n \<Longrightarrow> 0 \<le> x \<Longrightarrow> toward_zero x \<le> n"
    using floor_mono [of x "of_int n"] by (simp add: toward_zero_def)
qed

end
