(* ===== verification/KeyText.thy ===== *)
theory KeyText
  imports Crypto
begin

text \<open>
  Keys in links: \<open>KeyToBase64\<close> and \<open>KeyFromBase64\<close> of \<open>internal/crypto/crypto.go\<close>, with the
  unpadded URL alphabet of \<open>base64.RawURLEncoding\<close>.  The decoder skips line breaks and, not being
  strict, does not look at unused bits at the end.
\<close>

section \<open>Definitions\<close>

text \<open>The alphabet: upper case, lower case, digits, hyphen, underscore.\<close>

definition b64_char :: "nat \<Rightarrow> char" where
  "b64_char n =
     char_of (if n < 26 then n + 65 else if n < 52 then n + 71 else if n < 62 then n - 4
              else if n = 62 then 45 else 95)"

definition b64_value :: "char \<Rightarrow> nat option" where
  "b64_value c =
     (let n = of_char c :: nat
      in if 65 \<le> n \<and> n \<le> 90 then Some (n - 65)
         else if 97 \<le> n \<and> n \<le> 122 then Some (n - 71)
         else if 48 \<le> n \<and> n \<le> 57 then Some (n + 4)
         else if n = 45 then Some 62
         else if n = 95 then Some 63
         else None)"

fun key_to_base64 :: "bytes \<Rightarrow> string" where
  "key_to_base64 [] = []"
| "key_to_base64 [a] = (let n = unat a * 16 in [b64_char (n div 64), b64_char (n mod 64)])"
| "key_to_base64 [a, b] =
     (let n = unat a * 1024 + unat b * 4
      in [b64_char (n div 4096), b64_char (n div 64 mod 64), b64_char (n mod 64)])"
| "key_to_base64 (a # b # c # s) =
     (let n = unat a * 65536 + unat b * 256 + unat c
      in [b64_char (n div 262144), b64_char (n div 4096 mod 64), b64_char (n div 64 mod 64), b64_char (n mod 64)] @
         key_to_base64 s)"

fun from_digits :: "nat list \<Rightarrow> bytes option" where
  "from_digits [] = Some []"
| "from_digits [x] = None"
| "from_digits [x, y] = Some [word_of_nat ((x * 64 + y) div 16)]"
| "from_digits [x, y, z] =
     (let n = x * 4096 + y * 64 + z in Some [word_of_nat (n div 1024), word_of_nat (n div 4)])"
| "from_digits (x # y # z # u # s) =
     (let n = x * 262144 + y * 4096 + z * 64 + u
      in map_option (\<lambda>bs. word_of_nat (n div 65536) # word_of_nat (n div 256) # word_of_nat n # bs) (from_digits s))"

definition key_from_base64 :: "string \<Rightarrow> bytes option" where
  "key_from_base64 encoded =
     (let cs = filter (\<lambda>c. (of_char c :: nat) \<noteq> 10 \<and> (of_char c :: nat) \<noteq> 13) encoded;
          ds = map b64_value cs
      in if None \<in> set ds then None else from_digits (map the ds))"

section \<open>Facts\<close>

lemma b64_value_char:
  assumes "n < 64"
  shows "b64_value (b64_char n) = Some n" and "(of_char (b64_char n) :: nat) \<noteq> 10 \<and> (of_char (b64_char n) :: nat) \<noteq> 13"
  using assms by (auto simp: b64_value_def b64_char_def take_bit_nat_eq_self Let_def)

text \<open>The digits of an encoding.\<close>

fun key_digits :: "bytes \<Rightarrow> nat list" where
  "key_digits [] = []"
| "key_digits [a] = (let n = unat a * 16 in [n div 64, n mod 64])"
| "key_digits [a, b] = (let n = unat a * 1024 + unat b * 4 in [n div 4096, n div 64 mod 64, n mod 64])"
| "key_digits (a # b # c # s) =
     (let n = unat a * 65536 + unat b * 256 + unat c
      in [n div 262144, n div 4096 mod 64, n div 64 mod 64, n mod 64] @ key_digits s)"

lemma unat_byte: "unat (b :: byte) < 256"
  using unsigned_less [of b, where ?'a = nat] by simp

lemma key_to_digits: "key_to_base64 bs = map b64_char (key_digits bs)"
  by (induction bs rule: key_digits.induct) (simp_all add: Let_def)

lemma key_digits_small: "\<forall>d \<in> set (key_digits bs). d < 64"
proof (induction bs rule: key_digits.induct)
  case (2 a)
  then show ?case using unat_byte [of a] by (auto simp: Let_def)
next
  case (3 a b)
  then show ?case using unat_byte [of a] unat_byte [of b] by (auto simp: Let_def)
next
  case (4 a b c s)
  then show ?case using unat_byte [of a] unat_byte [of b] unat_byte [of c] by (auto simp: Let_def)
qed simp

lemma word_of_nat_byte: "n mod 256 = unat b \<Longrightarrow> (word_of_nat n :: byte) = b"
  by (simp add: word_unat_eq_iff unat_of_nat take_bit_eq_mod)

text \<open>Joining the digits again.\<close>

lemma join2: "n div 64 * 64 + n mod 64 = (n :: nat)"
  by (rule div_mult_mod_eq)

lemma join3: "n div 4096 * 4096 + n div 64 mod 64 * 64 + n mod 64 = (n :: nat)"
proof -
  have "n div 4096 = n div 64 div 64" by (simp flip: div_mult2_eq)
  with join2 [of n] join2 [of "n div 64"] show ?thesis by linarith
qed

lemma join4: "n div 262144 * 262144 + n div 4096 mod 64 * 4096 + n div 64 mod 64 * 64 + n mod 64 = (n :: nat)"
proof -
  have "n div 262144 = n div 4096 div 64" by (simp flip: div_mult2_eq)
  with join3 [of n] join2 [of "n div 4096"] show ?thesis by linarith
qed

lemma high_part: "b < k \<Longrightarrow> (a * k + b) div k = (a :: nat)"
  by simp

lemma from_key_digits: "from_digits (key_digits bs) = Some bs"
proof (induction bs rule: key_digits.induct)
  case (2 a)
  have "unat a * 16 div 16 = unat a" by simp
  with unat_byte [of a] show ?case
    by (simp only: key_digits.simps from_digits.simps Let_def join2) (simp add: word_of_nat_byte)
next
  case (3 a b)
  let ?n = "unat a * 1024 + unat b * 4"
  have "?n div 1024 = unat a" by (rule high_part) (use unat_byte [of b] in simp)
  moreover have "?n div 4 = unat a * 256 + unat b" by simp
  moreover have "unat a mod 256 = unat a" "(unat a * 256 + unat b) mod 256 = unat b"
    using unat_byte [of a] unat_byte [of b] by simp_all
  ultimately show ?case
    by (simp only: key_digits.simps from_digits.simps Let_def join3 word_of_nat_byte)
next
  case (4 a b c s)
  let ?n = "unat a * 65536 + unat b * 256 + unat c"
  have "?n div 65536 = unat a"
    unfolding add.assoc by (rule high_part) (use unat_byte [of b] unat_byte [of c] in simp)
  moreover have "?n div 256 = unat a * 256 + unat b" using unat_byte [of c] by simp
  moreover have "unat a mod 256 = unat a" "(unat a * 256 + unat b) mod 256 = unat b"
    using unat_byte [of a] unat_byte [of b] by simp_all
  moreover have "?n mod 256 = unat c"
  proof -
    have "?n = (unat a * 256 + unat b) * 256 + unat c" by simp
    then show ?thesis using unat_byte [of c] by (simp only: mod_mult_self3) simp
  qed
  ultimately show ?case
    by (simp only: key_digits.simps from_digits.simps Let_def join4 word_of_nat_byte append_Cons append_Nil 4
        option.simps)
qed simp

text \<open>A key survives its link, and its text is of the URL alphabet.\<close>

lemma key_text_roundtrip: "key_from_base64 (key_to_base64 key) = Some key"
proof -
  let ?ds = "key_digits key"
  have "filter (\<lambda>c. (of_char c :: nat) \<noteq> 10 \<and> (of_char c :: nat) \<noteq> 13) (map b64_char ?ds) = map b64_char ?ds"
    using key_digits_small [of key] b64_value_char(2) by (simp add: filter_id_conv)
  moreover have v: "map b64_value (map b64_char ?ds) = map Some ?ds"
    using key_digits_small [of key] b64_value_char(1) by simp
  have "None \<notin> set (map b64_value (map b64_char ?ds)) \<and> map the (map b64_value (map b64_char ?ds)) = ?ds"
    unfolding v by (simp add: o_def image_iff)
  ultimately show ?thesis
    by (simp only: key_from_base64_def key_to_digits from_key_digits Let_def) simp
qed

lemma key_text_length: "length (key_to_base64 key) = (length key * 4 + 2) div 3"
  by (induction key rule: key_digits.induct) (simp_all add: key_to_digits Let_def)

end
