(* ===== verification/Terminal.thy ===== *)
theory Terminal
  imports GoFloat Receiver KeyText
begin

text \<open>
  What the client prints that is computed: the progress line and the sizes of
  \<open>cmd/drop/ui.go\<close>, the bar of \<open>internal/progress\<close>, and the links with a key in their fragment.
  The formats of package \<open>fmt\<close> for floating point numbers are arguments.
\<close>

section \<open>Text\<close>

record float_format =
  ff_percent :: "fl \<Rightarrow> string"
  ff_one :: "fl \<Rightarrow> string"
  ff_two :: "fl \<Rightarrow> string"

datatype painted = Silent | Line string | RepeatPanic

text \<open>\<open>strings.Repeat\<close> panics on a negative count.\<close>

definition repeat_string :: "string \<Rightarrow> int \<Rightarrow> string option" where
  "repeat_string s n = (if n < 0 then None else Some (concat (replicate (nat n) s)))"

definition esc :: "string \<Rightarrow> string" where
  "esc s = char_of (27 :: nat) # s"

definition colorBrand :: string where "colorBrand = esc ''[38;2;255;79;0m''"
definition colorDim :: string where "colorDim = esc ''[2m''"
definition colorReset :: string where "colorReset = esc ''[0m''"

definition utf8 :: "nat list \<Rightarrow> string" where
  "utf8 bs = map char_of bs"

definition full_block :: string where "full_block = utf8 [226, 150, 136]"
definition light_shade :: string where "light_shade = utf8 [226, 150, 145]"

definition fmt_int :: "int \<Rightarrow> string" where
  "fmt_int n = (if n < 0 then ''-'' @ itoa (nat (- n)) else itoa (nat n))"

section \<open>\<open>ui.go\<close>\<close>

definition fmt_bytes :: "float_format \<Rightarrow> rounding \<Rightarrow> int \<Rightarrow> string" where
  "fmt_bytes F rnd b =
     (if b < 1024 then fmt_int b @ '' B''
      else if b < 1024 * 1024 then ff_one F (fl_div rnd (fl_of rnd b) 1024) @ '' KB''
      else if b < 1024 * 1024 * 1024 then ff_one F (fl_div rnd (fl_of rnd b) (1024 * 1024)) @ '' MB''
      else ff_two F (fl_div rnd (fl_of rnd b) (1024 * 1024 * 1024)) @ '' GB'')"

definition percent :: "rounding \<Rightarrow> int \<Rightarrow> int \<Rightarrow> fl" where
  "percent rnd sent all_bytes = fl_scale rnd (fl_div rnd (fl_of rnd sent) (rnd (of_int all_bytes))) 100"

definition filled_cells :: "rounding \<Rightarrow> int \<Rightarrow> int \<Rightarrow> int \<Rightarrow> int" where
  "filled_cells rnd bad sent all_bytes = min 40 (fl_int bad (fl_div rnd (percent rnd sent all_bytes) (5 / 2)))"

definition progress_line :: "float_format \<Rightarrow> rounding \<Rightarrow> int \<Rightarrow> int \<Rightarrow> string \<Rightarrow> string" where
  "progress_line F rnd sent all_bytes bar =
     char_of (13 :: nat) # ''  ['' @ bar @ ''] '' @ ff_percent F (percent rnd sent all_bytes) @ ''% '' @ colorDim @
       fmt_bytes F rnd sent @ ''/'' @ fmt_bytes F rnd all_bytes @ colorReset"

definition progress :: "float_format \<Rightarrow> rounding \<Rightarrow> int \<Rightarrow> int \<Rightarrow> int \<Rightarrow> painted" where
  "progress F rnd bad sent all_bytes =
     (let filled = filled_cells rnd bad sent all_bytes
      in case (repeat_string full_block filled, repeat_string light_shade (40 - filled)) of
           (Some a, Some b) \<Rightarrow> Line (progress_line F rnd sent all_bytes (colorBrand @ a @ colorReset @ b))
         | _ \<Rightarrow> RepeatPanic)"

section \<open>\<open>internal/progress\<close>\<close>

definition barWidth :: int where "barWidth = 30"

record bar =
  br_label :: string
  br_total :: int

definition new_bar :: "string \<Rightarrow> int \<Rightarrow> bar" where
  "new_bar label all_bytes = \<lparr>br_label = label, br_total = all_bytes\<rparr>"

definition format_bytes :: "float_format \<Rightarrow> rounding \<Rightarrow> int \<Rightarrow> string" where
  "format_bytes F rnd b =
     (if b \<ge> 2 ^ 30 then ff_one F (fl_div rnd (fl_of rnd b) (2 ^ 30)) @ ''GB''
      else if b \<ge> 2 ^ 20 then ff_one F (fl_div rnd (fl_of rnd b) (2 ^ 20)) @ ''MB''
      else if b \<ge> 2 ^ 10 then ff_one F (fl_div rnd (fl_of rnd b) (2 ^ 10)) @ ''KB''
      else fmt_int b @ ''B'')"

definition bar_fraction :: "rounding \<Rightarrow> int \<Rightarrow> int \<Rightarrow> fl" where
  "bar_fraction rnd current all_bytes =
     (let pct = fl_div rnd (fl_of rnd current) (rnd (of_int all_bytes))
      in if fl_greater pct 1 then Fin 1 else pct)"

definition bar_update :: "float_format \<Rightarrow> rounding \<Rightarrow> int \<Rightarrow> bar \<Rightarrow> int \<Rightarrow> painted" where
  "bar_update F rnd bad b current =
     (if br_total b \<le> 0 then Silent
      else let pct = bar_fraction rnd current (br_total b);
               filled = fl_int bad (fl_scale rnd pct (of_int barWidth))
      in case repeat_string ''='' filled of
           None \<Rightarrow> RepeatPanic
         | Some a \<Rightarrow>
             (case (if filled < barWidth then map_option (\<lambda>s. a @ ''>'' @ s) (repeat_string '' '' (barWidth - filled - 1))
                    else Some a) of
                None \<Rightarrow> RepeatPanic
              | Some s \<Rightarrow>
                  Line (char_of (13 :: nat) # ''  '' @ br_label b @ '' ['' @ s @ ''] '' @
                    ff_percent F (fl_scale rnd pct 100) @ ''% '' @ format_bytes F rnd current @ ''/'' @
                    format_bytes F rnd (br_total b))))"

definition bar_finish :: "float_format \<Rightarrow> rounding \<Rightarrow> int \<Rightarrow> bar \<Rightarrow> painted \<times> string" where
  "bar_finish F rnd bad b = (bar_update F rnd bad b (br_total b), [char_of (10 :: nat)])"

section \<open>Links\<close>

text \<open>The links of \<open>displayPassphrase\<close> and \<open>cmdReceive\<close>; a browser keeps the fragment to itself.\<close>

definition direct_link :: "string \<Rightarrow> string \<Rightarrow> bytes \<Rightarrow> string" where
  "direct_link httpRelay token key = httpRelay @ ''/d/'' @ token @ ''#'' @ key_to_base64 key"

definition receive_link :: "string \<Rightarrow> string \<Rightarrow> bytes \<Rightarrow> string" where
  "receive_link httpRelay token key = httpRelay @ ''/u/'' @ token @ ''#'' @ key_to_base64 key"

section \<open>The progress line\<close>

lemma rnd_pos:
  assumes "rounding_ok rnd" and "0 < n"
  shows "1 \<le> rnd (of_int n)"
  using rnd_at_least [OF assms(1), of 1 "of_int n"] assms(2) by simp

lemma rnd_power: "rounding_ok rnd \<Longrightarrow> k \<le> 63 \<Longrightarrow> a \<le> 2 ^ k \<Longrightarrow> rnd a \<le> 2 ^ k"
  using rnd_mono [of rnd a "2 ^ k"] by (simp add: rounding_ok_def)

text \<open>The exact quotient behind the bar, and where it lies.\<close>

definition cells_value :: "rounding \<Rightarrow> int \<Rightarrow> int \<Rightarrow> rat" where
  "cells_value rnd sent all_bytes =
     rnd (rnd (rnd (rnd (of_int sent) / rnd (of_int all_bytes)) * 100) / (5 / 2))"

lemma filled_cells_Fin:
  assumes "rounding_ok rnd" and "0 < all_bytes"
  shows "filled_cells rnd bad sent all_bytes =
     min 40 (let n = toward_zero (cells_value rnd sent all_bytes) in if int_range n then n else bad)"
  using rnd_pos [OF assms]
  by (simp add: filled_cells_def percent_def fl_int_def fl_div_def fl_scale_def fl_of_def cells_value_def Let_def)

lemma quotient_bounds:
  assumes ok: "rounding_ok rnd" and "0 \<le> sent" and "0 < all_bytes"
  shows "0 \<le> rnd (rnd (of_int sent) / rnd (of_int all_bytes))"
    and "sent \<le> all_bytes \<Longrightarrow> rnd (rnd (of_int sent) / rnd (of_int all_bytes)) \<le> 1"
    and "all_bytes \<le> sent \<Longrightarrow> 1 \<le> rnd (rnd (of_int sent) / rnd (of_int all_bytes))"
    and "sent \<le> 2 ^ 50 \<Longrightarrow> rnd (rnd (of_int sent) / rnd (of_int all_bytes)) \<le> 2 ^ 50"
proof -
  let ?s = "rnd (of_int sent)" and ?t = "rnd (of_int all_bytes)"
  have t: "1 \<le> ?t" by (rule rnd_pos [OF ok assms(3)])
  have s: "0 \<le> ?s" using rnd_at_least [OF ok, of 0 "of_int sent"] assms(2) by simp
  have "0 \<le> ?s / ?t" using s t by simp
  then show "0 \<le> rnd (?s / ?t)" using rnd_at_least [OF ok, of 0 "?s / ?t"] by simp
  show "rnd (?s / ?t) \<le> 1" if "sent \<le> all_bytes"
  proof -
    have "?s \<le> ?t" by (rule rnd_mono [OF ok]) (use that in simp)
    then have "?s / ?t \<le> 1" using t by simp
    then show ?thesis using rnd_at_most [OF ok, of 1 "?s / ?t"] by simp
  qed
  show "1 \<le> rnd (?s / ?t)" if "all_bytes \<le> sent"
  proof -
    have "?t \<le> ?s" by (rule rnd_mono [OF ok]) (use that in simp)
    then have "1 \<le> ?s / ?t" using t by simp
    then show ?thesis using rnd_at_least [OF ok, of 1 "?s / ?t"] by simp
  qed
  show "rnd (?s / ?t) \<le> 2 ^ 50" if "sent \<le> 2 ^ 50"
  proof -
    have "(of_int sent :: rat) \<le> of_int (2 ^ 50)" using that by (simp only: of_int_le_iff)
    then have "?s \<le> 2 ^ 50" by (intro rnd_power [OF ok]) simp_all
    moreover have "?s / ?t \<le> ?s" using s t by (simp add: divide_le_eq mult_le_cancel_left1)
    ultimately show ?thesis by (intro rnd_power [OF ok]) simp_all
  qed
qed

lemma cells_bounds:
  assumes ok: "rounding_ok rnd" and "0 \<le> q"
  shows "0 \<le> rnd (rnd (q * 100) / (5 / 2))"
    and "q \<le> 1 \<Longrightarrow> rnd (rnd (q * 100) / (5 / 2)) \<le> 40"
    and "1 \<le> q \<Longrightarrow> 40 \<le> rnd (rnd (q * 100) / (5 / 2))"
    and "q \<le> 2 ^ 50 \<Longrightarrow> rnd (rnd (q * 100) / (5 / 2)) \<le> 2 ^ 57"
proof -
  have p: "0 \<le> rnd (q * 100)" using rnd_at_least [OF ok, of 0 "q * 100"] assms(2) by simp
  then show "0 \<le> rnd (rnd (q * 100) / (5 / 2))" using rnd_at_least [OF ok, of 0 "rnd (q * 100) / (5 / 2)"] by simp
  show "rnd (rnd (q * 100) / (5 / 2)) \<le> 40" if "q \<le> 1"
  proof -
    have "rnd (q * 100) \<le> 100" using rnd_at_most [OF ok, of 100 "q * 100"] that by simp
    then show ?thesis using rnd_at_most [OF ok, of 40 "rnd (q * 100) / (5 / 2)"] by simp
  qed
  show "40 \<le> rnd (rnd (q * 100) / (5 / 2))" if "1 \<le> q"
  proof -
    have "100 \<le> rnd (q * 100)" using rnd_at_least [OF ok, of 100 "q * 100"] that by simp
    then show ?thesis using rnd_at_least [OF ok, of 40 "rnd (q * 100) / (5 / 2)"] by simp
  qed
  show "rnd (rnd (q * 100) / (5 / 2)) \<le> 2 ^ 57" if "q \<le> 2 ^ 50"
  proof -
    have "rnd (q * 100) \<le> 2 ^ 57" by (rule rnd_power [OF ok]) (use that in simp_all)
    then show ?thesis by (intro rnd_power [OF ok]) (use p in simp_all)
  qed
qed

lemma filled_cells_bounds:
  assumes ok: "rounding_ok rnd" and "0 \<le> sent" and "0 < all_bytes" and "sent \<le> all_bytes \<or> sent \<le> 2 ^ 50"
  shows "0 \<le> filled_cells rnd bad sent all_bytes \<and> filled_cells rnd bad sent all_bytes \<le> 40 \<and>
     (all_bytes \<le> sent \<longrightarrow> filled_cells rnd bad sent all_bytes = 40)"
proof -
  let ?q = "rnd (rnd (of_int sent) / rnd (of_int all_bytes))" and ?v = "cells_value rnd sent all_bytes"
  note q = quotient_bounds [OF ok assms(2,3)] and c = cells_bounds [OF ok, of ?q]
  have v: "?v = rnd (rnd (?q * 100) / (5 / 2))" by (simp add: cells_value_def)
  have "0 \<le> ?v" using q(1) c(1) v by simp
  moreover have "?v \<le> of_int (2 ^ 57)"
  proof (cases "sent \<le> all_bytes")
    case True
    then have "?v \<le> 40" using q(1,2) c(2) v by simp
    then show ?thesis by simp
  next
    case False
    with assms(4) have "?v \<le> 2 ^ 57" using q(1,4) c(4) v by simp
    then show ?thesis by simp
  qed
  ultimately have n: "0 \<le> toward_zero ?v" "toward_zero ?v \<le> 2 ^ 57"
    using toward_zero_bounds(1) [of 0 ?v] toward_zero_bounds(2) [of ?v "2 ^ 57"] by simp_all
  then have r: "int_range (toward_zero ?v)" by (simp add: int_range_def)
  have full: "40 \<le> toward_zero ?v" if "all_bytes \<le> sent"
  proof -
    have "of_int 40 \<le> ?v" using q(1) q(3) [OF that] c(3) v by simp
    then show ?thesis by (rule toward_zero_bounds(1)) simp
  qed
  show ?thesis
    using n(1) r full by (simp add: filled_cells_Fin [OF ok assms(3)] Let_def)
qed

lemma filled_cells_zero: "filled_cells rnd bad 0 0 = min 40 bad" if "rounding_ok rnd"
  using rnd_int [OF that, of 0] by (simp add: filled_cells_def percent_def fl_int_def fl_div_def fl_scale_def fl_of_def)

text \<open>
  C32: With a positive size the progress line never panics and its bar has 40 cells, all of them
  full once everything is sent, whatever the rounding of the format does; but with the size 0,
  which the receiver of an empty file reports at its metadata, the quotient is no number, and where a
  conversion of it gives a negative integer, as on amd64, \<open>strings.Repeat\<close> panics.
\<close>

theorem progress_bar:
  assumes "rounding_ok rnd" and "0 \<le> sent" and "0 < all_bytes" and "sent \<le> all_bytes \<or> sent \<le> 2 ^ 50"
    and "bad < 0"
  shows "(\<exists>k\<le>40. progress F rnd bad sent all_bytes =
        Line (progress_line F rnd sent all_bytes
          (colorBrand @ concat (replicate k full_block) @ colorReset @ concat (replicate (40 - k) light_shade))) \<and>
        (k = 40 \<or> sent < all_bytes)) \<and>
     progress F rnd bad 0 0 = RepeatPanic"
proof
  from filled_cells_bounds [OF assms(1-4), of bad] obtain k where
    k: "filled_cells rnd bad sent all_bytes = int k" "k \<le> 40" "k = 40 \<or> sent < all_bytes"
    by (metis linorder_not_le nonneg_int_cases of_nat_le_numeral_iff of_nat_eq_iff of_nat_numeral)
  then have "nat (40 - int k) = 40 - k" "int k \<le> 40" by linarith+
  with k show "\<exists>k\<le>40. progress F rnd bad sent all_bytes =
        Line (progress_line F rnd sent all_bytes
          (colorBrand @ concat (replicate k full_block) @ colorReset @ concat (replicate (40 - k) light_shade))) \<and>
        (k = 40 \<or> sent < all_bytes)"
    by (intro exI [of _ k]) (simp add: progress_def repeat_string_def)
  show "progress F rnd bad 0 0 = RepeatPanic"
    using assms(5) by (simp add: progress_def repeat_string_def filled_cells_zero [OF assms(1)])
qed

definition plain_format :: float_format where
  "plain_format = \<lparr>ff_percent = (\<lambda>_. ''50''), ff_one = (\<lambda>_. ''1.5''), ff_two = (\<lambda>_. ''1.25'')\<rparr>"

theorem progress_bar_witness:
  "(\<exists>k\<le>40. progress plain_format (\<lambda>x. x) (- (2 ^ 63)) 512 1024 =
      Line (progress_line plain_format (\<lambda>x. x) 512 1024
        (colorBrand @ concat (replicate k full_block) @ colorReset @ concat (replicate (40 - k) light_shade)))) \<and>
   progress plain_format (\<lambda>x. x) (- (2 ^ 63)) 0 0 = RepeatPanic"
  using progress_bar [OF rounding_ok_id, of 512 1024 "- (2 ^ 63)" plain_format] by auto

text \<open>The metadata of an empty file makes exactly that call.\<close>

lemma empty_file_progress:
  assumes "handle_metadata L r d msg st w = (Inr x, st', w')" and "md_size (rf_metadata st') = 0" and "rf_received st' = 0"
  shows "rw_progress w' = rw_progress w @ [(0, 0)]"
  using assms
  by (auto simp: handle_metadata_def progress_call_def Let_def split: option.splits sum.splits prod.splits if_splits)

section \<open>The other bar\<close>

lemma bar_silent: "all_bytes \<le> 0 \<Longrightarrow> bar_update F rnd bad (new_bar label all_bytes) current = Silent"
  by (simp add: bar_update_def new_bar_def)

lemma bar_update_paints:
  assumes ok: "rounding_ok rnd" and "0 \<le> current" and "0 < br_total b"
  shows "\<exists>s. bar_update F rnd bad b current = Line s"
proof -
  let ?x = "rnd (rnd (of_int current) / rnd (of_int (br_total b)))"
  have t: "rnd (of_int (br_total b)) \<noteq> 0" using rnd_pos [OF ok assms(3)] by auto
  obtain y where y: "bar_fraction rnd current (br_total b) = Fin y" "0 \<le> y" "y \<le> 1"
    using t quotient_bounds(1) [OF ok assms(2,3)]
    by (cases "1 < ?x") (auto simp: bar_fraction_def fl_div_def fl_of_def fl_greater_def Let_def)
  have "0 \<le> rnd (y * 30)" "rnd (y * 30) \<le> 30"
    using rnd_at_least [OF ok, of 0 "y * 30"] rnd_at_most [OF ok, of 30 "y * 30"] y by simp_all
  then have "0 \<le> toward_zero (rnd (y * 30))" "toward_zero (rnd (y * 30)) \<le> 30"
    using toward_zero_bounds(1) [of 0 "rnd (y * 30)"] toward_zero_bounds(2) [of "rnd (y * 30)" 30] by simp_all
  moreover from this have "int_range (toward_zero (rnd (y * 30)))" by (simp add: int_range_def)
  ultimately show ?thesis
    using y(1) assms(3) by (simp add: bar_update_def fl_scale_def fl_int_def barWidth_def repeat_string_def Let_def)
qed

section \<open>Links\<close>

lemma key_text_no_hash: "CHR ''#'' \<notin> set (key_to_base64 key)"
proof
  assume "CHR ''#'' \<in> set (key_to_base64 key)"
  then obtain d where "d \<in> set (key_digits key)" "b64_char d = CHR ''#''" by (auto simp: key_to_digits)
  with key_digits_small [of key] b64_value_char(1) [of d] show False by (simp add: b64_value_def)
qed

text \<open>The part after the last hash is the key again.\<close>

lemma link_fragment:
  "key_from_base64 (rev (takeWhile (\<lambda>c. c \<noteq> CHR ''#'') (rev (direct_link relay token key)))) = Some key"
  "key_from_base64 (rev (takeWhile (\<lambda>c. c \<noteq> CHR ''#'') (rev (receive_link relay token key)))) = Some key"
proof -
  have "takeWhile (\<lambda>c. c \<noteq> CHR ''#'') (rev (key_to_base64 key) @ CHR ''#'' # s) = rev (key_to_base64 key)" for s
    using key_text_no_hash [of key] by (subst takeWhile_append2) auto
  then show "key_from_base64 (rev (takeWhile (\<lambda>c. c \<noteq> CHR ''#'') (rev (direct_link relay token key)))) = Some key"
    "key_from_base64 (rev (takeWhile (\<lambda>c. c \<noteq> CHR ''#'') (rev (receive_link relay token key)))) = Some key"
    by (simp_all add: direct_link_def receive_link_def key_text_roundtrip)
qed

end
